theory Spec2Isabelle
  imports Main "HOL-Library.Word" "HOL-Library.AList"
begin

section \<open>JavaScript strings\<close>

text \<open>
  A JavaScript string is a sequence of UTF-16 code units. The functions of the program
  that look inside a string (\<open>split\<close>, \<open>trim\<close>, \<open>replace\<close> with a character class,
  \<open>toLowerCase\<close>, \<open>startsWith\<close>, \<open>endsWith\<close>) work on code units, so a string is a
  list of 16-bit words. \<open>utf16\<close> writes an ASCII literal as such a list.
\<close>

type_synonym jstring = "16 word list"

definition utf16 :: "string \<Rightarrow> jstring" where
  "utf16 s = map (\<lambda>c. of_nat (of_char c)) s"

text \<open>
  \<open>String.prototype.split(sep)\<close> for a string separator: the string is cut at
  every occurrence of \<open>sep\<close>, found from the left, occurrences not overlapping. With
  the empty separator the result is the list of the code units. \<open>cur\<close> is the piece
  being read.
\<close>

function String_split_from :: "jstring \<Rightarrow> jstring \<Rightarrow> jstring \<Rightarrow> jstring list" where
  "String_split_from sep cur [] = [cur]"
| "String_split_from sep cur (c # cs) =
     (if sep \<noteq> [] \<and> take (length sep) (c # cs) = sep
      then cur # String_split_from sep [] (drop (length sep) (c # cs))
      else String_split_from sep (cur @ [c]) cs)"
  by pat_completeness auto
termination
  by (relation "measure (\<lambda>(sep, cur, rest). length rest)") auto

definition String_split :: "jstring \<Rightarrow> jstring \<Rightarrow> jstring list" where
  "String_split sep s =
     (if sep = [] then map (\<lambda>c. [c]) s else String_split_from sep [] s)"

text \<open>\<open>Array.prototype.join(sep)\<close> on an array of strings.\<close>

fun Array_join :: "jstring \<Rightarrow> jstring list \<Rightarrow> jstring" where
  "Array_join sep [] = []"
| "Array_join sep [x] = x"
| "Array_join sep (x # y # ys) = x @ sep @ Array_join sep (y # ys)"

text \<open>
  The white space and line terminators of ECMAScript, which \<open>String.prototype.trim\<close>
  removes from both ends: TAB, LF, VT, FF, CR, SP, NBSP, U+1680, U+2000 to U+200A,
  U+2028, U+2029, U+202F, U+205F, U+3000 and U+FEFF.
\<close>

definition isWhiteSpace :: "16 word \<Rightarrow> bool" where
  "isWhiteSpace c =
     ((0x09 \<le> c \<and> c \<le> 0x0D) \<or> c = 0x20 \<or> c = 0xA0 \<or> c = 0x1680 \<or>
      (0x2000 \<le> c \<and> c \<le> 0x200A) \<or> c = 0x2028 \<or> c = 0x2029 \<or> c = 0x202F \<or>
      c = 0x205F \<or> c = 0x3000 \<or> c = 0xFEFF)"

definition String_trim :: "jstring \<Rightarrow> jstring" where
  "String_trim s = rev (dropWhile isWhiteSpace (rev (dropWhile isWhiteSpace s)))"

text \<open>
  \<open>String.prototype.toLowerCase\<close>, on the ASCII letters. The program uses it only
  to test membership in a list of lower-case ASCII words; no character outside ASCII has
  a lower-case form made of the letters of those words, so on that test this function and
  the full Unicode mapping agree.
\<close>

definition toLowerCase_unit :: "16 word \<Rightarrow> 16 word" where
  "toLowerCase_unit c = (if 0x41 \<le> c \<and> c \<le> 0x5A then c + 0x20 else c)"

definition String_toLowerCase :: "jstring \<Rightarrow> jstring" where
  "String_toLowerCase s = map toLowerCase_unit s"

definition String_startsWith :: "jstring \<Rightarrow> jstring \<Rightarrow> bool" where
  "String_startsWith s p = (take (length p) s = p)"

definition String_endsWith :: "jstring \<Rightarrow> jstring \<Rightarrow> bool" where
  "String_endsWith s p = (length p \<le> length s \<and> drop (length s - length p) s = p)"

section \<open>Story namer\<close>

text \<open>
  \<^verbatim>\<open>
  const generateStoryName = (summary) => {
    const words = summary.split(' ');
    const filteredWords = words.filter(word =>
      !['the', 'a', 'an', 'is', 'was', 'and', 'of', 'in', 'on'].includes(word.toLowerCase()));
    const nameWords = filteredWords.slice(0, Math.min(filteredWords.length, 3));
    const name = nameWords.join(' ');
    return name;
  };
  \<close>
\<close>

definition stopwords :: "jstring list" where
  "stopwords = map utf16 [''the'', ''a'', ''an'', ''is'', ''was'', ''and'', ''of'', ''in'', ''on'']"

definition generateStoryName :: "jstring \<Rightarrow> jstring" where
  "generateStoryName summary =
     (let words = String_split (utf16 '' '') summary;
          filteredWords = filter (\<lambda>word. String_toLowerCase word \<notin> set stopwords) words;
          nameWords = take (min (length filteredWords) 3) filteredWords
      in Array_join (utf16 '' '') nameWords)"

text \<open>
  The namer as the specification words it: the summary is tokenized on white space (the
  tokens are the maximal runs of code units that are not white space), the stop words are
  dropped without regard to case, and the first three tokens left are joined with spaces.
\<close>

fun tokens_spec :: "jstring \<Rightarrow> jstring \<Rightarrow> jstring list" where
  "tokens_spec cur [] = (if cur = [] then [] else [cur])"
| "tokens_spec cur (c # cs) =
     (if isWhiteSpace c then (if cur = [] then [] else [cur]) @ tokens_spec [] cs
      else tokens_spec (cur @ [c]) cs)"

definition generateStoryName_spec :: "jstring \<Rightarrow> jstring" where
  "generateStoryName_spec summary =
     Array_join (utf16 '' '')
       (take 3 (filter (\<lambda>word. String_toLowerCase word \<notin> set stopwords)
          (tokens_spec [] summary)))"

section \<open>JavaScript values, errors and effects\<close>

text \<open>
  The values the program passes around: request bodies, the responses of the services and
  the parsed story. A number is an integer here (the program computes with counts and
  milliseconds only), a buffer is a list of bytes, and an object is the list of its own
  properties in insertion order.
\<close>

datatype jsval =
    Undefined
  | Null
  | Bool bool
  | Num int
  | Str jstring
  | Buf "8 word list"
  | Arr "jsval list"
  | Obj "(jstring \<times> jsval) list"

text \<open>
  An exception: its constructor's name, its \<open>message\<close> and, for a failed HTTP
  request that got an answer, the \<open>response\<close> that axios attaches to it
  (\<open>Undefined\<close> otherwise).
\<close>

record js_error =
  ename :: string
  message :: jstring
  response :: jsval

definition new_Error :: "jstring \<Rightarrow> js_error" where
  "new_Error msg = \<lparr>ename = ''Error'', message = msg, response = Undefined\<rparr>"

definition TypeError :: "jstring \<Rightarrow> js_error" where
  "TypeError msg = \<lparr>ename = ''TypeError'', message = msg, response = Undefined\<rparr>"

definition ReferenceError :: "jstring \<Rightarrow> js_error" where
  "ReferenceError msg = \<lparr>ename = ''ReferenceError'', message = msg, response = Undefined\<rparr>"

definition bindE :: "'e + 'a \<Rightarrow> ('a \<Rightarrow> 'e + 'b) \<Rightarrow> 'e + 'b" where
  "bindE m f = (case m of Inl e \<Rightarrow> Inl e | Inr x \<Rightarrow> f x)"

text \<open>Truthiness, as \<open>if (v)\<close>, \<open>!v\<close>, \<open>a && b\<close> and \<open>a || b\<close> test it.\<close>

fun truthy :: "jsval \<Rightarrow> bool" where
  "truthy Undefined = False"
| "truthy Null = False"
| "truthy (Bool b) = b"
| "truthy (Num n) = (n \<noteq> 0)"
| "truthy (Str s) = (s \<noteq> [])"
| "truthy (Buf b) = True"
| "truthy (Arr xs) = True"
| "truthy (Obj kvs) = True"

text \<open>Decimal digits of a natural number, and \<open>Number.prototype.toString\<close> on integers.\<close>

function dec_nat :: "nat \<Rightarrow> jstring" where
  "dec_nat n = (if n < 10 then [of_nat (48 + n)] else dec_nat (n div 10) @ [of_nat (48 + n mod 10)])"
  by pat_completeness auto
termination
  by (relation "measure id") auto

declare dec_nat.simps [simp del]

definition Number_toString :: "int \<Rightarrow> jstring" where
  "Number_toString n = (if n < 0 then utf16 ''-'' @ dec_nat (nat (- n)) else dec_nat (nat n))"

text \<open>
  \<open>ToString\<close>, as a template literal applies it. An array prints its elements
  separated by commas, \<open>undefined\<close> and \<open>null\<close> elements as nothing; a buffer
  prints its bytes as code units.
\<close>

fun ToString :: "jsval \<Rightarrow> jstring" where
  "ToString Undefined = utf16 ''undefined''"
| "ToString Null = utf16 ''null''"
| "ToString (Bool b) = (if b then utf16 ''true'' else utf16 ''false'')"
| "ToString (Num n) = Number_toString n"
| "ToString (Str s) = s"
| "ToString (Buf b) = map ucast b"
| "ToString (Arr xs) =
     Array_join (utf16 '','')
       (map (\<lambda>x. if x = Undefined \<or> x = Null then [] else ToString x) xs)"
| "ToString (Obj kvs) = utf16 ''[object Object]''"

text \<open>
  Reading a property \<open>v.k\<close>: a \<open>TypeError\<close> on \<open>undefined\<close> and \<open>null\<close>, the
  own property of an object, \<open>undefined\<close> when there is none. \<open>v[i]\<close> reads an
  element of an array (\<open>undefined\<close> out of range), a code unit of a string, or the
  property of an object whose key is the number printed. \<open>v.length\<close> is the length
  of an array, a string or a buffer.
\<close>

definition cannot_read :: "jsval \<Rightarrow> jstring \<Rightarrow> js_error" where
  "cannot_read v k =
     TypeError (utf16 ''Cannot read properties of '' @ ToString v @ utf16 '' (reading '' @
       [0x27] @ k @ [0x27] @ utf16 '')'')"

fun getProp :: "jsval \<Rightarrow> jstring \<Rightarrow> js_error + jsval" where
  "getProp Undefined k = Inl (cannot_read Undefined k)"
| "getProp Null k = Inl (cannot_read Null k)"
| "getProp (Obj kvs) k = Inr (case map_of kvs k of Some v \<Rightarrow> v | None \<Rightarrow> Undefined)"
| "getProp v k = Inr Undefined"

fun getIndex :: "jsval \<Rightarrow> nat \<Rightarrow> js_error + jsval" where
  "getIndex Undefined i = Inl (cannot_read Undefined (dec_nat i))"
| "getIndex Null i = Inl (cannot_read Null (dec_nat i))"
| "getIndex (Arr xs) i = Inr (if i < length xs then xs ! i else Undefined)"
| "getIndex (Str s) i = Inr (if i < length s then Str [s ! i] else Undefined)"
| "getIndex (Buf b) i = Inr (if i < length b then Num (uint (b ! i)) else Undefined)"
| "getIndex (Obj kvs) i = getProp (Obj kvs) (dec_nat i)"
| "getIndex v i = Inr Undefined"

fun getLength :: "jsval \<Rightarrow> js_error + jsval" where
  "getLength (Arr xs) = Inr (Num (int (length xs)))"
| "getLength (Str s) = Inr (Num (int (length s)))"
| "getLength (Buf b) = Inr (Num (int (length b)))"
| "getLength v = getProp v (utf16 ''length'')"

text \<open>
  The world outside the program. \<open>calls\<close> counts the HTTP requests issued so far,
  \<open>trace\<close> lists the requests and the waits (\<open>setTimeout\<close>, in milliseconds) in the
  order they happen, \<open>console\<close> holds the lines written with \<open>console.log\<close> and
  \<open>console.error\<close> (each the list of its arguments, printed), \<open>files\<close> maps
  the path of every file that exists to its time of last modification (\<open>mtimeMs\<close>,
  in whole milliseconds), and \<open>pdfPreviews\<close> is the module's \<open>Map\<close> of that
  name, from preview identifiers to paths, as the list of its entries in insertion order.
\<close>

datatype http_method = GET | POST

datatype event = Http http_method jstring | Sleep nat

datatype log_line = LogInfo "jstring list" | LogError "jstring list"

record world =
  calls :: nat
  trace :: "event list"
  console :: "log_line list"
  files :: "jstring \<rightharpoonup> int"
  pdfPreviews :: "(jstring \<times> jstring) list"

text \<open>
  The environment: \<open>net k\<close> is the outcome of the \<open>k\<close>-th request the program
  issues (the response, or the error the request is rejected with), \<open>JSON_parse\<close> is
  the built-in \<open>JSON.parse\<close> (\<open>None\<close> where it throws a \<open>SyntaxError\<close>),
  \<open>sizeOf\<close> is the image-size library, \<open>pdf_image_ok\<close> tells whether PDFKit's
  \<open>doc.image\<close> accepts a buffer (it throws otherwise), \<open>now\<close> is \<open>Date.now()\<close>
  and \<open>dirname\<close> is \<open>__dirname\<close>.
\<close>

record env =
  net :: "nat \<Rightarrow> js_error + jsval"
  JSON_parse :: "jstring \<Rightarrow> jsval option"
  sizeOf :: "8 word list \<Rightarrow> js_error + (nat \<times> nat)"
  pdf_image_ok :: "8 word list \<Rightarrow> bool"
  now :: int
  dirname :: jstring

definition request :: "env \<Rightarrow> http_method \<Rightarrow> jstring \<Rightarrow> world \<Rightarrow> (js_error + jsval) \<times> world" where
  "request e m url w =
     (net e (calls w), w\<lparr>calls := Suc (calls w), trace := trace w @ [Http m url]\<rparr>)"

definition delay :: "nat \<Rightarrow> world \<Rightarrow> world" where
  "delay ms w = w\<lparr>trace := trace w @ [Sleep ms]\<rparr>"

definition console_log :: "jstring list \<Rightarrow> world \<Rightarrow> world" where
  "console_log args w = w\<lparr>console := console w @ [LogInfo args]\<rparr>"

definition console_error :: "jstring list \<Rightarrow> world \<Rightarrow> world" where
  "console_error args w = w\<lparr>console := console w @ [LogError args]\<rparr>"

text \<open>\<open>error.message || error\<close>, printed.\<close>

definition message_or_error :: "js_error \<Rightarrow> jstring" where
  "message_or_error err = (if message err \<noteq> [] then message err else utf16 (ename err))"

section \<open>Retry helper\<close>

text \<open>
  \<^verbatim>\<open>
  const makeRequestWithRetry = async (url, data, options, maxRetries = 3) => {
    for (let i = 0; i < maxRetries; i++) {
      try {
        return await axios.post(url, data, options);
      } catch (error) {
        if (i === maxRetries - 1) throw error;
        await new Promise(resolve => setTimeout(resolve, 1000 * Math.pow(2, i)));
      }
    }
  };
  \<close>
  The loop from \<open>i\<close> on. When the loop ends without a request the function returns
  \<open>undefined\<close>.
\<close>

function makeRequestWithRetry_from ::
    "env \<Rightarrow> jstring \<Rightarrow> int \<Rightarrow> nat \<Rightarrow> world \<Rightarrow> (js_error + jsval) \<times> world" where
  "makeRequestWithRetry_from e url maxRetries i w =
     (if int i < maxRetries then
        (case request e POST url w of
           (Inr resp, w') \<Rightarrow> (Inr resp, w')
         | (Inl err, w') \<Rightarrow>
             if int i = maxRetries - 1 then (Inl err, w')
             else makeRequestWithRetry_from e url maxRetries (i + 1) (delay (1000 * 2 ^ i) w'))
      else (Inr Undefined, w))"
  by pat_completeness auto
termination
  by (relation "measure (\<lambda>(e, url, maxRetries, i, w). nat (maxRetries - int i))") auto

declare makeRequestWithRetry_from.simps [simp del]

definition makeRequestWithRetry ::
    "env \<Rightarrow> jstring \<Rightarrow> int \<Rightarrow> world \<Rightarrow> (js_error + jsval) \<times> world" where
  "makeRequestWithRetry e url maxRetries w = makeRequestWithRetry_from e url maxRetries 0 w"

section \<open>Text generation client\<close>

text \<open>
  \<^verbatim>\<open>
  const escapeJsonString = (str) => {
    return str.replace(/[\u0000-\u001F\u007F-\u009F]/g, ''); // Remove control characters
  };
  \<close>
  \<open>removeControl\<close> is the replacement on a string; on a value that is not a string the
  call of \<open>replace\<close> throws a \<open>TypeError\<close>.
\<close>

definition isControl :: "16 word \<Rightarrow> bool" where
  "isControl c = (c \<le> 0x1F \<or> (0x7F \<le> c \<and> c \<le> 0x9F))"

definition removeControl :: "jstring \<Rightarrow> jstring" where
  "removeControl str = filter (\<lambda>c. \<not> isControl c) str"

fun escapeJsonString :: "jsval \<Rightarrow> js_error + jstring" where
  "escapeJsonString (Str str) = Inr (removeControl str)"
| "escapeJsonString Undefined = Inl (cannot_read Undefined (utf16 ''replace''))"
| "escapeJsonString Null = Inl (cannot_read Null (utf16 ''replace''))"
| "escapeJsonString v = Inl (TypeError (utf16 ''str.replace is not a function''))"

definition MAX_RETRIES :: nat where
  "MAX_RETRIES = 5"

definition chat_completions_url :: jstring where
  "chat_completions_url = utf16 ''https://api.openai.com/v1/chat/completions''"

text \<open>\<open>response.data.choices[0].message.content\<close>\<close>

definition first_choice_content :: "jsval \<Rightarrow> js_error + jsval" where
  "first_choice_content resp =
     bindE (getProp resp (utf16 ''data'')) (\<lambda>d.
     bindE (getProp d (utf16 ''choices'')) (\<lambda>cs.
     bindE (getIndex cs 0) (\<lambda>c.
     bindE (getProp c (utf16 ''message'')) (\<lambda>m.
     getProp m (utf16 ''content'')))))"

text \<open>
  \<^verbatim>\<open>
  const makeChatRequest = async (message, numChapters, maxWordsPerChapter, retries = 0) => {
    try {
      const response = await axios.post('https://api.openai.com/v1/chat/completions', ...);
      let content = response.data.choices[0].message.content;
      // Escape control characters
      content = escapeJsonString(content);
      // Try parsing JSON
      try {
        const storyData = JSON.parse(content);
        return storyData;
      } catch (parseError) {
        console.error('Error parsing JSON:', parseError);
        console.error('Content that caused the error:', content);
        throw new Error('Failed to parse JSON response');
      }
    } catch (error) {
      if (error.response && error.response.status === 429 && retries < MAX_RETRIES) {
        console.log(`Rate limited. Retrying in ${(retries + 1) * 1000} ms...`);
        await delay((retries + 1) * 1000);
        return makeChatRequest(message, numChapters, maxWordsPerChapter, retries + 1);
      } else {
        console.error('Error in makeChatRequest:', error.message || error);
        throw error;
      }
    }
  };
  \<close>
  The prompt, the number of chapters and the word budget go into the body of the request;
  the outcome of the request is the environment's. \<open>chatAttempt\<close> is the outer
  \<open>try\<close> block, \<open>rateLimited\<close> the test on the error that the \<open>catch\<close> makes.
\<close>

definition chatAttempt :: "env \<Rightarrow> world \<Rightarrow> (js_error + jsval) \<times> world" where
  "chatAttempt e w =
     (case request e POST chat_completions_url w of
        (Inl err, w1) \<Rightarrow> (Inl err, w1)
      | (Inr resp, w1) \<Rightarrow>
          (case bindE (first_choice_content resp) escapeJsonString of
             Inl err \<Rightarrow> (Inl err, w1)
           | Inr content \<Rightarrow>
               (case JSON_parse e content of
                  Some storyData \<Rightarrow> (Inr storyData, w1)
                | None \<Rightarrow>
                    (Inl (new_Error (utf16 ''Failed to parse JSON response'')),
                     console_error [utf16 ''Content that caused the error:'', content]
                       (console_error [utf16 ''Error parsing JSON:'', utf16 ''SyntaxError''] w1)))))"

definition rateLimited :: "js_error \<Rightarrow> bool" where
  "rateLimited err =
     (truthy (response err) \<and> getProp (response err) (utf16 ''status'') = Inr (Num 429))"

function makeChatRequest :: "env \<Rightarrow> nat \<Rightarrow> world \<Rightarrow> (js_error + jsval) \<times> world" where
  "makeChatRequest e retries w =
     (case chatAttempt e w of
        (Inr storyData, w1) \<Rightarrow> (Inr storyData, w1)
      | (Inl err, w1) \<Rightarrow>
          if rateLimited err \<and> retries < MAX_RETRIES then
            makeChatRequest e (retries + 1)
              (delay ((retries + 1) * 1000)
                (console_log [utf16 ''Rate limited. Retrying in '' @
                    dec_nat ((retries + 1) * 1000) @ utf16 '' ms...''] w1))
          else (Inl err, console_error [utf16 ''Error in makeChatRequest:'', message_or_error err] w1))"
  by pat_completeness auto
termination
  by (relation "measure (\<lambda>(e, retries, w). MAX_RETRIES - retries)") auto

declare makeChatRequest.simps [simp del]

section \<open>File system\<close>

text \<open>
  The synchronous calls of \<open>fs\<close> the program makes. Reading, \<open>statSync\<close> and
  \<open>unlinkSync\<close> throw \<open>ENOENT\<close> when there is no file at the path; writing creates
  the file, or replaces it, with the current time as its time of last modification (the
  directory is taken to exist).
\<close>

definition ENOENT :: "string \<Rightarrow> jstring \<Rightarrow> js_error" where
  "ENOENT syscall path =
     new_Error (utf16 ''ENOENT: no such file or directory, '' @ utf16 syscall @ utf16 '' '' @
       [0x27] @ path @ [0x27])"

definition existsSync :: "jstring \<Rightarrow> world \<Rightarrow> bool" where
  "existsSync path w = (files w path \<noteq> None)"

definition readFileSync :: "jstring \<Rightarrow> world \<Rightarrow> js_error + unit" where
  "readFileSync path w = (if existsSync path w then Inr () else Inl (ENOENT ''open'' path))"

definition statSync :: "jstring \<Rightarrow> world \<Rightarrow> js_error + int" where
  "statSync path w = (case files w path of None \<Rightarrow> Inl (ENOENT ''stat'' path) | Some mtimeMs \<Rightarrow> Inr mtimeMs)"

definition unlinkSync :: "jstring \<Rightarrow> world \<Rightarrow> (js_error + unit) \<times> world" where
  "unlinkSync path w =
     (if existsSync path w then (Inr (), w\<lparr>files := (files w)(path := None)\<rparr>)
      else (Inl (ENOENT ''unlink'' path), w))"

definition writeFileSync :: "env \<Rightarrow> jstring \<Rightarrow> world \<Rightarrow> world" where
  "writeFileSync e path w = w\<lparr>files := (files w)(path \<mapsto> now e)\<rparr>"

text \<open>\<open>path.join\<close> of segments that need no normalization.\<close>

definition path_join :: "jstring list \<Rightarrow> jstring" where
  "path_join segments = Array_join (utf16 ''/'') segments"

section \<open>PDF documents\<close>

text \<open>
  A document under construction is the list of the calls made on the PDFKit document, in
  order: \<open>doc.fontSize(n)\<close>, \<open>doc.font(name)\<close>, \<open>doc.fillColor(c)\<close>,
  \<open>doc.text(t, {align})\<close> (the alignment is empty when no option is given; the
  justified paragraphs have the line gap 5), \<open>doc.moveDown(n)\<close>,
  \<open>doc.image(buffer, {fit, align: 'center', valign: 'center'})\<close> and \<open>doc.addPage()\<close>.
  The box an image is fitted into is \<open>[500, 500]\<close>, or
  \<open>[imgWidth, (height / width) * imgWidth]\<close> for the dimensions of the image, kept as
  the three numbers.
\<close>

datatype fit = Fit nat nat | FitRatio nat nat nat

datatype doc_call =
    FontSize nat
  | Font string
  | FillColor string
  | Text jstring string
  | MoveDown nat
  | Image "8 word list" fit
  | AddPage

section \<open>Replies of the HTTP handlers\<close>

text \<open>
  What a handler sends: \<open>res.status(code).json(body)\<close>, \<open>res.sendFile(path)\<close>, or
  the bytes of a document with the status 200 and the content type of PDF. A
  handler is an \<open>async\<close> function; \<open>uncaught\<close> is the exception its promise is
  rejected with when one escapes it, which the framework does not answer.
\<close>

datatype reply = Json nat jsval | SendFile jstring | SendPdf "doc_call list"

record outcome =
  sent :: "reply option"
  uncaught :: "js_error option"

definition responded :: "reply \<Rightarrow> outcome" where
  "responded r = \<lparr>sent = Some r, uncaught = None\<rparr>"

section \<open>Image description client\<close>

text \<open>
  \<^verbatim>\<open>
  if (response && response.choices && response.choices.length > 0) {
    const choice = response.choices[0];
    if (choice && choice.message && typeof choice.message.content === 'string') {
      const content = choice.message.content;
      const paragraphs = content.split('\n\n').filter(p => p.trim().length > 0);
      if (paragraphs.length < 5) {
        throw new Error('Generated content has less than 5 paragraphs');
      }
      return content;
    } else {
      throw new Error('No valid message found in response');
    }
  } else {
    throw new Error('Unexpected response structure');
  }
  \<close>
  \<open>greaterThanZero\<close> is \<open>v > 0\<close> on the values a \<open>length\<close> can be: a number, or
  \<open>undefined\<close>, for which the comparison is false.
\<close>

definition paragraphs :: "jstring \<Rightarrow> jstring list" where
  "paragraphs content =
     filter (\<lambda>p. length (String_trim p) > 0) (String_split [0x0A, 0x0A] content)"

fun greaterThanZero :: "jsval \<Rightarrow> bool" where
  "greaterThanZero (Num n) = (n > 0)"
| "greaterThanZero (Bool b) = b"
| "greaterThanZero v = False"

fun and_then :: "jsval \<Rightarrow> (js_error + jsval) \<Rightarrow> js_error + jsval" where
  "and_then a b = (if truthy a then b else Inr a)"

definition checkDescription :: "jsval \<Rightarrow> js_error + jstring" where
  "checkDescription resp =
     (if truthy resp
         \<and> (case getProp resp (utf16 ''choices'') of Inr chs \<Rightarrow>
               truthy chs \<and> (case getLength chs of Inr n \<Rightarrow> greaterThanZero n | Inl _ \<Rightarrow> False)
             | Inl _ \<Rightarrow> False)
      then
        (case bindE (getProp resp (utf16 ''choices'')) (\<lambda>chs. getIndex chs 0) of
           Inl err \<Rightarrow> Inl err
         | Inr choice \<Rightarrow>
             (case (if truthy choice then
                      (case getProp choice (utf16 ''message'') of
                         Inr msg \<Rightarrow> if truthy msg then getProp msg (utf16 ''content'') else Inr Undefined
                       | Inl err \<Rightarrow> Inl err)
                    else Inr Undefined) of
                Inr (Str content) \<Rightarrow>
                  if length (paragraphs content) < 5
                  then Inl (new_Error (utf16 ''Generated content has less than 5 paragraphs''))
                  else Inr content
              | Inr v \<Rightarrow> Inl (new_Error (utf16 ''No valid message found in response''))
              | Inl err \<Rightarrow> Inl err))
      else Inl (new_Error (utf16 ''Unexpected response structure'')))"

text \<open>
  \<^verbatim>\<open>
  const describeImage = async (imageFilePath) => {
    try {
      const imageBuffer = fs.readFileSync(imageFilePath);
      const base64Image = imageBuffer.toString('base64');
      const response = await openai.chat.completions.create({ ... });
      ... (the checks above)
    } catch (error) {
      console.error('Error in describeImage:', error.message || error);
      throw error;
    }
  };
  \<close>
  The client library returns the body of the answer of the chat completion service.
\<close>

definition describeImage :: "env \<Rightarrow> jstring \<Rightarrow> world \<Rightarrow> (js_error + jstring) \<times> world" where
  "describeImage e imageFilePath w =
     (case (case readFileSync imageFilePath w of
              Inl err \<Rightarrow> (Inl err, w)
            | Inr _ \<Rightarrow>
                (case request e POST chat_completions_url w of
                   (Inl err, w1) \<Rightarrow> (Inl err, w1)
                 | (Inr resp, w1) \<Rightarrow> (checkDescription resp, w1))) of
        (Inl err, w2) \<Rightarrow>
          (Inl err, console_error [utf16 ''Error in describeImage:'', message_or_error err] w2)
      | (Inr content, w2) \<Rightarrow> (Inr content, w2))"

text \<open>
  \<^verbatim>\<open>
  app.post('/api/describe-image', upload.single('image'), async (req, res) => {
    if (!req.file) {
      return res.status(400).json({ error: 'No image uploaded' });
    }
    const imageFilePath = req.file.path;
    try {
      const description = await describeImage(imageFilePath);
      res.json({ description });
    } catch (error) {
      console.error('Error in describe-image:', error.message || error);
      res.status(500).json({ error: 'Internal Server Error' });
    } finally {
      fs.unlinkSync(imageFilePath); // Delete the temporary image file
    }
  });
  \<close>
  \<open>file\<close> is the path of the uploaded file, \<open>None\<close> when the request has none.
\<close>

definition finally_unlink :: "jstring \<Rightarrow> reply \<Rightarrow> world \<Rightarrow> outcome \<times> world" where
  "finally_unlink path r w =
     (case unlinkSync path w of
        (Inl err, w') \<Rightarrow> (\<lparr>sent = Some r, uncaught = Some err\<rparr>, w')
      | (Inr _, w') \<Rightarrow> (responded r, w'))"

definition describe_image_handler :: "env \<Rightarrow> jstring option \<Rightarrow> world \<Rightarrow> outcome \<times> world" where
  "describe_image_handler e file w =
     (case file of
        None \<Rightarrow> (responded (Json 400 (Obj [(utf16 ''error'', Str (utf16 ''No image uploaded''))])), w)
      | Some imageFilePath \<Rightarrow>
          (case describeImage e imageFilePath w of
             (Inr description, w1) \<Rightarrow>
               finally_unlink imageFilePath
                 (Json 200 (Obj [(utf16 ''description'', Str description)])) w1
           | (Inl err, w1) \<Rightarrow>
               finally_unlink imageFilePath
                 (Json 500 (Obj [(utf16 ''error'', Str (utf16 ''Internal Server Error''))]))
                 (console_error [utf16 ''Error in describe-image:'', message_or_error err] w1)))"

section \<open>Flipbook publisher\<close>

definition FLIPBOOK_API_URL :: jstring where
  "FLIPBOOK_API_URL = utf16 ''https://api-tc.is.flippingbook.com/api/v1/fbonline/publication/''"

text \<open>
  The polling loop of the two handlers:
  \<^verbatim>\<open>
  let flipbookUrl = null;
  let attempts = 0;
  while (!flipbookUrl && attempts < 10) {
    await new Promise(resolve => setTimeout(resolve, 5000));
    const statusResponse = await axios.get(`${FLIPBOOK_API_URL}${flipbookId}`, ...);
    console.log(`Attempt ${attempts + 1}: Flipbook status:`,
                statusResponse.data.publication.state);          // create-flipbook-from-url only
    if (statusResponse.data.publication && statusResponse.data.publication.state === 'Ready') {
      flipbookUrl = `https://online.flippingbook.com/view/${statusResponse.data.publication.hashId}/`;
      break;
    }
    attempts++;
  }
  \<close>
  \<open>fromUrl\<close> tells the loop of \<open>/api/create-flipbook-from-url\<close>, which logs the state
  before it tests that there is a publication, from the loop of
  \<open>/api/create-flipbook-from-pdf\<close>. \<open>flipbookUrl\<close> is still \<open>null\<close> whenever the
  condition of the loop is evaluated, so the loop runs while \<open>attempts < 10\<close>; its value
  is the URL, or \<open>None\<close> for \<open>null\<close>.
\<close>

definition publication_of :: "jsval \<Rightarrow> js_error + jsval" where
  "publication_of statusResponse =
     bindE (getProp statusResponse (utf16 ''data'')) (\<lambda>d. getProp d (utf16 ''publication''))"

definition view_url :: "jsval \<Rightarrow> jstring" where
  "view_url hashId = utf16 ''https://online.flippingbook.com/view/'' @ ToString hashId @ utf16 ''/''"

function pollFlipbook ::
    "env \<Rightarrow> bool \<Rightarrow> jsval \<Rightarrow> nat \<Rightarrow> world \<Rightarrow> (js_error + jstring option) \<times> world" where
  "pollFlipbook e fromUrl flipbookId attempts w =
     (if attempts < 10 then
        (case request e GET (FLIPBOOK_API_URL @ ToString flipbookId) (delay 5000 w) of
           (Inl err, w1) \<Rightarrow> (Inl err, w1)
         | (Inr statusResponse, w1) \<Rightarrow>
             (case (if fromUrl
                    then bindE (publication_of statusResponse) (\<lambda>p. getProp p (utf16 ''state''))
                    else Inr Undefined) of
                Inl err \<Rightarrow> (Inl err, w1)
              | Inr logged \<Rightarrow>
                  (let w2 = (if fromUrl
                             then console_log [utf16 ''Attempt '' @ dec_nat (attempts + 1) @
                                    utf16 '': Flipbook status:'', ToString logged] w1
                             else w1)
                   in case publication_of statusResponse of
                        Inl err \<Rightarrow> (Inl err, w2)
                      | Inr p \<Rightarrow>
                          if truthy p \<and> getProp p (utf16 ''state'') = Inr (Str (utf16 ''Ready''))
                          then (case getProp p (utf16 ''hashId'') of
                                  Inl err \<Rightarrow> (Inl err, w2)
                                | Inr hashId \<Rightarrow> (Inr (Some (view_url hashId)), w2))
                          else pollFlipbook e fromUrl flipbookId (attempts + 1) w2)))
      else (Inr None, w))"
  by pat_completeness auto
termination
  by (relation "measure (\<lambda>(e, fromUrl, flipbookId, attempts, w). 10 - attempts)") auto

declare pollFlipbook.simps [simp del]

text \<open>
  What a status response tells, for the statements about the polling: the state of its
  publication, when it has one (a response without \<open>data\<close> or without
  \<open>publication\<close> has none); whether it reports a state other than "Ready"; whether it
  reports "Ready" with a given \<open>hashId\<close>. \<open>pollNotReady e k\<close> says that the
  \<open>k\<close>-th request of the run is answered, with a state other than "Ready".
\<close>

definition poll_state :: "jsval \<Rightarrow> jsval option" where
  "poll_state statusResponse =
     (case bindE (publication_of statusResponse) (\<lambda>p. getProp p (utf16 ''state'')) of
        Inr st \<Rightarrow> Some st
      | Inl _ \<Rightarrow> None)"

definition notReady :: "jsval \<Rightarrow> bool" where
  "notReady statusResponse =
     (case poll_state statusResponse of Some st \<Rightarrow> st \<noteq> Str (utf16 ''Ready'') | None \<Rightarrow> False)"

definition readyWith :: "jsval \<Rightarrow> jsval \<Rightarrow> bool" where
  "readyWith statusResponse hashId =
     (poll_state statusResponse = Some (Str (utf16 ''Ready''))
      \<and> bindE (publication_of statusResponse) (\<lambda>p. getProp p (utf16 ''hashId'')) = Inr hashId)"

definition pollNotReady :: "env \<Rightarrow> nat \<Rightarrow> bool" where
  "pollNotReady e k = (case net e k of Inr statusResponse \<Rightarrow> notReady statusResponse | Inl _ \<Rightarrow> False)"

definition poll_events :: "jsval \<Rightarrow> nat \<Rightarrow> event list" where
  "poll_events flipbookId n =
     concat (replicate n [Sleep 5000, Http GET (FLIPBOOK_API_URL @ ToString flipbookId)])"

text \<open>
  After the upload, in both handlers:
  \<^verbatim>\<open>
  const createResponse = await axios.post(`${FLIPBOOK_API_URL}create`, formData, ...);
  console.log('FlippingBook API Response:', createResponse.data);
  if (createResponse.data && createResponse.data.id) {
    const flipbookId = createResponse.data.id;
    ... (the loop)
    if (flipbookUrl) {
      res.json({ success: true, flipbookUrl: flipbookUrl });
    } else {
      throw new Error('Flipbook processing timed out');
    }
  } else {
    throw new Error('Invalid or unexpected response from FlippingBook API');
  }
  \<close>
  The value is the URL to answer with, or the exception thrown; \<open>timed_out\<close> is the
  error thrown when the polling gives up.
\<close>

definition timed_out :: js_error where
  "timed_out = new_Error (utf16 ''Flipbook processing timed out'')"

definition submitFlipbook :: "env \<Rightarrow> bool \<Rightarrow> world \<Rightarrow> (js_error + jstring) \<times> world" where
  "submitFlipbook e fromUrl w =
     (case request e POST (FLIPBOOK_API_URL @ utf16 ''create'') w of
        (Inl err, w1) \<Rightarrow> (Inl err, w1)
      | (Inr createResponse, w1) \<Rightarrow>
          (case getProp createResponse (utf16 ''data'') of
             Inl err \<Rightarrow> (Inl err, w1)
           | Inr d \<Rightarrow>
               (let w2 = console_log [utf16 ''FlippingBook API Response:'', ToString d] w1
                in case and_then d (getProp d (utf16 ''id'')) of
                     Inl err \<Rightarrow> (Inl err, w2)
                   | Inr flipbookId \<Rightarrow>
                       if truthy flipbookId then
                         (case pollFlipbook e fromUrl flipbookId 0 w2 of
                            (Inl err, w3) \<Rightarrow> (Inl err, w3)
                          | (Inr (Some flipbookUrl), w3) \<Rightarrow> (Inr flipbookUrl, w3)
                          | (Inr None, w3) \<Rightarrow>
                              (Inl timed_out, w3))
                       else (Inl (new_Error
                               (utf16 ''Invalid or unexpected response from FlippingBook API'')), w2))))"

text \<open>
  The answers of the two handlers: on success, and in the \<open>catch\<close>
  \<^verbatim>\<open>
  console.error('Error creating flipbook:', error.message);
  if (error.response) {
    console.error('FlippingBook API error response:', error.response.data);
  }
  res.status(500).json({
    error: 'An error occurred while creating the flipbook',
    details: error.message,
    responseData: error.response ? error.response.data : null
  });
  \<close>
\<close>

definition flipbook_success :: "jstring \<Rightarrow> reply" where
  "flipbook_success flipbookUrl =
     Json 200 (Obj [(utf16 ''success'', Bool True), (utf16 ''flipbookUrl'', Str flipbookUrl)])"

definition response_data :: "js_error \<Rightarrow> jsval" where
  "response_data err =
     (case getProp (response err) (utf16 ''data'') of Inr d \<Rightarrow> d | Inl _ \<Rightarrow> Undefined)"

definition flipbook_failure :: "js_error \<Rightarrow> reply" where
  "flipbook_failure err =
     Json 500 (Obj [(utf16 ''error'', Str (utf16 ''An error occurred while creating the flipbook'')),
                    (utf16 ''details'', Str (message err)),
                    (utf16 ''responseData'',
                       if truthy (response err) then response_data err else Null)])"

definition flipbook_catch :: "js_error \<Rightarrow> world \<Rightarrow> world" where
  "flipbook_catch err w =
     (let w1 = console_error [utf16 ''Error creating flipbook:'', message err] w
      in if truthy (response err)
         then console_error [utf16 ''FlippingBook API error response:'', ToString (response_data err)] w1
         else w1)"

definition flipbook_reply :: "(js_error + jstring) \<times> world \<Rightarrow> reply \<times> world" where
  "flipbook_reply r =
     (case r of
        (Inr flipbookUrl, w) \<Rightarrow> (flipbook_success flipbookUrl, w)
      | (Inl err, w) \<Rightarrow> (flipbook_failure err, flipbook_catch err w))"

text \<open>
  \<^verbatim>\<open>
  app.post('/api/create-flipbook-from-pdf', upload.single('pdf'), async (req, res) => {
    if (!req.file) {
      return res.status(400).json({ error: 'No PDF file uploaded' });
    }
    try {
      const pdfPath = req.file.path;
      const pdfFileName = req.file.originalname;
      const pdfData = fs.readFileSync(pdfPath);
      const formData = new FormData();
      formData.append('file', new Blob([pdfData], { type: 'application/pdf' }), pdfFileName);
      ... (the upload, the loop and the answer)
    } catch (error) {
      ... (the answer 500)
    } finally {
      // Clean up the uploaded file
      if (req.file) {
        fs.unlinkSync(req.file.path);
      }
    }
  });
  \<close>
  Building the form is taken to succeed.
\<close>

definition create_flipbook_from_pdf :: "env \<Rightarrow> jstring option \<Rightarrow> world \<Rightarrow> outcome \<times> world" where
  "create_flipbook_from_pdf e file w =
     (case file of
        None \<Rightarrow> (responded (Json 400 (Obj [(utf16 ''error'', Str (utf16 ''No PDF file uploaded''))])), w)
      | Some pdfPath \<Rightarrow>
          (case flipbook_reply
                  (case readFileSync pdfPath w of
                     Inl err \<Rightarrow> (Inl err, w)
                   | Inr _ \<Rightarrow> submitFlipbook e False w) of
             (r, w1) \<Rightarrow> finally_unlink pdfPath r w1))"

text \<open>
  \<^verbatim>\<open>
  app.post('/api/create-flipbook-from-url', async (req, res) => {
    const { previewUrl } = req.body;
    if (!previewUrl) {
      return res.status(400).json({ error: 'Preview URL is required' });
    }
    try {
      console.log(`Attempting to download PDF from: ${previewUrl}`);
      const pdfResponse = await axios.get(previewUrl, { responseType: 'arraybuffer' });
      const pdfBuffer = Buffer.from(pdfResponse.data);
      // Save the PDF to a temporary file
      const tempFilePath = path.join(__dirname, 'temp', `temp-${Date.now()}.pdf`);
      fs.writeFileSync(tempFilePath, pdfBuffer);
      console.log(`Temporary PDF saved to: ${tempFilePath}`);
      const formData = new FormData();
      formData.append('file', fs.createReadStream(tempFilePath), { ... });
      console.log('Sending request to FlippingBook API...');
      ... (the upload, the loop and the answer)
    } catch (error) {
      ... (the answer 500)
    } finally {
      // Clean up the temporary file
      if (fs.existsSync(tempFilePath)) {
        fs.unlinkSync(tempFilePath);
      }
    }
  });
  \<close>
  \<open>tempFilePath\<close> is declared with \<open>const\<close> in the block of the \<open>try\<close>, and a
  \<open>const\<close> is visible in its block only. In the \<open>finally\<close> block the name is bound
  nowhere (the module has no variable of that name), so evaluating
  \<open>fs.existsSync(tempFilePath)\<close> throws a \<open>ReferenceError\<close> before anything is tested
  or deleted, on every path through the handler, after the answer has been sent.
  \<open>Buffer.from\<close> accepts a buffer, a string or an array and throws a \<open>TypeError\<close> on
  anything else.
\<close>

definition tempFilePath :: "env \<Rightarrow> jstring" where
  "tempFilePath e =
     path_join [dirname e, utf16 ''temp'', utf16 ''temp-'' @ Number_toString (now e) @ utf16 ''.pdf'']"

fun Buffer_from :: "jsval \<Rightarrow> js_error + unit" where
  "Buffer_from (Buf b) = Inr ()"
| "Buffer_from (Str s) = Inr ()"
| "Buffer_from (Arr xs) = Inr ()"
| "Buffer_from v =
     Inl (TypeError (utf16 ''The first argument must be of type string or an instance of Buffer, ArrayBuffer, or Array or an Array-like Object.''))"

definition flipbook_from_url_try :: "env \<Rightarrow> jsval \<Rightarrow> world \<Rightarrow> (js_error + jstring) \<times> world" where
  "flipbook_from_url_try e previewUrl w =
     (case request e GET (ToString previewUrl)
             (console_log [utf16 ''Attempting to download PDF from: '' @ ToString previewUrl] w) of
        (Inl err, w1) \<Rightarrow> (Inl err, w1)
      | (Inr pdfResponse, w1) \<Rightarrow>
          (case bindE (getProp pdfResponse (utf16 ''data'')) Buffer_from of
             Inl err \<Rightarrow> (Inl err, w1)
           | Inr _ \<Rightarrow>
               submitFlipbook e True
                 (console_log [utf16 ''Sending request to FlippingBook API...'']
                   (console_log [utf16 ''Temporary PDF saved to: '' @ tempFilePath e]
                     (writeFileSync e (tempFilePath e) w1)))))"

definition create_flipbook_from_url :: "env \<Rightarrow> jsval \<Rightarrow> world \<Rightarrow> outcome \<times> world" where
  "create_flipbook_from_url e previewUrl w =
     (if \<not> truthy previewUrl
      then (responded (Json 400 (Obj [(utf16 ''error'', Str (utf16 ''Preview URL is required''))])), w)
      else
        (case flipbook_reply (flipbook_from_url_try e previewUrl w) of
           (r, w1) \<Rightarrow>
             (\<lparr>sent = Some r,
               uncaught = Some (ReferenceError (utf16 ''tempFilePath is not defined''))\<rparr>, w1)))"

text \<open>
  \<open>created e k flipbookId\<close> says that the \<open>k\<close>-th request of the run, the upload,
  is answered with a job identifier; \<open>downloaded e k\<close> that the \<open>k\<close>-th request, the
  download of the preview, is answered with data a buffer can be made of.
\<close>

definition created :: "env \<Rightarrow> nat \<Rightarrow> jsval \<Rightarrow> bool" where
  "created e k flipbookId =
     (case net e k of
        Inr createResponse \<Rightarrow>
          (case getProp createResponse (utf16 ''data'') of
             Inr d \<Rightarrow> getProp d (utf16 ''id'') = Inr flipbookId \<and> truthy flipbookId
           | Inl _ \<Rightarrow> False)
      | Inl _ \<Rightarrow> False)"

definition downloaded :: "env \<Rightarrow> nat \<Rightarrow> bool" where
  "downloaded e k =
     (case net e k of
        Inr pdfResponse \<Rightarrow> bindE (getProp pdfResponse (utf16 ''data'')) Buffer_from = Inr ()
      | Inl _ \<Rightarrow> False)"

section \<open>Preview store\<close>

text \<open>
  The \<open>Map\<close> \<open>pdfPreviews\<close>: \<open>set\<close> replaces the value of a key that is present, in
  its place, and adds a new key at the end; \<open>get\<close> gives \<open>undefined\<close> for a key that
  is absent; \<open>delete\<close> removes the key.
  \<^verbatim>\<open>
  pdfPreviews.set(previewId, pdfPath);           // in /api/generate-pdf-preview

  app.get('/api/pdf-preview/:previewId', (req, res) => {
    const { previewId } = req.params;
    const pdfPath = pdfPreviews.get(previewId);
    if (!pdfPath) {
      return res.status(404).json({ error: 'PDF preview not found' });
    }
    res.sendFile(pdfPath);
  });
  \<close>
\<close>

definition previews_set :: "jstring \<Rightarrow> jstring \<Rightarrow> world \<Rightarrow> world" where
  "previews_set previewId pdfPath w =
     w\<lparr>pdfPreviews := AList.update previewId pdfPath (pdfPreviews w)\<rparr>"

definition preview_not_found :: reply where
  "preview_not_found = Json 404 (Obj [(utf16 ''error'', Str (utf16 ''PDF preview not found''))])"

definition pdf_preview_handler :: "jstring \<Rightarrow> world \<Rightarrow> outcome" where
  "pdf_preview_handler previewId w =
     (case map_of (pdfPreviews w) previewId of
        None \<Rightarrow> responded preview_not_found
      | Some pdfPath \<Rightarrow>
          if pdfPath = [] then responded preview_not_found else responded (SendFile pdfPath))"

text \<open>
  \<^verbatim>\<open>
  const cleanupPreviews = () => {
    const now = Date.now();
    pdfPreviews.forEach((path, id) => {
      if (now - fs.statSync(path).mtimeMs > 3600000) { // Remove after 1 hour
        fs.unlinkSync(path);
        pdfPreviews.delete(id);
      }
    });
  };
  \<close>
  \<open>forEach\<close> visits the entries in insertion order. The callback deletes no entry but
  the one it is visiting, so the entries visited are those the map had when the sweep
  began; \<open>sweep\<close> runs the callback over them. An exception of the callback ends the
  \<open>forEach\<close> and the sweep.
\<close>

fun sweep :: "int \<Rightarrow> (jstring \<times> jstring) list \<Rightarrow> world \<Rightarrow> (js_error + unit) \<times> world" where
  "sweep now_ms [] w = (Inr (), w)"
| "sweep now_ms ((previewId, path) # rest) w =
     (case statSync path w of
        Inl err \<Rightarrow> (Inl err, w)
      | Inr mtimeMs \<Rightarrow>
          if now_ms - mtimeMs > 3600000 then
            (case unlinkSync path w of
               (Inl err, w1) \<Rightarrow> (Inl err, w1)
             | (Inr _, w1) \<Rightarrow>
                 sweep now_ms rest (w1\<lparr>pdfPreviews := AList.delete previewId (pdfPreviews w1)\<rparr>))
          else sweep now_ms rest w)"

definition cleanupPreviews :: "env \<Rightarrow> world \<Rightarrow> (js_error + unit) \<times> world" where
  "cleanupPreviews e w = sweep (now e) (pdfPreviews w) w"

section \<open>Document assembler\<close>

text \<open>
  \<open>Object.keys\<close> of a value: the own property names of an object in insertion order
  (names that are array indices would come first; the assembler drops them with every
  other name that does not start with "chapter"), the indices of an array or a string.
  \<open>chapterKeys\<close> is
  \<^verbatim>\<open>
  Object.keys(storyData).filter(key => key.startsWith('chapter') && !key.endsWith('Name'))
  \<close>
  \<open>prop_of\<close> reads a property of a value that is not \<open>undefined\<close> or \<open>null\<close>;
  \<open>doc_text\<close> is the text \<open>doc.text\<close> prints for a value; \<open>split_paragraphs\<close> is
  \<open>chapterContent.split('\n\n')\<close>, which throws when the content is not a string.
\<close>

fun Object_keys :: "jsval \<Rightarrow> jstring list" where
  "Object_keys (Obj kvs) = map fst kvs"
| "Object_keys (Arr xs) = map dec_nat [0..<length xs]"
| "Object_keys (Str s) = map dec_nat [0..<length s]"
| "Object_keys (Buf b) = map dec_nat [0..<length b]"
| "Object_keys v = []"

definition chapterKeys :: "jsval \<Rightarrow> jstring list" where
  "chapterKeys storyData =
     filter (\<lambda>key. String_startsWith key (utf16 ''chapter'') \<and> \<not> String_endsWith key (utf16 ''Name''))
       (Object_keys storyData)"

definition prop_of :: "jsval \<Rightarrow> jstring \<Rightarrow> jsval" where
  "prop_of v k = (case getProp v k of Inr x \<Rightarrow> x | Inl _ \<Rightarrow> Undefined)"

definition doc_text :: "jsval \<Rightarrow> jstring" where
  "doc_text v = (if v = Undefined \<or> v = Null then [] else ToString v)"

fun split_paragraphs :: "jsval \<Rightarrow> js_error + jstring list" where
  "split_paragraphs (Str s) = Inr (String_split [0x0A, 0x0A] s)"
| "split_paragraphs Undefined = Inl (cannot_read Undefined (utf16 ''split''))"
| "split_paragraphs Null = Inl (cannot_read Null (utf16 ''split''))"
| "split_paragraphs v = Inl (TypeError (utf16 ''chapterContent.split is not a function''))"

definition chapter_title :: "nat \<Rightarrow> jsval \<Rightarrow> jstring" where
  "chapter_title i chapterName =
     utf16 ''Chapter '' @ dec_nat (i + 1) @ utf16 '': '' @ ToString chapterName"

text \<open>
  \<^verbatim>\<open>
  const downloadImageToBuffer = async (url) => {
    try {
      const response = await axios({ url, responseType: 'arraybuffer' });
      if (response.status !== 200) {
        throw new Error(`Failed to fetch image: ${response.statusText}`);
      }
      return Buffer.from(response.data, 'binary');
    } catch (error) {
      console.error('Error downloading image:', error.message || error);
      throw error;
    }
  };
  \<close>
\<close>

fun Buffer_from_binary :: "jsval \<Rightarrow> js_error + 8 word list" where
  "Buffer_from_binary (Buf b) = Inr b"
| "Buffer_from_binary (Str s) = Inr (map ucast s)"
| "Buffer_from_binary (Arr xs) = Inr (map (\<lambda>x. case x of Num n \<Rightarrow> of_int n | _ \<Rightarrow> 0) xs)"
| "Buffer_from_binary v =
     Inl (TypeError (utf16 ''The first argument must be of type string or an instance of Buffer, ArrayBuffer, or Array or an Array-like Object.''))"

definition downloadImageToBuffer :: "env \<Rightarrow> jsval \<Rightarrow> world \<Rightarrow> (js_error + 8 word list) \<times> world" where
  "downloadImageToBuffer e url w =
     (case (case request e GET (ToString url) w of
              (Inl err, w1) \<Rightarrow> (Inl err, w1)
            | (Inr resp, w1) \<Rightarrow>
                (bindE (getProp resp (utf16 ''status'')) (\<lambda>st.
                   if st \<noteq> Num 200
                   then Inl (new_Error (utf16 ''Failed to fetch image: '' @
                               ToString (prop_of resp (utf16 ''statusText''))))
                   else bindE (getProp resp (utf16 ''data'')) Buffer_from_binary), w1)) of
        (Inl err, w2) \<Rightarrow>
          (Inl err, console_error [utf16 ''Error downloading image:'', message_or_error err] w2)
      | (Inr buffer, w2) \<Rightarrow> (Inr buffer, w2))"

text \<open>\<open>doc.image\<close> throws on a buffer PDFKit cannot read.\<close>

definition doc_image :: "env \<Rightarrow> 8 word list \<Rightarrow> fit \<Rightarrow> js_error + doc_call list" where
  "doc_image e buffer box =
     (if pdf_image_ok e buffer then Inr [Image buffer box]
      else Inl (new_Error (utf16 ''Unknown image format.'')))"

text \<open>
  The loop over the chapters, \<open>for (let i = 0; i < chapterKeys.length; i++)\<close>, with the
  body of each handler: the calls of the iterations in order, or the exception that ends
  the loop.
\<close>

fun chapters_loop ::
    "(nat \<Rightarrow> jstring \<Rightarrow> world \<Rightarrow> (js_error + doc_call list) \<times> world) \<Rightarrow>
     nat \<Rightarrow> jstring list \<Rightarrow> world \<Rightarrow> (js_error + doc_call list) \<times> world" where
  "chapters_loop body i [] w = (Inr [], w)"
| "chapters_loop body i (key # keys) w =
     (case body i key w of
        (Inl err, w1) \<Rightarrow> (Inl err, w1)
      | (Inr calls1, w1) \<Rightarrow>
          (case chapters_loop body (Suc i) keys w1 of
             (Inl err, w2) \<Rightarrow> (Inl err, w2)
           | (Inr rest, w2) \<Rightarrow> (Inr (calls1 @ rest), w2)))"

definition page_break :: "nat \<Rightarrow> nat \<Rightarrow> doc_call list" where
  "page_break i n = (if i < n - 1 then [AddPage] else [])"

subsection \<open>Buffered download: /api/pdf\<close>

text \<open>
  \<^verbatim>\<open>
  app.post('/api/pdf', async (req, res) => {
    const { storyData, imageUrls, storyName } = req.body;
    if (!storyData) {
      return res.status(400).json({ error: 'Story content is required' });
    }
    const doc = new PDFDocument();
    ... (the buffers; on 'end' the answer 200 with the bytes)
    doc.fontSize(28).fillColor('red').text(storyName, { align: 'center' });
    doc.moveDown();
    const chapterKeys = ...;
    for (let i = 0; i < chapterKeys.length; i++) {
      const chapterKey = chapterKeys[i];
      const chapterNameKey = `${chapterKey}Name`;
      const chapterContent = storyData[chapterKey];
      const chapterName = storyData[chapterNameKey];
      doc.fontSize(20).fillColor('blue').text(`Chapter ${i + 1}: ${chapterName}`, { align: 'center' });
      doc.moveDown();
      if (imageUrls[i]) {
        const imageBuffer = await downloadImageToBuffer(imageUrls[i]);
        doc.image(imageBuffer, { fit: [500, 500], align: 'center', valign: 'center' });
        doc.moveDown();
      }
      const paragraphs = chapterContent.split('\n\n');
      paragraphs.forEach(paragraph => {
        doc.fontSize(12).fillColor('black').text(paragraph);
        doc.moveDown();
      });
      if (i < chapterKeys.length - 1) {
        doc.addPage();
      }
    }
    doc.end();
  });
  \<close>
  The handler has no \<open>try\<close>: an exception in the loop escapes it, and nothing is
  answered.
\<close>

definition pdf_chapter ::
    "env \<Rightarrow> jsval \<Rightarrow> jsval \<Rightarrow> nat \<Rightarrow> nat \<Rightarrow> jstring \<Rightarrow> world \<Rightarrow> (js_error + doc_call list) \<times> world" where
  "pdf_chapter e storyData imageUrls n i chapterKey w =
     (let chapterContent = prop_of storyData chapterKey;
          chapterName = prop_of storyData (chapterKey @ utf16 ''Name'');
          heading = [FontSize 20, FillColor ''blue'',
                     Text (chapter_title i chapterName) ''center'', MoveDown 1]
      in case getIndex imageUrls i of
           Inl err \<Rightarrow> (Inl err, w)
         | Inr imageUrl \<Rightarrow>
             (case (if truthy imageUrl then
                      (case downloadImageToBuffer e imageUrl w of
                         (Inl err, w1) \<Rightarrow> (Inl err, w1)
                       | (Inr imageBuffer, w1) \<Rightarrow>
                           (bindE (doc_image e imageBuffer (Fit 500 500))
                              (\<lambda>img. Inr (img @ [MoveDown 1])), w1))
                    else (Inr [], w)) of
                (Inl err, w1) \<Rightarrow> (Inl err, w1)
              | (Inr picture, w1) \<Rightarrow>
                  (case split_paragraphs chapterContent of
                     Inl err \<Rightarrow> (Inl err, w1)
                   | Inr ps \<Rightarrow>
                       (Inr (heading @ picture @
                             concat (map (\<lambda>p. [FontSize 12, FillColor ''black'', Text p [], MoveDown 1]) ps) @
                             page_break i n), w1))))"

definition pdf_handler :: "env \<Rightarrow> jsval \<Rightarrow> jsval \<Rightarrow> jsval \<Rightarrow> world \<Rightarrow> outcome \<times> world" where
  "pdf_handler e storyData imageUrls storyName w =
     (if \<not> truthy storyData
      then (responded (Json 400 (Obj [(utf16 ''error'', Str (utf16 ''Story content is required''))])), w)
      else
        (case chapters_loop
                (pdf_chapter e storyData imageUrls (length (chapterKeys storyData)))
                0 (chapterKeys storyData) w of
           (Inl err, w1) \<Rightarrow> (\<lparr>sent = None, uncaught = Some err\<rparr>, w1)
         | (Inr chapters, w1) \<Rightarrow>
             (responded (SendPdf ([FontSize 28, FillColor ''red'',
                                   Text (doc_text storyName) ''center'', MoveDown 1] @ chapters)), w1)))"

subsection \<open>Streamed download: /api/generate-pdf\<close>

text \<open>
  \<^verbatim>\<open>
  if (!storyData || !imageUrls) {
    return res.status(400).json({ error: 'Story content and images are required' });
  }
  try {
    ... (title: fontSize 24, Helvetica-Bold, #333333, centred; moveDown(2))
    for (let i = 0; i < chapterKeys.length; i++) {
      ...
      const imageUrl = imageUrls[i];
      doc.fontSize(18).font('Helvetica-Bold').fillColor('#0066cc')
         .text(`Chapter ${i + 1}: ${chapterName}`, { align: 'left' });
      doc.moveDown();
      doc.fontSize(12).font('Helvetica').fillColor('#000000');
      const paragraphs = chapterContent.split('\n\n');
      paragraphs.forEach(paragraph => {
        doc.text(paragraph, { align: 'justify', lineGap: 5 });
        doc.moveDown();
      });
      doc.addPage();
      if (imageUrl) {
        try {
          const imageBuffer = await downloadImageToBuffer(imageUrl);
          if (!imageBuffer || imageBuffer.length === 0) {
            throw new Error('Image buffer is empty');
          }
          const dimensions = sizeOf(imageBuffer);
          const imgWidth = 400;
          const imgHeight = (dimensions.height / dimensions.width) * imgWidth;
          doc.image(imageBuffer, { fit: [imgWidth, imgHeight], align: 'center', valign: 'center' });
          doc.moveDown();
        } catch (imgError) {
          console.error('Error adding image to PDF:', imgError.message || imgError);
          doc.fontSize(10).fillColor('#ff0000').text('Error loading image', { align: 'center' });
          doc.moveDown();
        }
      }
      if (i < chapterKeys.length - 1) {
        doc.addPage();
      }
    }
    doc.end();
    ... (the bytes are written to the response)
  } catch (error) {
    console.error('Error generating PDF:', error.message || error);
    res.status(500).json({ error: 'An error occurred while generating the PDF.' });
  }
  \<close>
  \<open>generate_pdf_image_try\<close> is the inner \<open>try\<close> block, \<open>generate_pdf_image\<close> the
  block with its \<open>catch\<close>; \<open>sizeOf\<close> gives the width and the height.
\<close>

definition heading_calls :: "nat \<Rightarrow> jsval \<Rightarrow> doc_call list" where
  "heading_calls i chapterName =
     [FontSize 18, Font ''Helvetica-Bold'', FillColor ''#0066cc'',
      Text (chapter_title i chapterName) ''left'', MoveDown 1]"

definition body_calls :: "jstring list \<Rightarrow> doc_call list" where
  "body_calls ps =
     [FontSize 12, Font ''Helvetica'', FillColor ''#000000''] @
     concat (map (\<lambda>p. [Text p ''justify'', MoveDown 1]) ps)"

definition image_placeholder :: "doc_call list" where
  "image_placeholder =
     [FontSize 10, FillColor ''#ff0000'', Text (utf16 ''Error loading image'') ''center'', MoveDown 1]"

definition generate_pdf_image_try :: "env \<Rightarrow> jsval \<Rightarrow> world \<Rightarrow> (js_error + doc_call list) \<times> world" where
  "generate_pdf_image_try e imageUrl w =
     (case downloadImageToBuffer e imageUrl w of
        (Inl err, w1) \<Rightarrow> (Inl err, w1)
      | (Inr imageBuffer, w1) \<Rightarrow>
          (if imageBuffer = [] then Inl (new_Error (utf16 ''Image buffer is empty''))
           else bindE (sizeOf e imageBuffer) (\<lambda>(width, height).
                bindE (doc_image e imageBuffer (FitRatio 400 height width))
                  (\<lambda>img. Inr (img @ [MoveDown 1]))), w1))"

definition generate_pdf_image :: "env \<Rightarrow> jsval \<Rightarrow> world \<Rightarrow> doc_call list \<times> world" where
  "generate_pdf_image e imageUrl w =
     (case generate_pdf_image_try e imageUrl w of
        (Inr picture, w1) \<Rightarrow> (picture, w1)
      | (Inl imgError, w1) \<Rightarrow>
          (image_placeholder,
           console_error [utf16 ''Error adding image to PDF:'', message_or_error imgError] w1))"

definition generate_pdf_chapter ::
    "env \<Rightarrow> jsval \<Rightarrow> jsval \<Rightarrow> nat \<Rightarrow> nat \<Rightarrow> jstring \<Rightarrow> world \<Rightarrow> (js_error + doc_call list) \<times> world" where
  "generate_pdf_chapter e storyData imageUrls n i chapterKey w =
     (let chapterContent = prop_of storyData chapterKey;
          chapterName = prop_of storyData (chapterKey @ utf16 ''Name'')
      in case getIndex imageUrls i of
           Inl err \<Rightarrow> (Inl err, w)
         | Inr imageUrl \<Rightarrow>
             (case split_paragraphs chapterContent of
                Inl err \<Rightarrow> (Inl err, w)
              | Inr ps \<Rightarrow>
                  (case (if truthy imageUrl then generate_pdf_image e imageUrl w else ([], w)) of
                     (picture, w1) \<Rightarrow>
                       (Inr (heading_calls i chapterName @ body_calls ps @ [AddPage] @ picture @
                             page_break i n), w1))))"

definition title_calls :: "jsval \<Rightarrow> doc_call list" where
  "title_calls storyName =
     [FontSize 24, Font ''Helvetica-Bold'', FillColor ''#333333'',
      Text (doc_text storyName) ''center'', MoveDown 2]"

definition generate_pdf_handler :: "env \<Rightarrow> jsval \<Rightarrow> jsval \<Rightarrow> jsval \<Rightarrow> world \<Rightarrow> outcome \<times> world" where
  "generate_pdf_handler e storyData imageUrls storyName w =
     (if \<not> truthy storyData \<or> \<not> truthy imageUrls
      then (responded (Json 400 (Obj [(utf16 ''error'',
                Str (utf16 ''Story content and images are required''))])), w)
      else
        (case chapters_loop
                (generate_pdf_chapter e storyData imageUrls (length (chapterKeys storyData)))
                0 (chapterKeys storyData) w of
           (Inl err, w1) \<Rightarrow>
             (responded (Json 500 (Obj [(utf16 ''error'',
                Str (utf16 ''An error occurred while generating the PDF.''))])),
              console_error [utf16 ''Error generating PDF:'', message_or_error err] w1)
         | (Inr chapters, w1) \<Rightarrow> (responded (SendPdf (title_calls storyName @ chapters)), w1)))"

subsection \<open>Preview: /api/generate-pdf-preview\<close>

text \<open>
  \<^verbatim>\<open>
  if (!storyData || !storyName) {
    return res.status(400).json({ error: 'Story content and name are required' });
  }
  try {
    const doc = new PDFDocument({ size: 'A4', margin: 50 });
    const previewId = uuidv4();
    const pdfPath = path.join(__dirname, 'pdf-previews', `${previewId}.pdf`);
    ... (the directory is made when missing; the title as in /api/generate-pdf)
    for (let i = 0; i < chapterKeys.length; i++) {
      ...
      const imageUrl = imageUrls[i];
      ... (the heading and the paragraphs as in /api/generate-pdf)
      if (imageUrl) {
        try {
          const imageBuffer = await downloadImageToBuffer(imageUrl);
          if (imageBuffer && imageBuffer.length > 0) {
            const dimensions = sizeOf(imageBuffer);
            const imgWidth = 400;
            const imgHeight = (dimensions.height / dimensions.width) * imgWidth;
            doc.image(imageBuffer, { fit: [imgWidth, imgHeight], align: 'center', valign: 'center' });
          }
        } catch (imgError) {
          console.error('Error adding image to PDF:', imgError.message || imgError);
        }
      }
      if (i < chapterKeys.length - 1) {
        doc.addPage();
      }
    }
    const writeStream = fs.createWriteStream(pdfPath);
    doc.pipe(writeStream);
    doc.end();
    writeStream.on('finish', () => {
      pdfPreviews.set(previewId, pdfPath);
      const previewUrl = `http://localhost:${port}/api/pdf-preview/${previewId}`;
      res.json({ previewId, previewUrl });
    });
  } catch (error) {
    console.error('Error generating PDF preview:', error);
    res.status(500).json({ error: 'An error occurred while generating the PDF preview.' });
  }
  \<close>
  \<open>previewId\<close> is the identifier \<open>uuidv4()\<close> returns, \<open>previewPdfPath\<close> the
  path \<open>pdfPath\<close> of the handler, and \<open>preview_document\<close> the document written to
  the file.
\<close>

definition preview_image_try :: "env \<Rightarrow> jsval \<Rightarrow> world \<Rightarrow> (js_error + doc_call list) \<times> world" where
  "preview_image_try e imageUrl w =
     (case downloadImageToBuffer e imageUrl w of
        (Inl err, w1) \<Rightarrow> (Inl err, w1)
      | (Inr imageBuffer, w1) \<Rightarrow>
          (if imageBuffer \<noteq> []
           then bindE (sizeOf e imageBuffer) (\<lambda>(width, height).
                  doc_image e imageBuffer (FitRatio 400 height width))
           else Inr [], w1))"

definition preview_image :: "env \<Rightarrow> jsval \<Rightarrow> world \<Rightarrow> doc_call list \<times> world" where
  "preview_image e imageUrl w =
     (case preview_image_try e imageUrl w of
        (Inr picture, w1) \<Rightarrow> (picture, w1)
      | (Inl imgError, w1) \<Rightarrow>
          ([], console_error [utf16 ''Error adding image to PDF:'', message_or_error imgError] w1))"

definition preview_chapter ::
    "env \<Rightarrow> jsval \<Rightarrow> jsval \<Rightarrow> nat \<Rightarrow> nat \<Rightarrow> jstring \<Rightarrow> world \<Rightarrow> (js_error + doc_call list) \<times> world" where
  "preview_chapter e storyData imageUrls n i chapterKey w =
     (let chapterContent = prop_of storyData chapterKey;
          chapterName = prop_of storyData (chapterKey @ utf16 ''Name'')
      in case getIndex imageUrls i of
           Inl err \<Rightarrow> (Inl err, w)
         | Inr imageUrl \<Rightarrow>
             (case split_paragraphs chapterContent of
                Inl err \<Rightarrow> (Inl err, w)
              | Inr ps \<Rightarrow>
                  (case (if truthy imageUrl then preview_image e imageUrl w else ([], w)) of
                     (picture, w1) \<Rightarrow>
                       (Inr (heading_calls i chapterName @ body_calls ps @ picture @
                             page_break i n), w1))))"

definition preview_document ::
    "env \<Rightarrow> jsval \<Rightarrow> jsval \<Rightarrow> jsval \<Rightarrow> world \<Rightarrow> (js_error + doc_call list) \<times> world" where
  "preview_document e storyData imageUrls storyName w =
     (case chapters_loop
             (preview_chapter e storyData imageUrls (length (chapterKeys storyData)))
             0 (chapterKeys storyData) w of
        (Inl err, w1) \<Rightarrow> (Inl err, w1)
      | (Inr chapters, w1) \<Rightarrow> (Inr (title_calls storyName @ chapters), w1))"

definition previewPdfPath :: "env \<Rightarrow> jstring \<Rightarrow> jstring" where
  "previewPdfPath e previewId =
     path_join [dirname e, utf16 ''pdf-previews'', previewId @ utf16 ''.pdf'']"

definition generate_pdf_preview_handler ::
    "env \<Rightarrow> jstring \<Rightarrow> jsval \<Rightarrow> jsval \<Rightarrow> jsval \<Rightarrow> world \<Rightarrow> outcome \<times> world" where
  "generate_pdf_preview_handler e previewId storyData imageUrls storyName w =
     (if \<not> truthy storyData \<or> \<not> truthy storyName
      then (responded (Json 400 (Obj [(utf16 ''error'',
                Str (utf16 ''Story content and name are required''))])), w)
      else
        (case preview_document e storyData imageUrls storyName w of
           (Inl err, w1) \<Rightarrow>
             (responded (Json 500 (Obj [(utf16 ''error'',
                Str (utf16 ''An error occurred while generating the PDF preview.''))])),
              console_error [utf16 ''Error generating PDF preview:'', message_or_error err] w1)
         | (Inr document, w1) \<Rightarrow>
             (responded (Json 200 (Obj [(utf16 ''previewId'', Str previewId),
                (utf16 ''previewUrl'',
                   Str (utf16 ''http://localhost:4000/api/pdf-preview/'' @ previewId))])),
              previews_set previewId (previewPdfPath e previewId)
                (writeFileSync e (previewPdfPath e previewId) w1))))"

subsection \<open>The documents, chapter by chapter\<close>

text \<open>
  For the statements about whole documents: the calls a document is expected to hold for
  its \<open>k\<close>-th chapter, written without the loop. \<open>image_url\<close> is \<open>imageUrls[k]\<close>;
  every chapter with an image URL makes one request, the download of its image, so the
  download of the \<open>k\<close>-th chapter is the request number \<open>downloads_before imageUrls k\<close>
  of the assembly; \<open>chapter_paragraphs\<close> are the pieces of the chapter's content. The
  section of a chapter in \<open>/api/generate-pdf\<close> is its heading, its paragraphs, a page
  break, what the image block draws for the outcome of that download, and the page break
  between chapters; in \<open>/api/generate-pdf-preview\<close> it is the same without the page
  break before the image.
\<close>

definition image_url :: "jsval \<Rightarrow> nat \<Rightarrow> jsval" where
  "image_url imageUrls k = (case getIndex imageUrls k of Inr u \<Rightarrow> u | Inl _ \<Rightarrow> Undefined)"

definition downloads_before :: "jsval \<Rightarrow> nat \<Rightarrow> nat" where
  "downloads_before imageUrls k = length (filter (\<lambda>j. truthy (image_url imageUrls j)) [0..<k])"

definition chapter_paragraphs :: "jsval \<Rightarrow> jstring \<Rightarrow> jstring list" where
  "chapter_paragraphs storyData chapterKey =
     (case split_paragraphs (prop_of storyData chapterKey) of Inr ps \<Rightarrow> ps | Inl _ \<Rightarrow> [])"

definition generate_pdf_section :: "env \<Rightarrow> jsval \<Rightarrow> jsval \<Rightarrow> world \<Rightarrow> nat \<Rightarrow> doc_call list" where
  "generate_pdf_section e storyData imageUrls w k =
     (let chapterKey = chapterKeys storyData ! k
      in heading_calls k (prop_of storyData (chapterKey @ utf16 ''Name'')) @
         body_calls (chapter_paragraphs storyData chapterKey) @ [AddPage] @
         (if truthy (image_url imageUrls k)
          then fst (generate_pdf_image e (image_url imageUrls k)
                 (w\<lparr>calls := calls w + downloads_before imageUrls k\<rparr>))
          else []) @
         page_break k (length (chapterKeys storyData)))"

definition preview_section :: "env \<Rightarrow> jsval \<Rightarrow> jsval \<Rightarrow> world \<Rightarrow> nat \<Rightarrow> doc_call list" where
  "preview_section e storyData imageUrls w k =
     (let chapterKey = chapterKeys storyData ! k
      in heading_calls k (prop_of storyData (chapterKey @ utf16 ''Name'')) @
         body_calls (chapter_paragraphs storyData chapterKey) @
         (if truthy (image_url imageUrls k)
          then fst (preview_image e (image_url imageUrls k)
                 (w\<lparr>calls := calls w + downloads_before imageUrls k\<rparr>))
          else []) @
         page_break k (length (chapterKeys storyData)))"

section \<open>Example worlds and environments\<close>

text \<open>
  The world before anything happened; the error axios rejects with when a request is
  answered with a status outside 2xx; an environment with given outcomes of the requests,
  whose \<open>JSON.parse\<close> accepts the empty object \<open>{}\<close> and rejects everything else (as
  the built-in does on the inputs used below), and whose images all decode; and the
  response of the chat completion service whose first choice has a given content.
\<close>

definition world0 :: world where
  "world0 = \<lparr>calls = 0, trace = [], console = [], files = Map.empty, pdfPreviews = []\<rparr>"

definition axios_error :: "int \<Rightarrow> js_error" where
  "axios_error st =
     \<lparr>ename = ''AxiosError'',
      message = utf16 ''Request failed with status code '' @ Number_toString st,
      response = Obj [(utf16 ''status'', Num st), (utf16 ''data'', Null)]\<rparr>"

definition env_of :: "(nat \<Rightarrow> js_error + jsval) \<Rightarrow> env" where
  "env_of outcomes =
     \<lparr>net = outcomes,
      JSON_parse = (\<lambda>s. if s = utf16 ''{}'' then Some (Obj []) else None),
      sizeOf = (\<lambda>b. Inr (1, 1)),
      pdf_image_ok = (\<lambda>b. True),
      now = 0,
      dirname = utf16 ''/app''\<rparr>"

definition chat_response :: "jsval \<Rightarrow> jsval" where
  "chat_response content =
     Obj [(utf16 ''status'', Num 200),
          (utf16 ''data'', Obj [(utf16 ''choices'',
             Arr [Obj [(utf16 ''message'', Obj [(utf16 ''content'', content)])]])])]"


definition world_with_file :: "jstring \<Rightarrow> int \<Rightarrow> world" where
  "world_with_file path mtimeMs = world0\<lparr>files := [path \<mapsto> mtimeMs]\<rparr>"



text \<open>
  Answers of the flipbook service: to the upload, with a job identifier; to a status
  request, with a publication in a given state and with a given \<open>hashId\<close>; and the
  answer to the download of a preview.
\<close>

definition create_response :: "jsval \<Rightarrow> jsval" where
  "create_response flipbookId = Obj [(utf16 ''data'', Obj [(utf16 ''id'', flipbookId)])]"

definition status_response :: "string \<Rightarrow> string \<Rightarrow> jsval" where
  "status_response st hashId =
     Obj [(utf16 ''data'', Obj [(utf16 ''publication'',
        Obj [(utf16 ''state'', Str (utf16 st)), (utf16 ''hashId'', Str (utf16 hashId))])])]"

definition pdf_response :: jsval where
  "pdf_response = Obj [(utf16 ''status'', Num 200), (utf16 ''data'', Buf [0x25, 0x50, 0x44, 0x46])]"

text \<open>
  A store of two previews, the first without its file, the second with an old file; a
  store of one preview; an environment at a given time.
\<close>

definition preview_a :: jstring where
  "preview_a = utf16 ''/app/pdf-previews/a.pdf''"

definition preview_b :: jstring where
  "preview_b = utf16 ''/app/pdf-previews/b.pdf''"

definition store_missing_a :: world where
  "store_missing_a =
     world0\<lparr>files := [preview_b \<mapsto> 0],
            pdfPreviews := [(utf16 ''a'', preview_a), (utf16 ''b'', preview_b)]\<rparr>"

definition store_b :: world where
  "store_b = world0\<lparr>files := [preview_b \<mapsto> 0], pdfPreviews := [(utf16 ''b'', preview_b)]\<rparr>"

definition env_at :: "int \<Rightarrow> env" where
  "env_at t = (env_of (\<lambda>k. Inr Undefined))\<lparr>now := t\<rparr>"

text \<open>
  A story of one chapter, of two paragraphs, with the URL of its image; the answer to the
  download of an image of two bytes.
\<close>

definition story_one :: jsval where
  "story_one =
     Obj [(utf16 ''chapter1'', Str (utf16 ''Once.'' @ [0x0A, 0x0A] @ utf16 ''End.'')),
          (utf16 ''chapter1Name'', Str (utf16 ''Start''))]"

definition image_one :: jsval where
  "image_one = Arr [Str (utf16 ''http://img/1'')]"

definition image_response :: jsval where
  "image_response = Obj [(utf16 ''status'', Num 200), (utf16 ''data'', Buf [0xFF, 0xD8])]"

text \<open>
  A store whose one preview, \<open>a\<close>, has lost its file, beside the file of a preview not
  yet registered.
\<close>

definition store_lost_a :: world where
  "store_lost_a =
     world0\<lparr>files := [preview_b \<mapsto> 0], pdfPreviews := [(utf16 ''a'', preview_a)]\<rparr>"

text \<open>
  A story of two chapters, of one paragraph each, with the URLs of their images; an
  environment whose first request is answered 404 and whose later requests are answered
  with the image.
\<close>

definition story_two :: jsval where
  "story_two =
     Obj [(utf16 ''chapter1'', Str (utf16 ''Once.'')),
          (utf16 ''chapter1Name'', Str (utf16 ''Start'')),
          (utf16 ''chapter2'', Str (utf16 ''Then.'')),
          (utf16 ''chapter2Name'', Str (utf16 ''Close''))]"

definition image_two :: jsval where
  "image_two = Arr [Str (utf16 ''http://img/1''), Str (utf16 ''http://img/2'')]"

definition first_image_lost :: env where
  "first_image_lost = env_of (\<lambda>k. if k = 0 then Inl (axios_error 404) else Inr image_response)"

text \<open>
  A store of three previews, the first two with old files, the third without its file.
\<close>

definition preview_c :: jstring where
  "preview_c = utf16 ''/app/pdf-previews/c.pdf''"

definition store_lost_c :: world where
  "store_lost_c =
     world0\<lparr>files := [preview_a \<mapsto> 0, preview_b \<mapsto> 0],
            pdfPreviews := [(utf16 ''a'', preview_a), (utf16 ''b'', preview_b),
                            (utf16 ''c'', preview_c)]\<rparr>"

section \<open>Properties of the string functions\<close>

lemma String_split_from_not_Nil: "String_split_from sep cur s \<noteq> []"
  by (induction sep cur s rule: String_split_from.induct) auto

lemma Array_join_Cons: "ys \<noteq> [] \<Longrightarrow> Array_join sep (x # ys) = x @ sep @ Array_join sep ys"
  by (cases ys) auto

text \<open>Joining the pieces of a split with the separator gives the string back.\<close>

lemma join_split_from:
  "sep \<noteq> [] \<Longrightarrow> Array_join sep (String_split_from sep cur s) = cur @ s"
proof (induction sep cur s rule: String_split_from.induct)
  case (1 sep cur)
  then show ?case by simp
next
  case (2 sep cur c cs)
  show ?case
  proof (cases "take (length sep) (c # cs) = sep")
    case True
    then have whole: "sep @ drop (length sep) (c # cs) = c # cs"
      by (metis append_take_drop_id)
    have "Array_join sep (String_split_from sep cur (c # cs)) =
        cur @ sep @ Array_join sep (String_split_from sep [] (drop (length sep) (c # cs)))"
      using True "2.prems" by (simp add: Array_join_Cons String_split_from_not_Nil)
    also have "\<dots> = cur @ sep @ drop (length sep) (c # cs)"
      using "2.IH"(1) True "2.prems" by simp
    finally show ?thesis using whole by simp
  next
    case False
    then show ?thesis using 2 by simp
  qed
qed

lemma join_split: "sep \<noteq> [] \<Longrightarrow> Array_join sep (String_split sep s) = s"
  by (simp add: String_split_def join_split_from)

text \<open>With a separator of one code unit, no piece contains the separator.\<close>

lemma split_from_unit_free:
  "d \<notin> set cur \<Longrightarrow> d \<notin> set (concat (String_split_from [d] cur s))"
proof (induction s arbitrary: cur)
  case Nil
  then show ?case by simp
next
  case (Cons c cs)
  show ?case
  proof (cases "c = d")
    case True
    have "d \<notin> set (concat (String_split_from [d] [] cs))"
      using Cons.IH [of "[]"] by simp
    with True Cons.prems show ?thesis by simp
  next
    case False
    with Cons.prems have "d \<notin> set (cur @ [c])" by simp
    from Cons.IH [OF this] False show ?thesis by simp
  qed
qed

lemma split_from_unit_length:
  "length (String_split_from [d] cur s) = Suc (count_list s d)"
  by (induction s arbitrary: cur) auto

section \<open>Story namer: properties\<close>

text \<open>
  Claim C6, as the code has it. \<open>generateStoryName\<close> is a function of its argument
  alone. It cuts the summary at every single space U+0020 (joining the pieces with a
  space gives the summary back, no piece contains a space, and there is one piece more
  than there are spaces: two spaces in a row give an empty piece, and a tab or a line
  feed separates nothing), drops the pieces that are stop words whatever their case,
  keeps the first three pieces left, fewer when there are fewer, and joins them with
  spaces. The empty summary gives the empty name, and "The quick brown fox is fast"
  gives "quick brown fox".
\<close>

theorem generateStoryName_single_space_tokens:
  "generateStoryName summary =
     Array_join (utf16 '' '')
       (take 3 (filter (\<lambda>word. String_toLowerCase word \<notin> set stopwords)
          (String_split (utf16 '' '') summary)))
   \<and> Array_join (utf16 '' '') (String_split (utf16 '' '') summary) = summary
   \<and> 0x20 \<notin> set (concat (String_split (utf16 '' '') summary))
   \<and> length (String_split (utf16 '' '') summary) = Suc (count_list summary 0x20)
   \<and> generateStoryName [] = []
   \<and> generateStoryName (utf16 ''The quick brown fox is fast'') = utf16 ''quick brown fox''"
proof (intro conjI)
  have sp: "utf16 '' '' = [0x20]" by (simp add: utf16_def)
  show "generateStoryName summary =
     Array_join (utf16 '' '')
       (take 3 (filter (\<lambda>word. String_toLowerCase word \<notin> set stopwords)
          (String_split (utf16 '' '') summary)))"
    by (simp add: generateStoryName_def Let_def min_def)
  show "Array_join (utf16 '' '') (String_split (utf16 '' '') summary) = summary"
    by (simp add: sp join_split)
  show "0x20 \<notin> set (concat (String_split (utf16 '' '') summary))"
    unfolding sp String_split_def using split_from_unit_free [of "0x20" "[]" summary] by simp
  show "length (String_split (utf16 '' '') summary) = Suc (count_list summary 0x20)"
    unfolding sp String_split_def by (simp add: split_from_unit_length)
  show "generateStoryName [] = []"
    by (simp add: generateStoryName_def String_split_def utf16_def stopwords_def
        String_toLowerCase_def)
  show "generateStoryName (utf16 ''The quick brown fox is fast'') = utf16 ''quick brown fox''"
    by (simp add: generateStoryName_def String_split_def utf16_def stopwords_def
        String_toLowerCase_def toLowerCase_unit_def)
qed

text \<open>
  Claim C6, as the specification states it, fails: the code does not tokenize on white
  space. On "quick<TAB>brown fox jumps high" the tab separates nothing, and the name is
  "quick<TAB>brown fox jumps" where tokenizing on white space gives "quick brown fox";
  on "The  quick brown fox", with two spaces, the empty piece between them is kept and
  counted, and the name is " quick brown".
\<close>

theorem generateStoryName_whitespace_counterexample:
  "generateStoryName (utf16 ''quick'' @ [0x09] @ utf16 ''brown fox jumps high'')
     = utf16 ''quick'' @ [0x09] @ utf16 ''brown fox jumps''
   \<and> generateStoryName_spec (utf16 ''quick'' @ [0x09] @ utf16 ''brown fox jumps high'')
     = utf16 ''quick brown fox''
   \<and> generateStoryName (utf16 ''The  quick brown fox'') = utf16 '' quick brown''
   \<and> generateStoryName_spec (utf16 ''The  quick brown fox'') = utf16 ''quick brown fox''"
  by (simp add: generateStoryName_def generateStoryName_spec_def String_split_def utf16_def
      stopwords_def String_toLowerCase_def toLowerCase_unit_def isWhiteSpace_def)

section \<open>Effects: basic facts\<close>

lemma request_calls [simp]: "calls (snd (request e m url w)) = Suc (calls w)"
  by (simp add: request_def)

lemma request_trace [simp]: "trace (snd (request e m url w)) = trace w @ [Http m url]"
  by (simp add: request_def)

lemma request_fst [simp]: "fst (request e m url w) = net e (calls w)"
  by (simp add: request_def)

lemma delay_calls [simp]: "calls (delay ms w) = calls w"
  by (simp add: delay_def)

lemma console_calls [simp]:
  "calls (console_log a w) = calls w" "calls (console_error a w) = calls w"
  by (simp_all add: console_log_def console_error_def)

lemma console_trace [simp]:
  "trace (console_log a w) = trace w" "trace (console_error a w) = trace w"
  by (simp_all add: console_log_def console_error_def)

section \<open>Retry helper and text generation client: properties\<close>

lemma retry_from_calls:
  "calls (snd (makeRequestWithRetry_from e url maxRetries i w)) \<le> calls w + nat (maxRetries - int i)"
proof (induction e url maxRetries i w rule: makeRequestWithRetry_from.induct)
  case (1 e url maxRetries i w)
  show ?case
  proof (cases "int i < maxRetries")
    case False
    then show ?thesis by (simp add: makeRequestWithRetry_from.simps)
  next
    case True
    obtain r w' where rq: "request e POST url w = (r, w')" by (cases "request e POST url w")
    then have c: "calls w' = Suc (calls w)" using request_calls [of e POST url w] by simp
    show ?thesis
    proof (cases r)
      case (Inr resp)
      with True rq c show ?thesis by (simp add: makeRequestWithRetry_from.simps)
    next
      case (Inl err)
      show ?thesis
      proof (cases "int i = maxRetries - 1")
        case True
        with \<open>int i < maxRetries\<close> rq c Inl show ?thesis
          by (simp add: makeRequestWithRetry_from.simps)
      next
        case False
        from "1.IH" [OF True rq [symmetric] Inl False]
        have "calls (snd (makeRequestWithRetry_from e url maxRetries (i + 1) (delay (1000 * 2 ^ i) w')))
            \<le> calls w' + nat (maxRetries - int (i + 1))" by simp
        with True False rq c Inl show ?thesis
          by (simp add: makeRequestWithRetry_from.simps [of e url maxRetries i w])
      qed
    qed
  qed
qed

lemma retry_from_exhausted:
  "int i < maxRetries \<Longrightarrow> \<forall>j < nat (maxRetries - int i). isl (net e (calls w + j)) \<Longrightarrow>
   fst (makeRequestWithRetry_from e url maxRetries i w) = net e (calls w + nat (maxRetries - int i) - 1)"
proof (induction e url maxRetries i w rule: makeRequestWithRetry_from.induct)
  case (1 e url maxRetries i w)
  obtain r w' where rq: "request e POST url w = (r, w')" by (cases "request e POST url w")
  then have c: "calls w' = Suc (calls w)" and r: "r = net e (calls w)"
    using request_calls [of e POST url w] request_fst [of e POST url w] by simp_all
  from "1.prems"(1) have "0 < nat (maxRetries - int i)" by simp
  with "1.prems"(2) have "isl (net e (calls w + 0))" by blast
  with r have "isl r" by simp
  then obtain err where Inl: "r = Inl err" by (cases r) auto
  show ?case
  proof (cases "int i = maxRetries - 1")
    case True
    with "1.prems" rq Inl r show ?thesis
      by (simp add: makeRequestWithRetry_from.simps [of e url maxRetries i w])
  next
    case False
    with "1.prems" have lt: "int (i + 1) < maxRetries" by simp
    have all: "\<forall>j < nat (maxRetries - int (i + 1)). isl (net e (calls (delay (1000 * 2 ^ i) w') + j))"
    proof (intro allI impI)
      fix j assume "j < nat (maxRetries - int (i + 1))"
      then have "Suc j < nat (maxRetries - int i)" by simp
      with "1.prems" have "isl (net e (calls w + Suc j))" by blast
      then show "isl (net e (calls (delay (1000 * 2 ^ i) w') + j))" using c by simp
    qed
    from "1.IH" [OF "1.prems"(1) rq [symmetric] Inl False lt all]
    have "fst (makeRequestWithRetry_from e url maxRetries (i + 1) (delay (1000 * 2 ^ i) w')) =
        net e (calls (delay (1000 * 2 ^ i) w') + nat (maxRetries - int (i + 1)) - 1)" .
    moreover have "calls (delay (1000 * 2 ^ i) w') + nat (maxRetries - int (i + 1)) - 1
        = calls w + nat (maxRetries - int i) - 1" using c lt by simp
    ultimately show ?thesis using "1.prems" False rq Inl
      by (simp add: makeRequestWithRetry_from.simps [of e url maxRetries i w])
  qed
qed

lemma retry_any_failure_then_success:
  assumes "net e (calls w) = Inl err" and "net e (Suc (calls w)) = Inr resp" and "1 < maxRetries"
  shows "makeRequestWithRetry e url maxRetries w =
    (Inr resp, w\<lparr>calls := calls w + 2, trace := trace w @ [Http POST url, Sleep 1000, Http POST url]\<rparr>)"
proof -
  let ?w1 = "w\<lparr>calls := Suc (calls w), trace := trace w @ [Http POST url]\<rparr>"
  have first: "makeRequestWithRetry_from e url maxRetries 0 w =
      makeRequestWithRetry_from e url maxRetries 1 (delay 1000 ?w1)"
    using assms by (subst makeRequestWithRetry_from.simps) (simp add: request_def)
  have second: "makeRequestWithRetry_from e url maxRetries 1 (delay 1000 ?w1) =
      (Inr resp, w\<lparr>calls := calls w + 2, trace := trace w @ [Http POST url, Sleep 1000, Http POST url]\<rparr>)"
    using assms
    by (subst makeRequestWithRetry_from.simps) (simp add: request_def delay_def)
  show ?thesis unfolding makeRequestWithRetry_def first second ..
qed

lemma chatAttempt_calls: "calls (snd (chatAttempt e w)) = Suc (calls w)"
  by (simp add: chatAttempt_def request_def split: sum.splits option.splits)

lemma chatAttempt_trace: "trace (snd (chatAttempt e w)) = trace w @ [Http POST chat_completions_url]"
  by (simp add: chatAttempt_def request_def split: sum.splits option.splits)

lemma makeChatRequest_calls:
  "calls (snd (makeChatRequest e retries w)) \<le> calls w + Suc (MAX_RETRIES - retries)"
proof (induction e retries w rule: makeChatRequest.induct)
  case (1 e retries w)
  obtain r w1 where at: "chatAttempt e w = (r, w1)" by (cases "chatAttempt e w")
  then have c: "calls w1 = Suc (calls w)" using chatAttempt_calls [of e w] by simp
  show ?case
  proof (cases r)
    case (Inr sd)
    with at c show ?thesis by (simp add: makeChatRequest.simps [of e retries w])
  next
    case (Inl err)
    show ?thesis
    proof (cases "rateLimited err \<and> retries < MAX_RETRIES")
      case True
      let ?w2 = "delay ((retries + 1) * 1000)
                (console_log [utf16 ''Rate limited. Retrying in '' @
                    dec_nat ((retries + 1) * 1000) @ utf16 '' ms...''] w1)"
      have step: "makeChatRequest e retries w = makeChatRequest e (retries + 1) ?w2"
        using at Inl True by (simp add: makeChatRequest.simps [of e retries w])
      from "1.IH" [OF at [symmetric] Inl True]
      have "calls (snd (makeChatRequest e (retries + 1) ?w2))
          \<le> calls ?w2 + Suc (MAX_RETRIES - (retries + 1))" .
      moreover have "calls ?w2 = Suc (calls w)" using c by simp
      moreover have "Suc (MAX_RETRIES - (retries + 1)) = MAX_RETRIES - retries"
        using True by arith
      ultimately show ?thesis unfolding step by simp
    next
      case False
      then have "makeChatRequest e retries w =
          (Inl err, console_error [utf16 ''Error in makeChatRequest:'', message_or_error err] w1)"
        using at Inl by (subst makeChatRequest.simps) (simp only: prod.case sum.case if_False)
      with c show ?thesis by simp
    qed
  qed
qed

text \<open>A failure that is not a rate limit ends \<open>makeChatRequest\<close> at once, with that error.\<close>

lemma makeChatRequest_fail_fast:
  assumes "chatAttempt e w = (Inl err, w1)" and "\<not> rateLimited err"
  shows "makeChatRequest e retries w =
    (Inl err, console_error [utf16 ''Error in makeChatRequest:'', message_or_error err] w1)"
  using assms by (subst makeChatRequest.simps) simp

lemma makeChatRequest_success:
  assumes "chatAttempt e w = (Inr storyData, w1)"
  shows "makeChatRequest e retries w = (Inr storyData, w1)"
  using assms by (subst makeChatRequest.simps) simp

text \<open>
  Claim C1, as the code has it. \<open>makeRequestWithRetry\<close> with the maximum attempt
  count \<open>maxRetries\<close> makes at most \<open>maxRetries\<close> requests. It retries after a
  failure of any kind, a rate limit or not: when the first request fails, with whatever
  error, and the second succeeds, it waits one second, makes the second request and
  returns its response. When all its requests fail, the error of the last one is what it
  throws. \<open>makeChatRequest\<close>, entered with \<open>retries\<close> retries behind it, makes at
  most \<open>MAX_RETRIES - retries + 1\<close> requests (six from the start: \<open>MAX_RETRIES\<close>
  bounds the retries, not the attempts), and a failed attempt whose error is not a 429
  rate limit ends it with that very error after this one request, with no wait and no
  retry.
\<close>

theorem retry_attempts_and_failures:
  "calls (snd (makeRequestWithRetry e url maxRetries w)) \<le> calls w + nat maxRetries
   \<and> (net e (calls w) = Inl err \<and> net e (Suc (calls w)) = Inr resp \<and> 1 < maxRetries \<longrightarrow>
        makeRequestWithRetry e url maxRetries w =
          (Inr resp, w\<lparr>calls := calls w + 2,
                       trace := trace w @ [Http POST url, Sleep 1000, Http POST url]\<rparr>))
   \<and> (0 < maxRetries \<and> (\<forall>j < nat maxRetries. isl (net e (calls w + j))) \<longrightarrow>
        fst (makeRequestWithRetry e url maxRetries w) = net e (calls w + nat maxRetries - 1))
   \<and> calls (snd (makeChatRequest e retries w)) \<le> calls w + Suc (MAX_RETRIES - retries)
   \<and> (fst (chatAttempt e w) = Inl err' \<and> \<not> rateLimited err' \<longrightarrow>
        fst (makeChatRequest e retries w) = Inl err'
        \<and> calls (snd (makeChatRequest e retries w)) = Suc (calls w)
        \<and> trace (snd (makeChatRequest e retries w)) = trace w @ [Http POST chat_completions_url])"
proof (intro conjI impI)
  show "calls (snd (makeRequestWithRetry e url maxRetries w)) \<le> calls w + nat maxRetries"
    unfolding makeRequestWithRetry_def using retry_from_calls [of e url maxRetries 0 w] by simp
  show "calls (snd (makeChatRequest e retries w)) \<le> calls w + Suc (MAX_RETRIES - retries)"
    by (rule makeChatRequest_calls)
next
  assume "net e (calls w) = Inl err \<and> net e (Suc (calls w)) = Inr resp \<and> 1 < maxRetries"
  then show "makeRequestWithRetry e url maxRetries w =
      (Inr resp, w\<lparr>calls := calls w + 2,
                   trace := trace w @ [Http POST url, Sleep 1000, Http POST url]\<rparr>)"
    by (simp add: retry_any_failure_then_success)
next
  assume "0 < maxRetries \<and> (\<forall>j < nat maxRetries. isl (net e (calls w + j)))"
  then show "fst (makeRequestWithRetry e url maxRetries w) = net e (calls w + nat maxRetries - 1)"
    unfolding makeRequestWithRetry_def using retry_from_exhausted [of 0 maxRetries e w url] by simp
next
  assume a: "fst (chatAttempt e w) = Inl err' \<and> \<not> rateLimited err'"
  then have at: "chatAttempt e w = (Inl err', snd (chatAttempt e w))"
    by (metis prod.collapse)
  note ff = makeChatRequest_fail_fast [OF at, of retries] 
  from a ff show "fst (makeChatRequest e retries w) = Inl err'" by simp
  from a ff show "calls (snd (makeChatRequest e retries w)) = Suc (calls w)"
    by (simp add: chatAttempt_calls)
  from a ff show "trace (snd (makeChatRequest e retries w)) = trace w @ [Http POST chat_completions_url]"
    by (simp add: chatAttempt_trace)
qed

text \<open>
  Witness for C1: a 500 followed by a success under three attempts; three failures in a
  row under three attempts, where the third error comes out; and a 500 on the chat
  request, which comes out after one request.
\<close>

theorem retry_attempts_and_failures_witness:
  "makeRequestWithRetry (env_of (\<lambda>k. if k = 0 then Inl (axios_error 500) else Inr (Obj []))) [] 3 world0 =
     (Inr (Obj []), world0\<lparr>calls := 2, trace := [Http POST [], Sleep 1000, Http POST []]\<rparr>)
   \<and> fst (makeRequestWithRetry (env_of (\<lambda>k. Inl (axios_error (500 + int k)))) [] 3 world0) = Inl (axios_error 502)
   \<and> fst (makeChatRequest (env_of (\<lambda>k. Inl (axios_error 500))) 0 world0) = Inl (axios_error 500)
   \<and> calls (snd (makeChatRequest (env_of (\<lambda>k. Inl (axios_error 500))) 0 world0)) = 1"
  using retry_attempts_and_failures [of "env_of (\<lambda>k. if k = 0 then Inl (axios_error 500) else Inr (Obj []))"
      "[]" 3 world0 "axios_error 500" "Obj []" 0 "axios_error 500"]
    retry_attempts_and_failures [of "env_of (\<lambda>k. Inl (axios_error (500 + int k)))"
      "[]" 3 world0 "axios_error 500" "Obj []" 0 "axios_error 500"]
    retry_attempts_and_failures [of "env_of (\<lambda>k. Inl (axios_error 500))"
      "[]" 3 world0 "axios_error 500" "Obj []" 0 "axios_error 500"]
  by (simp add: env_of_def world0_def chatAttempt_def request_def rateLimited_def axios_error_def utf16_def)

text \<open>
  Claim C1, as the specification states it, fails twice. \<open>makeRequestWithRetry\<close>
  retries a failure that is not a 429: after a 500 it waits and asks again. And
  \<open>makeChatRequest\<close>, bounded by \<open>MAX_RETRIES = 5\<close>, makes six requests when every
  answer is a 429.
\<close>

theorem retry_claim_counterexample:
  "makeRequestWithRetry (env_of (\<lambda>k. if k = 0 then Inl (axios_error 500) else Inr (Obj []))) [] 3 world0 =
     (Inr (Obj []), world0\<lparr>calls := 2, trace := [Http POST [], Sleep 1000, Http POST []]\<rparr>)
   \<and> \<not> rateLimited (axios_error 500)
   \<and> MAX_RETRIES = 5
   \<and> calls (snd (makeChatRequest (env_of (\<lambda>k. Inl (axios_error 429))) 0 world0)) = 6"
  by (simp add: makeRequestWithRetry_def makeRequestWithRetry_from.simps makeChatRequest.simps
      chatAttempt_def request_def delay_def console_log_def console_error_def rateLimited_def
      env_of_def world0_def axios_error_def MAX_RETRIES_def utf16_def)

lemma removeControl_clean: "\<forall>c \<in> set (removeControl raw). \<not> isControl c"
  by (simp add: removeControl_def)

lemma chatAttempt_on_string:
  assumes "net e (calls w) = Inr resp" and "first_choice_content resp = Inr (Str raw)"
  shows "chatAttempt e w =
    (case JSON_parse e (removeControl raw) of
       Some storyData \<Rightarrow>
         (Inr storyData, w\<lparr>calls := Suc (calls w), trace := trace w @ [Http POST chat_completions_url]\<rparr>)
     | None \<Rightarrow>
         (Inl (new_Error (utf16 ''Failed to parse JSON response'')),
          w\<lparr>calls := Suc (calls w), trace := trace w @ [Http POST chat_completions_url],
            console := console w @
              [LogError [utf16 ''Error parsing JSON:'', utf16 ''SyntaxError''],
               LogError [utf16 ''Content that caused the error:'', removeControl raw]]\<rparr>))"
  using assms
  by (simp add: chatAttempt_def request_def bindE_def console_error_def split: option.splits)

lemma parse_error_not_rateLimited:
  "\<not> rateLimited (new_Error msg)"
  by (simp add: rateLimited_def new_Error_def)

text \<open>
  Claim C3, as the code has it. The text handed to \<open>JSON.parse\<close> is the reply with its
  control characters (U+0000 to U+001F, U+007F to U+009F) removed: it holds none of them
  and is the reply's other code units in their order. When the parse succeeds the story
  is returned after that one request. When it fails, \<open>makeChatRequest\<close> throws, with no
  retry, an \<open>Error\<close> whose message is the fixed text "Failed to parse JSON response"
  and which has no \<open>response\<close> (which tells it from a request that was answered with an
  error status); the sanitized content is not in the error: it is written to the console,
  in the line "Content that caused the error:".
\<close>

theorem chat_reply_sanitized_before_parse:
  "(\<forall>c \<in> set (removeControl raw). \<not> isControl c)
   \<and> removeControl raw = filter (\<lambda>c. \<not> isControl c) raw
   \<and> (net e (calls w) = Inr resp \<and> first_choice_content resp = Inr (Str raw) \<longrightarrow>
        (case JSON_parse e (removeControl raw) of
           Some storyData \<Rightarrow>
             makeChatRequest e retries w =
               (Inr storyData,
                w\<lparr>calls := Suc (calls w), trace := trace w @ [Http POST chat_completions_url]\<rparr>)
         | None \<Rightarrow>
             makeChatRequest e retries w =
               (Inl (new_Error (utf16 ''Failed to parse JSON response'')),
                w\<lparr>calls := Suc (calls w), trace := trace w @ [Http POST chat_completions_url],
                  console := console w @
                    [LogError [utf16 ''Error parsing JSON:'', utf16 ''SyntaxError''],
                     LogError [utf16 ''Content that caused the error:'', removeControl raw],
                     LogError [utf16 ''Error in makeChatRequest:'',
                               utf16 ''Failed to parse JSON response'']]\<rparr>)))"
proof (intro conjI impI)
  show "\<forall>c \<in> set (removeControl raw). \<not> isControl c" by (rule removeControl_clean)
  show "removeControl raw = filter (\<lambda>c. \<not> isControl c) raw" by (simp add: removeControl_def)
next
  assume a: "net e (calls w) = Inr resp \<and> first_choice_content resp = Inr (Str raw)"
  then have at: "chatAttempt e w =
    (case JSON_parse e (removeControl raw) of
       Some storyData \<Rightarrow>
         (Inr storyData, w\<lparr>calls := Suc (calls w), trace := trace w @ [Http POST chat_completions_url]\<rparr>)
     | None \<Rightarrow>
         (Inl (new_Error (utf16 ''Failed to parse JSON response'')),
          w\<lparr>calls := Suc (calls w), trace := trace w @ [Http POST chat_completions_url],
            console := console w @
              [LogError [utf16 ''Error parsing JSON:'', utf16 ''SyntaxError''],
               LogError [utf16 ''Content that caused the error:'', removeControl raw]]\<rparr>))"
    by (simp add: chatAttempt_on_string)
  show "case JSON_parse e (removeControl raw) of
           Some storyData \<Rightarrow>
             makeChatRequest e retries w =
               (Inr storyData,
                w\<lparr>calls := Suc (calls w), trace := trace w @ [Http POST chat_completions_url]\<rparr>)
         | None \<Rightarrow>
             makeChatRequest e retries w =
               (Inl (new_Error (utf16 ''Failed to parse JSON response'')),
                w\<lparr>calls := Suc (calls w), trace := trace w @ [Http POST chat_completions_url],
                  console := console w @
                    [LogError [utf16 ''Error parsing JSON:'', utf16 ''SyntaxError''],
                     LogError [utf16 ''Content that caused the error:'', removeControl raw],
                     LogError [utf16 ''Error in makeChatRequest:'',
                               utf16 ''Failed to parse JSON response'']]\<rparr>)"
  proof (cases "JSON_parse e (removeControl raw)")
    case (Some storyData)
    with at show ?thesis by (simp add: makeChatRequest_success)
  next
    case None
    with at have "chatAttempt e w =
         (Inl (new_Error (utf16 ''Failed to parse JSON response'')),
          w\<lparr>calls := Suc (calls w), trace := trace w @ [Http POST chat_completions_url],
            console := console w @
              [LogError [utf16 ''Error parsing JSON:'', utf16 ''SyntaxError''],
               LogError [utf16 ''Content that caused the error:'', removeControl raw]]\<rparr>)"
      by simp
    from makeChatRequest_fail_fast [OF this parse_error_not_rateLimited, of retries] None
    show ?thesis
      by (simp add: console_error_def message_or_error_def new_Error_def utf16_def)
  qed
qed

text \<open>
  Witness for C3: the reply "{<LF>}" is parsed as "{}"; the reply "{<LF>" is parsed as
  "{", which fails.
\<close>

theorem chat_reply_sanitized_before_parse_witness:
  "fst (makeChatRequest (env_of (\<lambda>k. Inr (chat_response (Str (utf16 ''{'' @ [0x0A] @ utf16 ''}''))))) 0 world0)
     = Inr (Obj [])
   \<and> makeChatRequest (env_of (\<lambda>k. Inr (chat_response (Str (utf16 ''{'' @ [0x0A]))))) 0 world0
     = (Inl (new_Error (utf16 ''Failed to parse JSON response'')),
        world0\<lparr>calls := 1, trace := [Http POST chat_completions_url],
          console :=
            [LogError [utf16 ''Error parsing JSON:'', utf16 ''SyntaxError''],
             LogError [utf16 ''Content that caused the error:'', utf16 ''{''],
             LogError [utf16 ''Error in makeChatRequest:'', utf16 ''Failed to parse JSON response'']]\<rparr>)
   \<and> 0x0A \<notin> set (removeControl (utf16 ''{'' @ [0x0A] @ utf16 ''}''))"
  using chat_reply_sanitized_before_parse [of "utf16 ''{'' @ [0x0A] @ utf16 ''}''"
      "env_of (\<lambda>k. Inr (chat_response (Str (utf16 ''{'' @ [0x0A] @ utf16 ''}''))))" world0
      "chat_response (Str (utf16 ''{'' @ [0x0A] @ utf16 ''}''))" 0]
    chat_reply_sanitized_before_parse [of "utf16 ''{'' @ [0x0A]"
      "env_of (\<lambda>k. Inr (chat_response (Str (utf16 ''{'' @ [0x0A]))))" world0
      "chat_response (Str (utf16 ''{'' @ [0x0A]))" 0]
  by (simp add: env_of_def world0_def chat_response_def first_choice_content_def bindE_def
      removeControl_def isControl_def utf16_def)

text \<open>
  Claim C3, as the specification states it, fails: the error of a failed parse does not
  retain the content. The replies "{" and "[" end in the same error, whose only fields
  are its name, the fixed message and the absent response.
\<close>

theorem chat_parse_error_drops_content_counterexample:
  "fst (makeChatRequest (env_of (\<lambda>k. Inr (chat_response (Str (utf16 ''{''))))) 0 world0)
     = Inl (new_Error (utf16 ''Failed to parse JSON response''))
   \<and> fst (makeChatRequest (env_of (\<lambda>k. Inr (chat_response (Str (utf16 ''[''))))) 0 world0)
     = Inl (new_Error (utf16 ''Failed to parse JSON response''))
   \<and> utf16 ''{'' \<noteq> utf16 ''[''
   \<and> new_Error (utf16 ''Failed to parse JSON response'') =
       \<lparr>ename = ''Error'', message = utf16 ''Failed to parse JSON response'', response = Undefined\<rparr>"
  by (simp add: makeChatRequest.simps chatAttempt_def request_def first_choice_content_def bindE_def
      removeControl_def isControl_def rateLimited_def new_Error_def console_error_def
      env_of_def world0_def chat_response_def utf16_def)

section \<open>Image description client: properties\<close>

lemma getProp_defined_truthy:
  "getProp v k = Inr x \<Longrightarrow> x \<noteq> Undefined \<Longrightarrow> truthy v"
  by (cases v) auto

lemma getProp_Inr_cases:
  "getProp v k = Inr x \<Longrightarrow> v \<noteq> Undefined \<and> v \<noteq> Null"
  by (cases v) auto

lemma truthy_getProp_total: "truthy v \<Longrightarrow> \<exists>x. getProp v k = Inr x"
  by (cases v) auto









section \<open>Flipbook publisher: properties\<close>

lemma console_files [simp]:
  "files (console_log a w) = files w" "files (console_error a w) = files w"
  by (simp_all add: console_log_def console_error_def)

lemma delay_trace [simp]: "trace (delay ms w) = trace w @ [Sleep ms]"
  by (simp add: delay_def)

lemma delay_files [simp]: "files (delay ms w) = files w"
  by (simp add: delay_def)

lemma request_files [simp]: "files (snd (request e m url w)) = files w"
  by (simp add: request_def)

lemma poll_events_Suc:
  "poll_events fid (Suc n) = [Sleep 5000, Http GET (FLIPBOOK_API_URL @ ToString fid)] @ poll_events fid n"
  by (simp add: poll_events_def)

lemma poll_events_snoc:
  "poll_events fid n @ [Sleep 5000, Http GET (FLIPBOOK_API_URL @ ToString fid)] = poll_events fid (Suc n)"
  by (induction n) (simp_all add: poll_events_def)

lemma notReady_D:
  assumes "notReady sr"
  obtains p st where "publication_of sr = Inr p" and "getProp p (utf16 ''state'') = Inr st"
    and "st \<noteq> Str (utf16 ''Ready'')"
  using assms
  by (auto simp: notReady_def poll_state_def bindE_def split: sum.splits option.splits)

lemma readyWith_D:
  assumes "readyWith sr h"
  obtains p where "publication_of sr = Inr p" and "getProp p (utf16 ''state'') = Inr (Str (utf16 ''Ready''))"
    and "getProp p (utf16 ''hashId'') = Inr h" and "truthy p"
proof -
  from assms obtain p where p: "publication_of sr = Inr p"
    and st: "getProp p (utf16 ''state'') = Inr (Str (utf16 ''Ready''))"
    and h: "getProp p (utf16 ''hashId'') = Inr h"
    by (auto simp: readyWith_def poll_state_def bindE_def split: sum.splits)
  from st have "truthy p" by (cases p) auto
  with p st h that show thesis by blast
qed

lemma poll_step_notReady:
  assumes "attempts < 10" and "net e (calls w) = Inr sr" and "notReady sr"
  shows "\<exists>w'. pollFlipbook e fromUrl fid attempts w = pollFlipbook e fromUrl fid (Suc attempts) w'
    \<and> calls w' = Suc (calls w)
    \<and> trace w' = trace w @ [Sleep 5000, Http GET (FLIPBOOK_API_URL @ ToString fid)]
    \<and> files w' = files w"
proof -
  from assms(3) obtain p st where p: "publication_of sr = Inr p"
    and st: "getProp p (utf16 ''state'') = Inr st" and nr: "st \<noteq> Str (utf16 ''Ready'')"
    by (rule notReady_D)
  let ?w1 = "snd (request e GET (FLIPBOOK_API_URL @ ToString fid) (delay 5000 w))"
  let ?w2 = "if fromUrl then console_log [utf16 ''Attempt '' @ dec_nat (attempts + 1) @
                 utf16 '': Flipbook status:'', ToString st] ?w1 else ?w1"
  have "pollFlipbook e fromUrl fid attempts w = pollFlipbook e fromUrl fid (Suc attempts) ?w2"
    using assms(1,2) p st nr
    by (subst pollFlipbook.simps [of e fromUrl fid attempts w])
      (simp add: request_def delay_def bindE_def Let_def)
  moreover have "calls ?w2 = Suc (calls w)" by simp
  moreover have "trace ?w2 = trace w @ [Sleep 5000, Http GET (FLIPBOOK_API_URL @ ToString fid)]"
    by simp
  moreover have "files ?w2 = files w" by simp
  ultimately show ?thesis by blast
qed

lemma poll_run_notReady:
  "attempts + n \<le> 10 \<Longrightarrow> \<forall>k < n. pollNotReady e (calls w + k) \<Longrightarrow>
   \<exists>w'. pollFlipbook e fromUrl fid attempts w = pollFlipbook e fromUrl fid (attempts + n) w'
     \<and> calls w' = calls w + n
     \<and> trace w' = trace w @ poll_events fid n
     \<and> files w' = files w"
proof (induction n arbitrary: attempts w)
  case 0
  have "pollFlipbook e fromUrl fid attempts w = pollFlipbook e fromUrl fid (attempts + 0) w
      \<and> calls w = calls w + 0 \<and> trace w = trace w @ poll_events fid 0 \<and> files w = files w"
    by (simp add: poll_events_def)
  then show ?case by blast
next
  case (Suc n)
  from Suc.prems(2) have "pollNotReady e (calls w + 0)" by blast
  then obtain sr where sr: "net e (calls w) = Inr sr" and nr: "notReady sr"
    by (auto simp: pollNotReady_def split: sum.splits)
  from Suc.prems(1) have lt: "attempts < 10" by simp
  from poll_step_notReady [OF lt sr nr, of fromUrl fid]
  obtain w1 where s1: "pollFlipbook e fromUrl fid attempts w = pollFlipbook e fromUrl fid (Suc attempts) w1"
    and c1: "calls w1 = Suc (calls w)"
    and t1: "trace w1 = trace w @ [Sleep 5000, Http GET (FLIPBOOK_API_URL @ ToString fid)]"
    and f1: "files w1 = files w" by blast
  have rest: "\<forall>k < n. pollNotReady e (calls w1 + k)"
  proof (intro allI impI)
    fix k assume "k < n"
    then have "Suc k < Suc n" by simp
    with Suc.prems(2) have "pollNotReady e (calls w + Suc k)" by blast
    then show "pollNotReady e (calls w1 + k)" using c1 by simp
  qed
  from Suc.prems(1) have "Suc attempts + n \<le> 10" by simp
  from Suc.IH [OF this rest]
  obtain w2 where s2: "pollFlipbook e fromUrl fid (Suc attempts) w1 = pollFlipbook e fromUrl fid (Suc attempts + n) w2"
    and c2: "calls w2 = calls w1 + n"
    and t2: "trace w2 = trace w1 @ poll_events fid n"
    and f2: "files w2 = files w1" by blast
  have "pollFlipbook e fromUrl fid attempts w = pollFlipbook e fromUrl fid (attempts + Suc n) w2"
    using s1 s2 by simp
  moreover have "calls w2 = calls w + Suc n" using c1 c2 by simp
  moreover have "trace w2 = trace w @ poll_events fid (Suc n)"
    using t1 t2 by (simp add: poll_events_Suc)
  moreover have "files w2 = files w" using f1 f2 by simp
  ultimately show ?case by blast
qed

lemma poll_end: "pollFlipbook e fromUrl fid 10 w = (Inr None, w)"
  by (subst pollFlipbook.simps) simp

lemma poll_step_ready:
  assumes "attempts < 10" and "net e (calls w) = Inr sr" and "readyWith sr h"
  shows "\<exists>w'. pollFlipbook e fromUrl fid attempts w = (Inr (Some (view_url h)), w')
    \<and> calls w' = Suc (calls w)
    \<and> trace w' = trace w @ [Sleep 5000, Http GET (FLIPBOOK_API_URL @ ToString fid)]
    \<and> files w' = files w"
proof -
  from assms(3) obtain p where p: "publication_of sr = Inr p"
    and st: "getProp p (utf16 ''state'') = Inr (Str (utf16 ''Ready''))"
    and h: "getProp p (utf16 ''hashId'') = Inr h" and tp: "truthy p"
    by (rule readyWith_D)
  let ?w1 = "snd (request e GET (FLIPBOOK_API_URL @ ToString fid) (delay 5000 w))"
  let ?w2 = "if fromUrl then console_log [utf16 ''Attempt '' @ dec_nat (attempts + 1) @
                 utf16 '': Flipbook status:'', utf16 ''Ready''] ?w1 else ?w1"
  have "pollFlipbook e fromUrl fid attempts w = (Inr (Some (view_url h)), ?w2)"
    using assms(1,2) p st h tp
    by (subst pollFlipbook.simps [of e fromUrl fid attempts w])
      (simp add: request_def delay_def bindE_def Let_def)
  moreover have "calls ?w2 = Suc (calls w)" by simp
  moreover have "trace ?w2 = trace w @ [Sleep 5000, Http GET (FLIPBOOK_API_URL @ ToString fid)]"
    by simp
  moreover have "files ?w2 = files w" by simp
  ultimately show ?thesis by blast
qed

lemma poll_step_throw:
  assumes "attempts < 10" and "net e (calls w) = Inl err"
  shows "\<exists>w'. pollFlipbook e fromUrl fid attempts w = (Inl err, w')
    \<and> calls w' = Suc (calls w)
    \<and> trace w' = trace w @ [Sleep 5000, Http GET (FLIPBOOK_API_URL @ ToString fid)]
    \<and> files w' = files w"
proof -
  let ?w1 = "snd (request e GET (FLIPBOOK_API_URL @ ToString fid) (delay 5000 w))"
  have "pollFlipbook e fromUrl fid attempts w = (Inl err, ?w1)"
    using assms(1,2)
    by (subst pollFlipbook.simps [of e fromUrl fid attempts w]) (simp add: request_def delay_def)
  moreover have "calls ?w1 = Suc (calls w)" by simp
  moreover have "trace ?w1 = trace w @ [Sleep 5000, Http GET (FLIPBOOK_API_URL @ ToString fid)]"
    by simp
  moreover have "files ?w1 = files w" by simp
  ultimately show ?thesis by blast
qed

lemma flipbook_catch_simps [simp]:
  "calls (flipbook_catch err w) = calls w"
  "trace (flipbook_catch err w) = trace w"
  "files (flipbook_catch err w) = files w"
  by (simp_all add: flipbook_catch_def Let_def)

lemma created_D:
  assumes "created e k fid"
  obtains cr d where "net e k = Inr cr" and "getProp cr (utf16 ''data'') = Inr d"
    and "getProp d (utf16 ''id'') = Inr fid" and "truthy fid" and "truthy d"
proof -
  from assms obtain cr d where a: "net e k = Inr cr" "getProp cr (utf16 ''data'') = Inr d"
    "getProp d (utf16 ''id'') = Inr fid" "truthy fid"
    by (auto simp: created_def split: sum.splits)
  from a(4) have "fid \<noteq> Undefined" by auto
  with a(3) have "truthy d" by (rule getProp_defined_truthy)
  with a that show thesis by blast
qed

lemma submit_created:
  assumes "created e (calls w) fid"
  shows "\<exists>w2. submitFlipbook e fromUrl w =
      (case pollFlipbook e fromUrl fid 0 w2 of
         (Inl err, w3) \<Rightarrow> (Inl err, w3)
       | (Inr (Some flipbookUrl), w3) \<Rightarrow> (Inr flipbookUrl, w3)
       | (Inr None, w3) \<Rightarrow> (Inl timed_out, w3))
    \<and> calls w2 = Suc (calls w)
    \<and> trace w2 = trace w @ [Http POST (FLIPBOOK_API_URL @ utf16 ''create'')]
    \<and> files w2 = files w"
proof -
  from assms obtain cr d where cr: "net e (calls w) = Inr cr"
    and d: "getProp cr (utf16 ''data'') = Inr d" and i: "getProp d (utf16 ''id'') = Inr fid"
    and tf: "truthy fid" and td: "truthy d" by (rule created_D)
  let ?w2 = "console_log [utf16 ''FlippingBook API Response:'', ToString d]
      (snd (request e POST (FLIPBOOK_API_URL @ utf16 ''create'') w))"
  have "submitFlipbook e fromUrl w =
      (case pollFlipbook e fromUrl fid 0 ?w2 of
         (Inl err, w3) \<Rightarrow> (Inl err, w3)
       | (Inr (Some flipbookUrl), w3) \<Rightarrow> (Inr flipbookUrl, w3)
       | (Inr None, w3) \<Rightarrow> (Inl timed_out, w3))"
    using cr d i tf td by (simp add: submitFlipbook_def request_def Let_def)
  moreover have "calls ?w2 = Suc (calls w)" by simp
  moreover have "trace ?w2 = trace w @ [Http POST (FLIPBOOK_API_URL @ utf16 ''create'')]" by simp
  moreover have "files ?w2 = files w" by simp
  ultimately show ?thesis by blast
qed

text \<open>The three ways the polling ends, seen from the answer.\<close>

lemma submit_timeout:
  assumes "created e (calls w) fid" and "\<forall>k < 10. pollNotReady e (Suc (calls w) + k)"
  shows "\<exists>w'. flipbook_reply (submitFlipbook e fromUrl w) = (flipbook_failure timed_out, w')
    \<and> trace w' = trace w @ Http POST (FLIPBOOK_API_URL @ utf16 ''create'') # poll_events fid 10
    \<and> files w' = files w"
proof -
  from submit_created [OF assms(1), of fromUrl]
  obtain w2 where s: "submitFlipbook e fromUrl w =
      (case pollFlipbook e fromUrl fid 0 w2 of
         (Inl err, w3) \<Rightarrow> (Inl err, w3)
       | (Inr (Some flipbookUrl), w3) \<Rightarrow> (Inr flipbookUrl, w3)
       | (Inr None, w3) \<Rightarrow> (Inl timed_out, w3))"
    and c2: "calls w2 = Suc (calls w)"
    and t2: "trace w2 = trace w @ [Http POST (FLIPBOOK_API_URL @ utf16 ''create'')]"
    and f2: "files w2 = files w" by blast
  have "\<forall>k < 10. pollNotReady e (calls w2 + k)" using assms(2) c2 by simp
  from poll_run_notReady [OF _ this, of 0 fromUrl fid]
  obtain w3 where p: "pollFlipbook e fromUrl fid 0 w2 = pollFlipbook e fromUrl fid 10 w3"
    and t3: "trace w3 = trace w2 @ poll_events fid 10" and f3: "files w3 = files w2"
    by auto
  have "flipbook_reply (submitFlipbook e fromUrl w) =
      (flipbook_failure timed_out, flipbook_catch timed_out w3)"
    by (simp add: s p poll_end flipbook_reply_def)
  moreover have "trace (flipbook_catch timed_out w3) =
      trace w @ Http POST (FLIPBOOK_API_URL @ utf16 ''create'') # poll_events fid 10"
    using t2 t3 by simp
  moreover have "files (flipbook_catch timed_out w3) = files w" using f2 f3 by simp
  ultimately show ?thesis by blast
qed

lemma submit_ready:
  assumes "created e (calls w) fid" and "n < 10" and "\<forall>k < n. pollNotReady e (Suc (calls w) + k)"
    and "net e (Suc (calls w) + n) = Inr sr" and "readyWith sr h"
  shows "\<exists>w'. flipbook_reply (submitFlipbook e fromUrl w) = (flipbook_success (view_url h), w')
    \<and> trace w' = trace w @ Http POST (FLIPBOOK_API_URL @ utf16 ''create'') # poll_events fid (Suc n)
    \<and> files w' = files w"
proof -
  from submit_created [OF assms(1), of fromUrl]
  obtain w2 where s: "submitFlipbook e fromUrl w =
      (case pollFlipbook e fromUrl fid 0 w2 of
         (Inl err, w3) \<Rightarrow> (Inl err, w3)
       | (Inr (Some flipbookUrl), w3) \<Rightarrow> (Inr flipbookUrl, w3)
       | (Inr None, w3) \<Rightarrow> (Inl timed_out, w3))"
    and c2: "calls w2 = Suc (calls w)"
    and t2: "trace w2 = trace w @ [Http POST (FLIPBOOK_API_URL @ utf16 ''create'')]"
    and f2: "files w2 = files w" by blast
  have "\<forall>k < n. pollNotReady e (calls w2 + k)" using assms(3) c2 by simp
  from poll_run_notReady [OF _ this, of 0 fromUrl fid] assms(2)
  obtain w3 where p: "pollFlipbook e fromUrl fid 0 w2 = pollFlipbook e fromUrl fid n w3"
    and c3: "calls w3 = calls w2 + n"
    and t3: "trace w3 = trace w2 @ poll_events fid n" and f3: "files w3 = files w2"
    by auto
  have "net e (calls w3) = Inr sr" using assms(4) c2 c3 by simp
  from poll_step_ready [OF assms(2) this assms(5), of fromUrl fid]
  obtain w4 where q: "pollFlipbook e fromUrl fid n w3 = (Inr (Some (view_url h)), w4)"
    and t4: "trace w4 = trace w3 @ [Sleep 5000, Http GET (FLIPBOOK_API_URL @ ToString fid)]"
    and f4: "files w4 = files w3" by blast
  have "flipbook_reply (submitFlipbook e fromUrl w) = (flipbook_success (view_url h), w4)"
    by (simp add: s p q flipbook_reply_def)
  moreover have "trace w4 =
      trace w @ Http POST (FLIPBOOK_API_URL @ utf16 ''create'') # poll_events fid (Suc n)"
    using t2 t3 t4 poll_events_snoc [of fid n] by simp
  moreover have "files w4 = files w" using f2 f3 f4 by simp
  ultimately show ?thesis by blast
qed

lemma submit_throw:
  assumes "created e (calls w) fid" and "n < 10" and "\<forall>k < n. pollNotReady e (Suc (calls w) + k)"
    and "net e (Suc (calls w) + n) = Inl err"
  shows "\<exists>w'. flipbook_reply (submitFlipbook e fromUrl w) = (flipbook_failure err, w')
    \<and> trace w' = trace w @ Http POST (FLIPBOOK_API_URL @ utf16 ''create'') # poll_events fid (Suc n)
    \<and> files w' = files w"
proof -
  from submit_created [OF assms(1), of fromUrl]
  obtain w2 where s: "submitFlipbook e fromUrl w =
      (case pollFlipbook e fromUrl fid 0 w2 of
         (Inl err, w3) \<Rightarrow> (Inl err, w3)
       | (Inr (Some flipbookUrl), w3) \<Rightarrow> (Inr flipbookUrl, w3)
       | (Inr None, w3) \<Rightarrow> (Inl timed_out, w3))"
    and c2: "calls w2 = Suc (calls w)"
    and t2: "trace w2 = trace w @ [Http POST (FLIPBOOK_API_URL @ utf16 ''create'')]"
    and f2: "files w2 = files w" by blast
  have "\<forall>k < n. pollNotReady e (calls w2 + k)" using assms(3) c2 by simp
  from poll_run_notReady [OF _ this, of 0 fromUrl fid] assms(2)
  obtain w3 where p: "pollFlipbook e fromUrl fid 0 w2 = pollFlipbook e fromUrl fid n w3"
    and c3: "calls w3 = calls w2 + n"
    and t3: "trace w3 = trace w2 @ poll_events fid n" and f3: "files w3 = files w2"
    by auto
  have "net e (calls w3) = Inl err" using assms(4) c2 c3 by simp
  from poll_step_throw [OF assms(2) this, of fromUrl fid]
  obtain w4 where q: "pollFlipbook e fromUrl fid n w3 = (Inl err, w4)"
    and t4: "trace w4 = trace w3 @ [Sleep 5000, Http GET (FLIPBOOK_API_URL @ ToString fid)]"
    and f4: "files w4 = files w3" by blast
  have "flipbook_reply (submitFlipbook e fromUrl w) = (flipbook_failure err, flipbook_catch err w4)"
    by (simp add: s p q flipbook_reply_def)
  moreover have "trace (flipbook_catch err w4) =
      trace w @ Http POST (FLIPBOOK_API_URL @ utf16 ''create'') # poll_events fid (Suc n)"
    using t2 t3 t4 poll_events_snoc [of fid n] by simp
  moreover have "files (flipbook_catch err w4) = files w" using f2 f3 f4 by simp
  ultimately show ?thesis by blast
qed

lemma pollFlipbook_files: "files (snd (pollFlipbook e fromUrl fid attempts w)) = files w"
proof (induction e fromUrl fid attempts w rule: pollFlipbook.induct)
  case (1 e fromUrl fid attempts w)
  show ?case
  proof (cases "attempts < 10")
    case False
    then show ?thesis by (subst pollFlipbook.simps) simp
  next
    case True
    obtain r w1 where rq: "request e GET (FLIPBOOK_API_URL @ ToString fid) (delay 5000 w) = (r, w1)"
      by (cases "request e GET (FLIPBOOK_API_URL @ ToString fid) (delay 5000 w)")
    then have f1: "files w1 = files w"
      using request_files [of e GET "FLIPBOOK_API_URL @ ToString fid" "delay 5000 w"] by simp
    show ?thesis
      using True rq f1 "1.IH" [OF True rq [symmetric]]
      by (subst pollFlipbook.simps)
        (auto simp: Let_def split: sum.splits option.splits)
  qed
qed

lemma submitFlipbook_files: "files (snd (submitFlipbook e fromUrl w)) = files w"
proof -
  have "files (snd (case pollFlipbook e fromUrl fid 0 w2 of
            (Inl err, w3) \<Rightarrow> (Inl err, w3)
          | (Inr (Some flipbookUrl), w3) \<Rightarrow> (Inr flipbookUrl, w3)
          | (Inr None, w3) \<Rightarrow> (Inl timed_out, w3))) = files w2" for fid w2
    using pollFlipbook_files [of e fromUrl fid 0 w2]
    by (auto split: prod.splits sum.splits option.splits)
  then show ?thesis
    by (auto simp: submitFlipbook_def request_def Let_def split: prod.splits sum.splits)
qed

lemma flipbook_reply_files: "files (snd (flipbook_reply r)) = files (snd r)"
  by (auto simp: flipbook_reply_def split: prod.splits sum.splits)

lemma flipbook_reply_trace: "trace (snd (flipbook_reply r)) = trace (snd r)"
  by (auto simp: flipbook_reply_def split: prod.splits sum.splits)

lemma finally_unlink_removes: "files (snd (finally_unlink path r w)) path = None"
  by (simp add: finally_unlink_def unlinkSync_def existsSync_def)

lemma finally_unlink_existing:
  "existsSync path w \<Longrightarrow>
   finally_unlink path r w = (responded r, w\<lparr>files := (files w)(path := None)\<rparr>)"
  by (simp add: finally_unlink_def unlinkSync_def)

text \<open>The handlers of uploads delete the uploaded file on every path.\<close>

lemma describe_image_handler_unlinks:
  "files (snd (describe_image_handler e (Some imageFilePath) w)) imageFilePath = None"
  by (simp add: describe_image_handler_def finally_unlink_removes split: prod.splits sum.splits)

lemma create_flipbook_from_pdf_unlinks:
  "files (snd (create_flipbook_from_pdf e (Some pdfPath) w)) pdfPath = None"
  by (simp add: create_flipbook_from_pdf_def finally_unlink_removes split: prod.splits)

lemma from_pdf_handler:
  assumes "existsSync pdfPath w"
  shows "create_flipbook_from_pdf e (Some pdfPath) w =
    (responded (fst (flipbook_reply (submitFlipbook e False w))),
     (snd (flipbook_reply (submitFlipbook e False w)))
       \<lparr>files := (files w)(pdfPath := None)\<rparr>)"
proof -
  obtain r w1 where fr: "flipbook_reply (submitFlipbook e False w) = (r, w1)"
    by (cases "flipbook_reply (submitFlipbook e False w)")
  then have "files w1 = files w"
    using flipbook_reply_files [of "submitFlipbook e False w"] submitFlipbook_files [of e False w]
    by simp
  with assms have "existsSync pdfPath w1" by (simp add: existsSync_def)
  from finally_unlink_existing [OF this, of r] fr assms \<open>files w1 = files w\<close>
  show ?thesis by (simp add: create_flipbook_from_pdf_def readFileSync_def)
qed

lemma from_url_handler:
  assumes "truthy previewUrl" and "downloaded e (calls w)"
  shows "\<exists>w1. create_flipbook_from_url e previewUrl w =
      (\<lparr>sent = Some (fst (flipbook_reply (submitFlipbook e True w1))),
        uncaught = Some (ReferenceError (utf16 ''tempFilePath is not defined''))\<rparr>,
       snd (flipbook_reply (submitFlipbook e True w1)))
    \<and> calls w1 = Suc (calls w)
    \<and> trace w1 = trace w @ [Http GET (ToString previewUrl)]
    \<and> files w1 = (files w)(tempFilePath e \<mapsto> now e)"
proof -
  from assms(2) obtain pdfResponse where r: "net e (calls w) = Inr pdfResponse"
    and b: "bindE (getProp pdfResponse (utf16 ''data'')) Buffer_from = Inr ()"
    by (auto simp: downloaded_def split: sum.splits)
  let ?w0 = "snd (request e GET (ToString previewUrl)
      (console_log [utf16 ''Attempting to download PDF from: '' @ ToString previewUrl] w))"
  let ?w1 = "console_log [utf16 ''Sending request to FlippingBook API...'']
      (console_log [utf16 ''Temporary PDF saved to: '' @ tempFilePath e]
        (writeFileSync e (tempFilePath e) ?w0))"
  have "flipbook_from_url_try e previewUrl w = submitFlipbook e True ?w1"
    using r b by (simp add: flipbook_from_url_try_def request_def console_log_def)
  then have "create_flipbook_from_url e previewUrl w =
      (\<lparr>sent = Some (fst (flipbook_reply (submitFlipbook e True ?w1))),
        uncaught = Some (ReferenceError (utf16 ''tempFilePath is not defined''))\<rparr>,
       snd (flipbook_reply (submitFlipbook e True ?w1)))"
    using assms(1) by (simp add: create_flipbook_from_url_def split: prod.splits)
  moreover have "calls ?w1 = Suc (calls w)" by (simp add: writeFileSync_def)
  moreover have "trace ?w1 = trace w @ [Http GET (ToString previewUrl)]"
    by (simp add: writeFileSync_def)
  moreover have "files ?w1 = (files w)(tempFilePath e \<mapsto> now e)"
    by (simp add: writeFileSync_def)
  ultimately show ?thesis by blast
qed

text \<open>
  Claim C2, as the code has it, for both handlers; the requests of a run are the upload
  (after the download of the preview, in \<open>/api/create-flipbook-from-url\<close>) and then the
  polls. When each of ten polls is answered with a publication whose state is not
  "Ready", the answer is the timeout (status 500 with the details "Flipbook processing
  timed out" and no response data), after exactly ten polls, each after a wait of five
  seconds. When the first \<open>n\<close> polls, \<open>n < 10\<close>, are answered so and the next is
  answered "Ready", the answer is the success with the view URL made of the \<open>hashId\<close>,
  and that poll is the last request. When the next poll fails instead, the answer is the
  failure of that request, not the timeout, and that poll is the last request.
\<close>

theorem flipbook_polling_outcomes:
  "(existsSync pdfPath w \<and> created e (calls w) fid
      \<and> (\<forall>k < 10. pollNotReady e (Suc (calls w) + k)) \<longrightarrow>
      fst (create_flipbook_from_pdf e (Some pdfPath) w) = responded (flipbook_failure timed_out)
      \<and> trace (snd (create_flipbook_from_pdf e (Some pdfPath) w)) =
          trace w @ Http POST (FLIPBOOK_API_URL @ utf16 ''create'') # poll_events fid 10)
   \<and> (existsSync pdfPath w \<and> created e (calls w) fid \<and> n < 10
      \<and> (\<forall>k < n. pollNotReady e (Suc (calls w) + k))
      \<and> net e (Suc (calls w) + n) = Inr sr \<and> readyWith sr h \<longrightarrow>
      fst (create_flipbook_from_pdf e (Some pdfPath) w) = responded (flipbook_success (view_url h))
      \<and> trace (snd (create_flipbook_from_pdf e (Some pdfPath) w)) =
          trace w @ Http POST (FLIPBOOK_API_URL @ utf16 ''create'') # poll_events fid (Suc n))
   \<and> (existsSync pdfPath w \<and> created e (calls w) fid \<and> n < 10
      \<and> (\<forall>k < n. pollNotReady e (Suc (calls w) + k))
      \<and> net e (Suc (calls w) + n) = Inl err \<longrightarrow>
      fst (create_flipbook_from_pdf e (Some pdfPath) w) = responded (flipbook_failure err)
      \<and> trace (snd (create_flipbook_from_pdf e (Some pdfPath) w)) =
          trace w @ Http POST (FLIPBOOK_API_URL @ utf16 ''create'') # poll_events fid (Suc n))
   \<and> (truthy previewUrl \<and> downloaded e (calls w) \<and> created e (Suc (calls w)) fid
      \<and> (\<forall>k < 10. pollNotReady e (Suc (Suc (calls w)) + k)) \<longrightarrow>
      sent (fst (create_flipbook_from_url e previewUrl w)) = Some (flipbook_failure timed_out)
      \<and> trace (snd (create_flipbook_from_url e previewUrl w)) =
          trace w @ Http GET (ToString previewUrl) #
            Http POST (FLIPBOOK_API_URL @ utf16 ''create'') # poll_events fid 10)
   \<and> (truthy previewUrl \<and> downloaded e (calls w) \<and> created e (Suc (calls w)) fid \<and> n < 10
      \<and> (\<forall>k < n. pollNotReady e (Suc (Suc (calls w)) + k))
      \<and> net e (Suc (Suc (calls w)) + n) = Inr sr \<and> readyWith sr h \<longrightarrow>
      sent (fst (create_flipbook_from_url e previewUrl w)) = Some (flipbook_success (view_url h))
      \<and> trace (snd (create_flipbook_from_url e previewUrl w)) =
          trace w @ Http GET (ToString previewUrl) #
            Http POST (FLIPBOOK_API_URL @ utf16 ''create'') # poll_events fid (Suc n))
   \<and> (truthy previewUrl \<and> downloaded e (calls w) \<and> created e (Suc (calls w)) fid \<and> n < 10
      \<and> (\<forall>k < n. pollNotReady e (Suc (Suc (calls w)) + k))
      \<and> net e (Suc (Suc (calls w)) + n) = Inl err \<longrightarrow>
      sent (fst (create_flipbook_from_url e previewUrl w)) = Some (flipbook_failure err)
      \<and> trace (snd (create_flipbook_from_url e previewUrl w)) =
          trace w @ Http GET (ToString previewUrl) #
            Http POST (FLIPBOOK_API_URL @ utf16 ''create'') # poll_events fid (Suc n))
   \<and> flipbook_failure timed_out =
       Json 500 (Obj [(utf16 ''error'', Str (utf16 ''An error occurred while creating the flipbook'')),
                      (utf16 ''details'', Str (utf16 ''Flipbook processing timed out'')),
                      (utf16 ''responseData'', Null)])
   \<and> poll_events fid n =
       concat (replicate n [Sleep 5000, Http GET (FLIPBOOK_API_URL @ ToString fid)])"
proof (intro conjI impI)
  show "flipbook_failure timed_out =
       Json 500 (Obj [(utf16 ''error'', Str (utf16 ''An error occurred while creating the flipbook'')),
                      (utf16 ''details'', Str (utf16 ''Flipbook processing timed out'')),
                      (utf16 ''responseData'', Null)])"
    by (simp add: flipbook_failure_def timed_out_def new_Error_def)
  show "poll_events fid n =
       concat (replicate n [Sleep 5000, Http GET (FLIPBOOK_API_URL @ ToString fid)])"
    by (simp add: poll_events_def)
next
  assume a: "existsSync pdfPath w \<and> created e (calls w) fid
      \<and> (\<forall>k < 10. pollNotReady e (Suc (calls w) + k))"
  then obtain w' where "flipbook_reply (submitFlipbook e False w) = (flipbook_failure timed_out, w')"
    and "trace w' = trace w @ Http POST (FLIPBOOK_API_URL @ utf16 ''create'') # poll_events fid 10"
    using submit_timeout [of e w fid False] by blast
  with a show "fst (create_flipbook_from_pdf e (Some pdfPath) w) = responded (flipbook_failure timed_out)"
    and "trace (snd (create_flipbook_from_pdf e (Some pdfPath) w)) =
          trace w @ Http POST (FLIPBOOK_API_URL @ utf16 ''create'') # poll_events fid 10"
    by (simp_all add: from_pdf_handler)
next
  assume a: "existsSync pdfPath w \<and> created e (calls w) fid \<and> n < 10
      \<and> (\<forall>k < n. pollNotReady e (Suc (calls w) + k))
      \<and> net e (Suc (calls w) + n) = Inr sr \<and> readyWith sr h"
  then obtain w' where "flipbook_reply (submitFlipbook e False w) = (flipbook_success (view_url h), w')"
    and "trace w' = trace w @ Http POST (FLIPBOOK_API_URL @ utf16 ''create'') # poll_events fid (Suc n)"
    using submit_ready [of e w fid n sr h False] by blast
  with a show "fst (create_flipbook_from_pdf e (Some pdfPath) w) = responded (flipbook_success (view_url h))"
    and "trace (snd (create_flipbook_from_pdf e (Some pdfPath) w)) =
          trace w @ Http POST (FLIPBOOK_API_URL @ utf16 ''create'') # poll_events fid (Suc n)"
    by (simp_all add: from_pdf_handler)
next
  assume a: "existsSync pdfPath w \<and> created e (calls w) fid \<and> n < 10
      \<and> (\<forall>k < n. pollNotReady e (Suc (calls w) + k))
      \<and> net e (Suc (calls w) + n) = Inl err"
  then obtain w' where "flipbook_reply (submitFlipbook e False w) = (flipbook_failure err, w')"
    and "trace w' = trace w @ Http POST (FLIPBOOK_API_URL @ utf16 ''create'') # poll_events fid (Suc n)"
    using submit_throw [of e w fid n err False] by blast
  with a show "fst (create_flipbook_from_pdf e (Some pdfPath) w) = responded (flipbook_failure err)"
    and "trace (snd (create_flipbook_from_pdf e (Some pdfPath) w)) =
          trace w @ Http POST (FLIPBOOK_API_URL @ utf16 ''create'') # poll_events fid (Suc n)"
    by (simp_all add: from_pdf_handler)
next
  assume a: "truthy previewUrl \<and> downloaded e (calls w) \<and> created e (Suc (calls w)) fid
      \<and> (\<forall>k < 10. pollNotReady e (Suc (Suc (calls w)) + k))"
  then obtain w1 where h: "create_flipbook_from_url e previewUrl w =
      (\<lparr>sent = Some (fst (flipbook_reply (submitFlipbook e True w1))),
        uncaught = Some (ReferenceError (utf16 ''tempFilePath is not defined''))\<rparr>,
       snd (flipbook_reply (submitFlipbook e True w1)))"
    and c1: "calls w1 = Suc (calls w)" and t1: "trace w1 = trace w @ [Http GET (ToString previewUrl)]"
    using from_url_handler [of previewUrl e w] by blast
  from a c1 obtain w' where "flipbook_reply (submitFlipbook e True w1) = (flipbook_failure timed_out, w')"
    and "trace w' = trace w1 @ Http POST (FLIPBOOK_API_URL @ utf16 ''create'') # poll_events fid 10"
    using submit_timeout [of e w1 fid True] by auto
  with h t1 show "sent (fst (create_flipbook_from_url e previewUrl w)) = Some (flipbook_failure timed_out)"
    and "trace (snd (create_flipbook_from_url e previewUrl w)) =
          trace w @ Http GET (ToString previewUrl) #
            Http POST (FLIPBOOK_API_URL @ utf16 ''create'') # poll_events fid 10"
    by simp_all
next
  assume a: "truthy previewUrl \<and> downloaded e (calls w) \<and> created e (Suc (calls w)) fid \<and> n < 10
      \<and> (\<forall>k < n. pollNotReady e (Suc (Suc (calls w)) + k))
      \<and> net e (Suc (Suc (calls w)) + n) = Inr sr \<and> readyWith sr h"
  then obtain w1 where h: "create_flipbook_from_url e previewUrl w =
      (\<lparr>sent = Some (fst (flipbook_reply (submitFlipbook e True w1))),
        uncaught = Some (ReferenceError (utf16 ''tempFilePath is not defined''))\<rparr>,
       snd (flipbook_reply (submitFlipbook e True w1)))"
    and c1: "calls w1 = Suc (calls w)" and t1: "trace w1 = trace w @ [Http GET (ToString previewUrl)]"
    using from_url_handler [of previewUrl e w] by blast
  from a c1 obtain w' where "flipbook_reply (submitFlipbook e True w1) = (flipbook_success (view_url h), w')"
    and "trace w' = trace w1 @ Http POST (FLIPBOOK_API_URL @ utf16 ''create'') # poll_events fid (Suc n)"
    using submit_ready [of e w1 fid n sr h True] by auto
  with h t1 show "sent (fst (create_flipbook_from_url e previewUrl w)) = Some (flipbook_success (view_url h))"
    and "trace (snd (create_flipbook_from_url e previewUrl w)) =
          trace w @ Http GET (ToString previewUrl) #
            Http POST (FLIPBOOK_API_URL @ utf16 ''create'') # poll_events fid (Suc n)"
    by simp_all
next
  assume a: "truthy previewUrl \<and> downloaded e (calls w) \<and> created e (Suc (calls w)) fid \<and> n < 10
      \<and> (\<forall>k < n. pollNotReady e (Suc (Suc (calls w)) + k))
      \<and> net e (Suc (Suc (calls w)) + n) = Inl err"
  then obtain w1 where h: "create_flipbook_from_url e previewUrl w =
      (\<lparr>sent = Some (fst (flipbook_reply (submitFlipbook e True w1))),
        uncaught = Some (ReferenceError (utf16 ''tempFilePath is not defined''))\<rparr>,
       snd (flipbook_reply (submitFlipbook e True w1)))"
    and c1: "calls w1 = Suc (calls w)" and t1: "trace w1 = trace w @ [Http GET (ToString previewUrl)]"
    using from_url_handler [of previewUrl e w] by blast
  from a c1 obtain w' where "flipbook_reply (submitFlipbook e True w1) = (flipbook_failure err, w')"
    and "trace w' = trace w1 @ Http POST (FLIPBOOK_API_URL @ utf16 ''create'') # poll_events fid (Suc n)"
    using submit_throw [of e w1 fid n err True] by auto
  with h t1 show "sent (fst (create_flipbook_from_url e previewUrl w)) = Some (flipbook_failure err)"
    and "trace (snd (create_flipbook_from_url e previewUrl w)) =
          trace w @ Http GET (ToString previewUrl) #
            Http POST (FLIPBOOK_API_URL @ utf16 ''create'') # poll_events fid (Suc n)"
    by simp_all
qed

text \<open>
  Witness for C2, for each handler: a run whose polls are all answered "Processing"; a
  run whose third poll is answered "Ready"; a run whose third poll fails with a 503.
\<close>

theorem flipbook_polling_outcomes_witness:
  "fst (create_flipbook_from_pdf
          (env_of (\<lambda>k. if k = 0 then Inr (create_response (Str (utf16 ''f1'')))
                        else Inr (status_response ''Processing'' ''abc'')))
          (Some (utf16 ''uploads/a'')) (world_with_file (utf16 ''uploads/a'') 0))
     = responded (flipbook_failure timed_out)
   \<and> fst (create_flipbook_from_pdf
          (env_of (\<lambda>k. if k = 0 then Inr (create_response (Str (utf16 ''f1'')))
                        else if k = 3 then Inr (status_response ''Ready'' ''abc'')
                        else Inr (status_response ''Processing'' ''abc'')))
          (Some (utf16 ''uploads/a'')) (world_with_file (utf16 ''uploads/a'') 0))
     = responded (flipbook_success (utf16 ''https://online.flippingbook.com/view/abc/''))
   \<and> fst (create_flipbook_from_pdf
          (env_of (\<lambda>k. if k = 0 then Inr (create_response (Str (utf16 ''f1'')))
                        else if k = 3 then Inl (axios_error 503)
                        else Inr (status_response ''Processing'' ''abc'')))
          (Some (utf16 ''uploads/a'')) (world_with_file (utf16 ''uploads/a'') 0))
     = responded (flipbook_failure (axios_error 503))
   \<and> sent (fst (create_flipbook_from_url
          (env_of (\<lambda>k. if k = 0 then Inr pdf_response
                        else if k = 1 then Inr (create_response (Str (utf16 ''f1'')))
                        else Inr (status_response ''Processing'' ''abc'')))
          (Str (utf16 ''http://localhost:4000/api/pdf-preview/p1'')) world0))
     = Some (flipbook_failure timed_out)
   \<and> sent (fst (create_flipbook_from_url
          (env_of (\<lambda>k. if k = 0 then Inr pdf_response
                        else if k = 1 then Inr (create_response (Str (utf16 ''f1'')))
                        else if k = 4 then Inr (status_response ''Ready'' ''abc'')
                        else Inr (status_response ''Processing'' ''abc'')))
          (Str (utf16 ''http://localhost:4000/api/pdf-preview/p1'')) world0))
     = Some (flipbook_success (utf16 ''https://online.flippingbook.com/view/abc/''))
   \<and> sent (fst (create_flipbook_from_url
          (env_of (\<lambda>k. if k = 0 then Inr pdf_response
                        else if k = 1 then Inr (create_response (Str (utf16 ''f1'')))
                        else if k = 4 then Inl (axios_error 503)
                        else Inr (status_response ''Processing'' ''abc'')))
          (Str (utf16 ''http://localhost:4000/api/pdf-preview/p1'')) world0))
     = Some (flipbook_failure (axios_error 503))"
proof -
  let ?p = "utf16 ''uploads/a''"
  let ?w = "world_with_file ?p 0"
  let ?u = "Str (utf16 ''http://localhost:4000/api/pdf-preview/p1'')"
  let ?f = "Str (utf16 ''f1'')"
  note defs = env_of_def world_with_file_def world0_def existsSync_def created_def
    downloaded_def pollNotReady_def notReady_def readyWith_def poll_state_def publication_of_def
    bindE_def create_response_def status_response_def pdf_response_def view_url_def utf16_def
  have a: "fst (create_flipbook_from_pdf
          (env_of (\<lambda>k. if k = 0 then Inr (create_response ?f)
                        else Inr (status_response ''Processing'' ''abc'')))
          (Some ?p) ?w) = responded (flipbook_failure timed_out)"
    using flipbook_polling_outcomes [where pdfPath = ?p and w = ?w and fid = ?f
        and e = "env_of (\<lambda>k. if k = 0 then Inr (create_response ?f)
                        else Inr (status_response ''Processing'' ''abc''))"]
    by (auto simp: defs)
  have b: "fst (create_flipbook_from_pdf
          (env_of (\<lambda>k. if k = 0 then Inr (create_response ?f)
                        else if k = 3 then Inr (status_response ''Ready'' ''abc'')
                        else Inr (status_response ''Processing'' ''abc'')))
          (Some ?p) ?w)
     = responded (flipbook_success (utf16 ''https://online.flippingbook.com/view/abc/''))"
    using flipbook_polling_outcomes [where pdfPath = ?p and w = ?w and fid = ?f and n = 2
        and sr = "status_response ''Ready'' ''abc''" and h = "Str (utf16 ''abc'')"
        and e = "env_of (\<lambda>k. if k = 0 then Inr (create_response ?f)
                        else if k = 3 then Inr (status_response ''Ready'' ''abc'')
                        else Inr (status_response ''Processing'' ''abc''))"]
    by (auto simp: defs)
  have c: "fst (create_flipbook_from_pdf
          (env_of (\<lambda>k. if k = 0 then Inr (create_response ?f)
                        else if k = 3 then Inl (axios_error 503)
                        else Inr (status_response ''Processing'' ''abc'')))
          (Some ?p) ?w) = responded (flipbook_failure (axios_error 503))"
    using flipbook_polling_outcomes [where pdfPath = ?p and w = ?w and fid = ?f and n = 2
        and err = "axios_error 503"
        and e = "env_of (\<lambda>k. if k = 0 then Inr (create_response ?f)
                        else if k = 3 then Inl (axios_error 503)
                        else Inr (status_response ''Processing'' ''abc''))"]
    by (auto simp: defs)
  have d: "sent (fst (create_flipbook_from_url
          (env_of (\<lambda>k. if k = 0 then Inr pdf_response
                        else if k = 1 then Inr (create_response ?f)
                        else Inr (status_response ''Processing'' ''abc'')))
          ?u world0)) = Some (flipbook_failure timed_out)"
    using flipbook_polling_outcomes [where previewUrl = ?u and w = world0 and fid = ?f
        and e = "env_of (\<lambda>k. if k = 0 then Inr pdf_response
                        else if k = 1 then Inr (create_response ?f)
                        else Inr (status_response ''Processing'' ''abc''))"]
    by (auto simp: defs)
  have e: "sent (fst (create_flipbook_from_url
          (env_of (\<lambda>k. if k = 0 then Inr pdf_response
                        else if k = 1 then Inr (create_response ?f)
                        else if k = 4 then Inr (status_response ''Ready'' ''abc'')
                        else Inr (status_response ''Processing'' ''abc'')))
          ?u world0))
     = Some (flipbook_success (utf16 ''https://online.flippingbook.com/view/abc/''))"
    using flipbook_polling_outcomes [where previewUrl = ?u and w = world0 and fid = ?f and n = 2
        and sr = "status_response ''Ready'' ''abc''" and h = "Str (utf16 ''abc'')"
        and e = "env_of (\<lambda>k. if k = 0 then Inr pdf_response
                        else if k = 1 then Inr (create_response ?f)
                        else if k = 4 then Inr (status_response ''Ready'' ''abc'')
                        else Inr (status_response ''Processing'' ''abc''))"]
    by (auto simp: defs)
  have f: "sent (fst (create_flipbook_from_url
          (env_of (\<lambda>k. if k = 0 then Inr pdf_response
                        else if k = 1 then Inr (create_response ?f)
                        else if k = 4 then Inl (axios_error 503)
                        else Inr (status_response ''Processing'' ''abc'')))
          ?u world0)) = Some (flipbook_failure (axios_error 503))"
    using flipbook_polling_outcomes [where previewUrl = ?u and w = world0 and fid = ?f and n = 2
        and err = "axios_error 503"
        and e = "env_of (\<lambda>k. if k = 0 then Inr pdf_response
                        else if k = 1 then Inr (create_response ?f)
                        else if k = 4 then Inl (axios_error 503)
                        else Inr (status_response ''Processing'' ''abc''))"]
    by (auto simp: defs)
  from a b c d e f show ?thesis by simp
qed

text \<open>
  Claim C2, as the specification states it, fails on a run in which no poll returns
  "Ready" because the poll fails: the first status request is rejected with a 503, and
  the handler answers with that failure, which is not the timeout, after one poll.
\<close>

theorem flipbook_poll_failure_counterexample:
  "fst (create_flipbook_from_pdf
          (env_of (\<lambda>k. if k = 0 then Inr (create_response (Str (utf16 ''f1'')))
                        else Inl (axios_error 503)))
          (Some (utf16 ''uploads/a'')) (world_with_file (utf16 ''uploads/a'') 0))
     = responded (flipbook_failure (axios_error 503))
   \<and> trace (snd (create_flipbook_from_pdf
          (env_of (\<lambda>k. if k = 0 then Inr (create_response (Str (utf16 ''f1'')))
                        else Inl (axios_error 503)))
          (Some (utf16 ''uploads/a'')) (world_with_file (utf16 ''uploads/a'') 0)))
     = [Http POST (FLIPBOOK_API_URL @ utf16 ''create''), Sleep 5000,
        Http GET (FLIPBOOK_API_URL @ utf16 ''f1'')]
   \<and> flipbook_failure (axios_error 503) \<noteq> flipbook_failure timed_out"
proof -
  let ?e = "env_of (\<lambda>k. if k = 0 then Inr (create_response (Str (utf16 ''f1'')))
                        else Inl (axios_error 503))"
  let ?p = "utf16 ''uploads/a''"
  let ?w = "world_with_file ?p 0"
  have ex: "existsSync ?p ?w" by (simp add: existsSync_def world_with_file_def world0_def)
  have cr: "created ?e (calls ?w) (Str (utf16 ''f1''))"
    by (simp add: created_def env_of_def create_response_def world_with_file_def world0_def utf16_def)
  have th: "net ?e (Suc (calls ?w) + 0) = Inl (axios_error 503)"
    by (simp add: env_of_def)
  from submit_throw [OF cr _ _ th, of False]
  obtain w' where r: "flipbook_reply (submitFlipbook ?e False ?w) = (flipbook_failure (axios_error 503), w')"
    and t: "trace w' = trace ?w @ Http POST (FLIPBOOK_API_URL @ utf16 ''create'') #
        poll_events (Str (utf16 ''f1'')) (Suc 0)"
    by auto
  have "trace ?w = []" by (simp add: world_with_file_def world0_def)
  with r t ex have "fst (create_flipbook_from_pdf ?e (Some ?p) ?w) = responded (flipbook_failure (axios_error 503))"
    and "trace (snd (create_flipbook_from_pdf ?e (Some ?p) ?w))
     = [Http POST (FLIPBOOK_API_URL @ utf16 ''create''), Sleep 5000,
        Http GET (FLIPBOOK_API_URL @ utf16 ''f1'')]"
    by (simp_all add: from_pdf_handler poll_events_def)
  moreover have "flipbook_failure (axios_error 503) \<noteq> flipbook_failure timed_out"
    by (simp add: flipbook_failure_def axios_error_def timed_out_def new_Error_def utf16_def)
  ultimately show ?thesis by simp
qed

text \<open>
  A status response without a publication: \<open>/api/create-flipbook-from-pdf\<close> takes it
  for "not ready" and polls on; \<open>/api/create-flipbook-from-url\<close> reads the state to log
  it before it tests the publication, and ends with the \<open>TypeError\<close> of that read.
\<close>

lemma from_url_missing_publication:
  "pollFlipbook (env_of (\<lambda>k. Inr (Obj [(utf16 ''data'', Obj [])]))) True (Str (utf16 ''f1'')) 0 world0 =
     (Inl (cannot_read Undefined (utf16 ''state'')),
      world0\<lparr>calls := 1, trace := [Sleep 5000, Http GET (FLIPBOOK_API_URL @ utf16 ''f1'')]\<rparr>)
   \<and> fst (pollFlipbook (env_of (\<lambda>k. Inr (Obj [(utf16 ''data'', Obj [])]))) False (Str (utf16 ''f1'')) 0 world0)
     = Inr None"
  by (simp add: pollFlipbook.simps request_def delay_def env_of_def world0_def publication_of_def
      bindE_def)

text \<open>
  Claim C7 on \<open>/api/create-flipbook-from-url\<close>: whenever the preview has been downloaded
  and saved, the temporary file is still there when the handler ends, whatever came
  after, and the handler ends with the \<open>ReferenceError\<close> of its \<open>finally\<close> block.
\<close>

theorem from_url_temp_file_left:
  "truthy previewUrl \<and> downloaded e (calls w) \<longrightarrow>
     files (snd (create_flipbook_from_url e previewUrl w)) (tempFilePath e) = Some (now e)
     \<and> uncaught (fst (create_flipbook_from_url e previewUrl w)) =
         Some (ReferenceError (utf16 ''tempFilePath is not defined''))"
proof
  assume "truthy previewUrl \<and> downloaded e (calls w)"
  then obtain w1 where h: "create_flipbook_from_url e previewUrl w =
      (\<lparr>sent = Some (fst (flipbook_reply (submitFlipbook e True w1))),
        uncaught = Some (ReferenceError (utf16 ''tempFilePath is not defined''))\<rparr>,
       snd (flipbook_reply (submitFlipbook e True w1)))"
    and f1: "files w1 = (files w)(tempFilePath e \<mapsto> now e)"
    using from_url_handler [of previewUrl e w] by blast
  have "files (snd (flipbook_reply (submitFlipbook e True w1))) = files w1"
    by (simp add: flipbook_reply_files submitFlipbook_files)
  with h f1 show "files (snd (create_flipbook_from_url e previewUrl w)) (tempFilePath e) = Some (now e)
     \<and> uncaught (fst (create_flipbook_from_url e previewUrl w)) =
         Some (ReferenceError (utf16 ''tempFilePath is not defined''))"
    by simp
qed

text \<open>
  Witness for C7: a run of \<open>/api/create-flipbook-from-url\<close> that succeeds at its first
  poll leaves \<open>/app/temp/temp-0.pdf\<close> behind.
\<close>

theorem from_url_temp_file_left_witness:
  "files (snd (create_flipbook_from_url
          (env_of (\<lambda>k. if k = 0 then Inr pdf_response
                        else if k = 1 then Inr (create_response (Str (utf16 ''f1'')))
                        else Inr (status_response ''Ready'' ''abc'')))
          (Str (utf16 ''http://localhost:4000/api/pdf-preview/p1'')) world0))
       (utf16 ''/app/temp/temp-0.pdf'') = Some 0
   \<and> uncaught (fst (create_flipbook_from_url
          (env_of (\<lambda>k. if k = 0 then Inr pdf_response
                        else if k = 1 then Inr (create_response (Str (utf16 ''f1'')))
                        else Inr (status_response ''Ready'' ''abc'')))
          (Str (utf16 ''http://localhost:4000/api/pdf-preview/p1'')) world0))
       = Some (ReferenceError (utf16 ''tempFilePath is not defined''))"
  using from_url_temp_file_left [where previewUrl = "Str (utf16 ''http://localhost:4000/api/pdf-preview/p1'')"
      and w = world0
      and e = "env_of (\<lambda>k. if k = 0 then Inr pdf_response
                        else if k = 1 then Inr (create_response (Str (utf16 ''f1'')))
                        else Inr (status_response ''Ready'' ''abc''))"]
  by (simp add: env_of_def world0_def downloaded_def pdf_response_def bindE_def tempFilePath_def
      path_join_def Number_toString_def dec_nat.simps utf16_def)

section \<open>Preview store: properties\<close>

lemma sweep_files_None: "files w p = None \<Longrightarrow> files (snd (sweep now_ms es w)) p = None"
proof (induction es arbitrary: w)
  case Nil
  then show ?case by simp
next
  case (Cons entry es)
  obtain k q where entry: "entry = (k, q)" by (cases entry)
  show ?case
  proof (cases "files w q")
    case None
    with Cons.prems entry show ?thesis by (simp add: statSync_def)
  next
    case (Some m)
    let ?w1 = "w\<lparr>files := (files w)(q := None),
                  pdfPreviews := AList.delete k (pdfPreviews w)\<rparr>"
    have "files ?w1 p = None" using Cons.prems by simp
    from Cons.IH [OF this] Cons.IH [OF Cons.prems] Some entry
    show ?thesis by (simp add: statSync_def unlinkSync_def existsSync_def)
  qed
qed

lemma sweep_previews_None:
  "map_of (pdfPreviews w) k = None \<Longrightarrow> map_of (pdfPreviews (snd (sweep now_ms es w))) k = None"
proof (induction es arbitrary: w)
  case Nil
  then show ?case by simp
next
  case (Cons entry es)
  obtain k' q where entry: "entry = (k', q)" by (cases entry)
  show ?case
  proof (cases "files w q")
    case None
    with Cons.prems entry show ?thesis by (simp add: statSync_def)
  next
    case (Some m)
    let ?w1 = "w\<lparr>files := (files w)(q := None),
                  pdfPreviews := AList.delete k' (pdfPreviews w)\<rparr>"
    have "map_of (pdfPreviews ?w1) k = None" using Cons.prems by (simp add: delete_conv')
    from Cons.IH [OF this] Cons.IH [OF Cons.prems] Some entry
    show ?thesis by (simp add: statSync_def unlinkSync_def existsSync_def)
  qed
qed

lemma sweep_missing_fails:
  "(k, p) \<in> set es \<Longrightarrow> files w p = None \<Longrightarrow> isl (fst (sweep now_ms es w))"
proof (induction es arbitrary: w)
  case Nil
  then show ?case by simp
next
  case (Cons entry es)
  obtain k' q where entry: "entry = (k', q)" by (cases entry)
  show ?case
  proof (cases "files w q")
    case None
    with entry show ?thesis by (simp add: statSync_def)
  next
    case (Some m)
    with Cons.prems(2) have "q \<noteq> p" by auto
    with Cons.prems(1) entry have mem: "(k, p) \<in> set es" by auto
    let ?w1 = "w\<lparr>files := (files w)(q := None),
                  pdfPreviews := AList.delete k' (pdfPreviews w)\<rparr>"
    have "files ?w1 p = None" using Cons.prems(2) by simp
    from Cons.IH [OF mem this] Cons.IH [OF mem Cons.prems(2)] Some entry
    show ?thesis by (simp add: statSync_def unlinkSync_def existsSync_def)
  qed
qed

lemma sweep_removes:
  "(k, p) \<in> set es \<Longrightarrow> files w p = Some t \<Longrightarrow> now_ms - t > 3600000 \<Longrightarrow>
   fst (sweep now_ms es w) = Inr () \<Longrightarrow>
   map_of (pdfPreviews (snd (sweep now_ms es w))) k = None \<and> files (snd (sweep now_ms es w)) p = None"
proof (induction es arbitrary: w)
  case Nil
  then show ?case by simp
next
  case (Cons entry es)
  obtain k' q where entry: "entry = (k', q)" by (cases entry)
  show ?case
  proof (cases "files w q")
    case None
    with Cons.prems(4) entry show ?thesis by (simp add: statSync_def)
  next
    case (Some m)
    let ?w1 = "w\<lparr>files := (files w)(q := None),
                  pdfPreviews := AList.delete k' (pdfPreviews w)\<rparr>"
    show ?thesis
    proof (cases "now_ms - m > 3600000")
      case old: True
      then have step: "sweep now_ms (entry # es) w = sweep now_ms es ?w1"
        using Some entry by (simp add: statSync_def unlinkSync_def existsSync_def)
      show ?thesis
      proof (cases "q = p")
        case True
        show ?thesis
        proof (cases "k' = k")
          case True
          have "map_of (pdfPreviews ?w1) k = None" using True by (simp add: delete_conv')
          moreover have "files ?w1 p = None" using \<open>q = p\<close> by simp
          ultimately show ?thesis
            unfolding step by (simp add: sweep_previews_None sweep_files_None)
        next
          case False
          with Cons.prems(1) entry have mem: "(k, p) \<in> set es" by auto
          have "files ?w1 p = None" using \<open>q = p\<close> by simp
          from sweep_missing_fails [OF mem this, of now_ms] Cons.prems(4)
          show ?thesis unfolding step by simp
        qed
      next
        case False
        with Cons.prems(1) entry have mem: "(k, p) \<in> set es" by auto
        have f: "files ?w1 p = Some t" using False Cons.prems(2) by simp
        from Cons.prems(4) have "fst (sweep now_ms es ?w1) = Inr ()" unfolding step .
        from Cons.IH [OF mem f Cons.prems(3) this] show ?thesis unfolding step .
      qed
    next
      case young: False
      then have step: "sweep now_ms (entry # es) w = sweep now_ms es w"
        using Some entry by (simp add: statSync_def)
      from young Some Cons.prems(2,3) have "q \<noteq> p" by auto
      with Cons.prems(1) entry have mem: "(k, p) \<in> set es" by auto
      from Cons.prems(4) have "fst (sweep now_ms es w) = Inr ()" unfolding step .
      from Cons.IH [OF mem Cons.prems(2,3) this] show ?thesis unfolding step .
    qed
  qed
qed

lemma sweep_keeps:
  "\<forall>q. (k, q) \<in> set es \<longrightarrow> q = p \<Longrightarrow> map_of (pdfPreviews w) k = Some p \<Longrightarrow>
   files w p = Some t \<Longrightarrow> now_ms - t \<le> 3600000 \<Longrightarrow>
   map_of (pdfPreviews (snd (sweep now_ms es w))) k = Some p \<and> files (snd (sweep now_ms es w)) p = Some t"
proof (induction es arbitrary: w)
  case Nil
  then show ?case by simp
next
  case (Cons entry es)
  obtain k' q where entry: "entry = (k', q)" by (cases entry)
  from Cons.prems(1) have rest: "\<forall>q. (k, q) \<in> set es \<longrightarrow> q = p" by auto
  show ?case
  proof (cases "files w q")
    case None
    with Cons.prems entry show ?thesis by (simp add: statSync_def)
  next
    case (Some m)
    let ?w1 = "w\<lparr>files := (files w)(q := None),
                  pdfPreviews := AList.delete k' (pdfPreviews w)\<rparr>"
    show ?thesis
    proof (cases "now_ms - m > 3600000")
      case old: True
      then have step: "sweep now_ms (entry # es) w = sweep now_ms es ?w1"
        using Some entry by (simp add: statSync_def unlinkSync_def existsSync_def)
      from old Some Cons.prems(3,4) have qp: "q \<noteq> p" by auto
      with Cons.prems(1) entry have kk: "k' \<noteq> k" by auto
      have m1: "map_of (pdfPreviews ?w1) k = Some p"
        using kk Cons.prems(2) by (simp add: delete_conv')
      have f1: "files ?w1 p = Some t" using qp Cons.prems(3) by simp
      from Cons.IH [OF rest m1 f1 Cons.prems(4)] show ?thesis unfolding step .
    next
      case False
      then have step: "sweep now_ms (entry # es) w = sweep now_ms es w"
        using Some entry by (simp add: statSync_def)
      from Cons.IH [OF rest Cons.prems(2,3,4)] show ?thesis unfolding step .
    qed
  qed
qed

lemma sweep_append:
  "fst (sweep now_ms xs w) = Inr () \<Longrightarrow>
   sweep now_ms (xs @ ys) w = sweep now_ms ys (snd (sweep now_ms xs w))"
proof (induction xs arbitrary: w)
  case Nil
  then show ?case by simp
next
  case (Cons entry xs)
  obtain k q where entry: "entry = (k, q)" by (cases entry)
  show ?case
  proof (cases "files w q")
    case None
    with Cons.prems entry show ?thesis by (simp add: statSync_def)
  next
    case (Some m)
    let ?w1 = "w\<lparr>files := (files w)(q := None),
                  pdfPreviews := AList.delete k (pdfPreviews w)\<rparr>"
    show ?thesis
    proof (cases "now_ms - m > 3600000")
      case True
      then have step: "\<And>zs. sweep now_ms (entry # zs) w = sweep now_ms zs ?w1"
        using Some entry by (simp add: statSync_def unlinkSync_def existsSync_def)
      from Cons.prems have "fst (sweep now_ms xs ?w1) = Inr ()" by (simp only: step)
      from Cons.IH [OF this] show ?thesis by (simp only: append_Cons step)
    next
      case False
      then have step: "\<And>zs. sweep now_ms (entry # zs) w = sweep now_ms zs w"
        using Some entry by (simp add: statSync_def)
      from Cons.prems have "fst (sweep now_ms xs w) = Inr ()" by (simp only: step)
      from Cons.IH [OF this] show ?thesis by (simp only: append_Cons step)
    qed
  qed
qed

lemma sweep_files_Some:
  "files (snd (sweep now_ms es w)) p = Some t \<Longrightarrow> files w p = Some t"
proof (induction es arbitrary: w)
  case Nil
  then show ?case by simp
next
  case (Cons entry es)
  obtain k q where entry: "entry = (k, q)" by (cases entry)
  show ?case
  proof (cases "files w q")
    case None
    with Cons.prems entry show ?thesis by (simp add: statSync_def)
  next
    case (Some m)
    let ?w1 = "w\<lparr>files := (files w)(q := None),
                  pdfPreviews := AList.delete k (pdfPreviews w)\<rparr>"
    show ?thesis
    proof (cases "now_ms - m > 3600000")
      case True
      then have step: "sweep now_ms (entry # es) w = sweep now_ms es ?w1"
        using Some entry by (simp add: statSync_def unlinkSync_def existsSync_def)
      from Cons.prems have "files (snd (sweep now_ms es ?w1)) p = Some t" unfolding step .
      from Cons.IH [OF this] show ?thesis by (simp split: if_splits)
    next
      case False
      then have step: "sweep now_ms (entry # es) w = sweep now_ms es w"
        using Some entry by (simp add: statSync_def)
      from Cons.prems Cons.IH show ?thesis unfolding step by blast
    qed
  qed
qed

text \<open>A sweep over entries that all have their file, at paths all different, does not fail.\<close>

lemma sweep_completes:
  "\<forall>(k, p) \<in> set es. files w p \<noteq> None \<Longrightarrow> distinct (map snd es) \<Longrightarrow>
   fst (sweep now_ms es w) = Inr ()"
proof (induction es arbitrary: w)
  case Nil
  then show ?case by simp
next
  case (Cons entry es)
  obtain k q where entry: "entry = (k, q)" by (cases entry)
  from Cons.prems(1) entry obtain m where Some: "files w q = Some m" by auto
  from Cons.prems(2) entry have d: "distinct (map snd es)" and nq: "q \<notin> snd ` set es" by auto
  let ?w1 = "w\<lparr>files := (files w)(q := None),
                pdfPreviews := AList.delete k (pdfPreviews w)\<rparr>"
  have all0: "\<forall>(k, p) \<in> set es. files w p \<noteq> None" using Cons.prems(1) by auto
  have all1: "\<forall>(k, p) \<in> set es. files ?w1 p \<noteq> None"
  proof
    fix x assume mem: "x \<in> set es"
    obtain k' p where x: "x = (k', p)" by (cases x)
    from mem x nq have "p \<noteq> q" by force
    moreover from all0 mem x have "files w p \<noteq> None" by auto
    ultimately show "case x of (k, p) \<Rightarrow> files ?w1 p \<noteq> None" using x by simp
  qed
  show ?case
  proof (cases "now_ms - m > 3600000")
    case True
    then have "sweep now_ms (entry # es) w = sweep now_ms es ?w1"
      using Some entry by (simp add: statSync_def unlinkSync_def existsSync_def)
    with Cons.IH [OF all1 d] show ?thesis by simp
  next
    case False
    then have "sweep now_ms (entry # es) w = sweep now_ms es w"
      using Some entry by (simp add: statSync_def)
    with Cons.IH [OF all0 d] show ?thesis by simp
  qed
qed

lemma sweep_previews_untouched:
  "k \<notin> fst ` set es \<Longrightarrow> map_of (pdfPreviews (snd (sweep now_ms es w))) k = map_of (pdfPreviews w) k"
proof (induction es arbitrary: w)
  case Nil
  then show ?case by simp
next
  case (Cons entry es)
  obtain k' q where entry: "entry = (k', q)" by (cases entry)
  with Cons.prems have ne: "k' \<noteq> k" and rest: "k \<notin> fst ` set es" by auto
  let ?w1 = "w\<lparr>files := (files w)(q := None),
                pdfPreviews := AList.delete k' (pdfPreviews w)\<rparr>"
  have "map_of (pdfPreviews ?w1) k = map_of (pdfPreviews w) k"
    using ne by (simp add: delete_conv')
  with Cons.IH [OF rest, of ?w1] Cons.IH [OF rest, of w] entry
  show ?case
    by (simp add: statSync_def unlinkSync_def existsSync_def split: option.splits)
qed

lemma sweep_files_untouched:
  "p \<notin> snd ` set es \<Longrightarrow> files (snd (sweep now_ms es w)) p = files w p"
proof (induction es arbitrary: w)
  case Nil
  then show ?case by simp
next
  case (Cons entry es)
  obtain k' q where entry: "entry = (k', q)" by (cases entry)
  with Cons.prems have ne: "q \<noteq> p" and rest: "p \<notin> snd ` set es" by auto
  let ?w1 = "w\<lparr>files := (files w)(q := None),
                pdfPreviews := AList.delete k' (pdfPreviews w)\<rparr>"
  have "files ?w1 p = files w p" using ne by simp
  with Cons.IH [OF rest, of ?w1] Cons.IH [OF rest, of w] entry
  show ?case
    by (simp add: statSync_def unlinkSync_def existsSync_def split: option.splits)
qed

lemma sweep_stops:
  assumes "fst (sweep now_ms before w) = Inr ()"
    and "files (snd (sweep now_ms before w)) path = None"
  shows "sweep now_ms (before @ (previewId, path) # after) w =
    (Inl (ENOENT ''stat'' path), snd (sweep now_ms before w))"
  using assms(2) by (simp add: sweep_append [OF assms(1)] statSync_def)

lemma previews_set_distinct:
  "distinct (map fst (pdfPreviews w)) \<Longrightarrow> distinct (map fst (pdfPreviews (previews_set k p w)))"
  by (simp add: previews_set_def distinct_update)

lemma sweep_distinct:
  "distinct (map fst (pdfPreviews w)) \<Longrightarrow> distinct (map fst (pdfPreviews (snd (sweep now_ms es w))))"
proof (induction es arbitrary: w)
  case Nil
  then show ?case by simp
next
  case (Cons entry es)
  obtain k q where entry: "entry = (k, q)" by (cases entry)
  let ?w1 = "w\<lparr>files := (files w)(q := None),
                pdfPreviews := AList.delete k (pdfPreviews w)\<rparr>"
  have "distinct (map fst (pdfPreviews ?w1))" using Cons.prems by (simp add: distinct_delete)
  from Cons.IH [OF this] Cons.IH [OF Cons.prems] entry Cons.prems
  show ?case
    by (simp add: statSync_def unlinkSync_def existsSync_def split: option.splits)
qed

lemma sweep_reaches_and_removes:
  assumes "fst (sweep now_ms before w) = Inr ()"
    and "files (snd (sweep now_ms before w)) path = Some t" and "now_ms - t > 3600000"
  shows "map_of (pdfPreviews (snd (sweep now_ms (before @ (k, path) # after) w))) k = None
    \<and> files (snd (sweep now_ms (before @ (k, path) # after) w)) path = None"
proof -
  let ?w1 = "snd (sweep now_ms before w)"
  let ?w2 = "?w1\<lparr>files := (files ?w1)(path := None),
                   pdfPreviews := AList.delete k (pdfPreviews ?w1)\<rparr>"
  have "sweep now_ms (before @ (k, path) # after) w = sweep now_ms ((k, path) # after) ?w1"
    by (rule sweep_append [OF assms(1)])
  also have "\<dots> = sweep now_ms after ?w2"
    using assms(2,3) by (simp add: statSync_def unlinkSync_def existsSync_def)
  finally have s: "sweep now_ms (before @ (k, path) # after) w = sweep now_ms after ?w2" .
  have "map_of (pdfPreviews ?w2) k = None" by (simp add: delete_conv')
  moreover have "files ?w2 path = None" by simp
  ultimately show ?thesis
    unfolding s by (simp add: sweep_previews_None sweep_files_None)
qed

text \<open>
  Claim C4, as the code has it. A preview registered under an identifier with a path
  that is not empty is served under that identifier; registered with the empty path it
  is answered 404, the handler taking an empty path for none. In a store whose keys are
  all different (as the keys of a \<open>Map\<close> are), a sweep made while the file is no older
  than an hour leaves the entry and the file as they are, whatever else it does. A sweep
  made when the file is older than an hour removes the entry and the file, and the
  handler then answers 404, when the sweep comes to the entry with its file in place:
  that is, when the sweep of the entries before it does not fail; this is so when those
  entries all have their files and the paths up to the entry are all different. What the
  sweep meets after the entry does not matter. The handler never throws.
\<close>

theorem preview_store_served_until_swept:
  "(pdfPath \<noteq> [] \<longrightarrow>
      pdf_preview_handler previewId (previews_set previewId pdfPath w) = responded (SendFile pdfPath))
   \<and> pdf_preview_handler previewId (previews_set previewId [] w) = responded preview_not_found
   \<and> (pdfPath \<noteq> [] \<and> distinct (map fst (pdfPreviews w))
       \<and> map_of (pdfPreviews w) previewId = Some pdfPath
       \<and> files w pdfPath = Some mtimeMs \<and> now e - mtimeMs \<le> 3600000 \<longrightarrow>
      pdf_preview_handler previewId (snd (cleanupPreviews e w)) = responded (SendFile pdfPath)
      \<and> files (snd (cleanupPreviews e w)) pdfPath = Some mtimeMs)
   \<and> (pdfPreviews w = before @ (previewId, pdfPath) # after
       \<and> fst (sweep (now e) before w) = Inr ()
       \<and> files (snd (sweep (now e) before w)) pdfPath = Some mtimeMs
       \<and> now e - mtimeMs > 3600000 \<longrightarrow>
      pdf_preview_handler previewId (snd (cleanupPreviews e w)) = responded preview_not_found
      \<and> files (snd (cleanupPreviews e w)) pdfPath = None)
   \<and> (pdfPreviews w = before @ (previewId, pdfPath) # after
       \<and> (\<forall>(k, p) \<in> set before. files w p \<noteq> None)
       \<and> distinct (map snd before) \<and> pdfPath \<notin> snd ` set before
       \<and> files w pdfPath = Some mtimeMs \<and> now e - mtimeMs > 3600000 \<longrightarrow>
      pdf_preview_handler previewId (snd (cleanupPreviews e w)) = responded preview_not_found
      \<and> files (snd (cleanupPreviews e w)) pdfPath = None)
   \<and> uncaught (pdf_preview_handler previewId w) = None
   \<and> previewPdfPath e previewId \<noteq> []
   \<and> preview_not_found = Json 404 (Obj [(utf16 ''error'', Str (utf16 ''PDF preview not found''))])"
proof (intro conjI impI)
  assume "pdfPath \<noteq> []"
  then show "pdf_preview_handler previewId (previews_set previewId pdfPath w) = responded (SendFile pdfPath)"
    by (simp add: pdf_preview_handler_def previews_set_def update_conv')
next
  show "pdf_preview_handler previewId (previews_set previewId [] w) = responded preview_not_found"
    by (simp add: pdf_preview_handler_def previews_set_def update_conv')
next
  assume a: "pdfPath \<noteq> [] \<and> distinct (map fst (pdfPreviews w))
       \<and> map_of (pdfPreviews w) previewId = Some pdfPath
       \<and> files w pdfPath = Some mtimeMs \<and> now e - mtimeMs \<le> 3600000"
  then have "\<forall>q. (previewId, q) \<in> set (pdfPreviews w) \<longrightarrow> q = pdfPath"
    by (auto dest: map_of_is_SomeI)
  with a have k: "map_of (pdfPreviews (snd (cleanupPreviews e w))) previewId = Some pdfPath
      \<and> files (snd (cleanupPreviews e w)) pdfPath = Some mtimeMs"
    unfolding cleanupPreviews_def by (intro sweep_keeps) simp_all
  with a show "pdf_preview_handler previewId (snd (cleanupPreviews e w)) = responded (SendFile pdfPath)"
    by (simp add: pdf_preview_handler_def)
  from k show "files (snd (cleanupPreviews e w)) pdfPath = Some mtimeMs" by simp
next
  assume a: "pdfPreviews w = before @ (previewId, pdfPath) # after
       \<and> fst (sweep (now e) before w) = Inr ()
       \<and> files (snd (sweep (now e) before w)) pdfPath = Some mtimeMs
       \<and> now e - mtimeMs > 3600000"
  then have r: "map_of (pdfPreviews (snd (cleanupPreviews e w))) previewId = None
      \<and> files (snd (cleanupPreviews e w)) pdfPath = None"
    using sweep_reaches_and_removes [of "now e" before w pdfPath mtimeMs previewId after]
    by (simp add: cleanupPreviews_def)
  then show "pdf_preview_handler previewId (snd (cleanupPreviews e w)) = responded preview_not_found"
    by (simp add: pdf_preview_handler_def)
  from r show "files (snd (cleanupPreviews e w)) pdfPath = None" by simp
next
  assume a: "pdfPreviews w = before @ (previewId, pdfPath) # after
       \<and> (\<forall>(k, p) \<in> set before. files w p \<noteq> None)
       \<and> distinct (map snd before) \<and> pdfPath \<notin> snd ` set before
       \<and> files w pdfPath = Some mtimeMs \<and> now e - mtimeMs > 3600000"
  then have c: "fst (sweep (now e) before w) = Inr ()" by (simp add: sweep_completes)
  from a have f: "files (snd (sweep (now e) before w)) pdfPath = Some mtimeMs"
    by (simp add: sweep_files_untouched)
  from a have r: "map_of (pdfPreviews (snd (cleanupPreviews e w))) previewId = None
      \<and> files (snd (cleanupPreviews e w)) pdfPath = None"
    using sweep_reaches_and_removes [OF c f, of previewId after]
    by (simp add: cleanupPreviews_def)
  then show "pdf_preview_handler previewId (snd (cleanupPreviews e w)) = responded preview_not_found"
    by (simp add: pdf_preview_handler_def)
  from r show "files (snd (cleanupPreviews e w)) pdfPath = None" by simp
next
  show "uncaught (pdf_preview_handler previewId w) = None"
    by (simp add: pdf_preview_handler_def responded_def split: option.splits)
  show "previewPdfPath e previewId \<noteq> []"
    by (simp add: previewPdfPath_def path_join_def utf16_def)
  show "preview_not_found = Json 404 (Obj [(utf16 ''error'', Str (utf16 ''PDF preview not found''))])"
    by (simp add: preview_not_found_def)
qed

text \<open>
  Witness for C4: the preview \<open>b\<close> is served once registered; a sweep one second after
  its file was written keeps it; a sweep an hour and a millisecond after removes it, in
  the store of \<open>b\<close> alone, and also in the store where \<open>b\<close> stands between \<open>a\<close>, whose
  file is there, and \<open>c\<close>, whose file is missing: that sweep throws at \<open>c\<close>, after it
  has removed \<open>b\<close>.
\<close>

theorem preview_store_served_until_swept_witness:
  "pdf_preview_handler (utf16 ''b'') (previews_set (utf16 ''b'') preview_b world0)
     = responded (SendFile preview_b)
   \<and> pdf_preview_handler (utf16 ''b'') (snd (cleanupPreviews (env_at 1000) store_b))
     = responded (SendFile preview_b)
   \<and> files (snd (cleanupPreviews (env_at 1000) store_b)) preview_b = Some 0
   \<and> pdf_preview_handler (utf16 ''b'') (snd (cleanupPreviews (env_at 3600001) store_b))
     = responded preview_not_found
   \<and> files (snd (cleanupPreviews (env_at 3600001) store_b)) preview_b = None
   \<and> pdf_preview_handler (utf16 ''b'') (snd (cleanupPreviews (env_at 3600001) store_lost_c))
     = responded preview_not_found
   \<and> files (snd (cleanupPreviews (env_at 3600001) store_lost_c)) preview_b = None
   \<and> isl (fst (cleanupPreviews (env_at 3600001) store_lost_c))"
proof -
  have ne: "preview_b \<noteq> []" by (simp add: preview_b_def utf16_def)
  have s: "pdfPreviews store_b = [(utf16 ''b'', preview_b)]" "files store_b preview_b = Some 0"
    by (simp_all add: store_b_def world0_def)
  have n: "now (env_at 1000) = 1000" "now (env_at 3600001) = 3600001"
    by (simp_all add: env_at_def env_of_def)
  note t = preview_store_served_until_swept [where pdfPath = preview_b and previewId = "utf16 ''b''"
      and mtimeMs = 0 and before = "[]" and after = "[]"]
  from t [where w = world0] ne
  have a: "pdf_preview_handler (utf16 ''b'') (previews_set (utf16 ''b'') preview_b world0)
     = responded (SendFile preview_b)" by simp
  from t [where w = store_b and e = "env_at 1000"] ne s n
  have b: "pdf_preview_handler (utf16 ''b'') (snd (cleanupPreviews (env_at 1000) store_b))
     = responded (SendFile preview_b)
     \<and> files (snd (cleanupPreviews (env_at 1000) store_b)) preview_b = Some 0" by simp
  from t [where w = store_b and e = "env_at 3600001"] s n
  have c: "pdf_preview_handler (utf16 ''b'') (snd (cleanupPreviews (env_at 3600001) store_b))
     = responded preview_not_found
     \<and> files (snd (cleanupPreviews (env_at 3600001) store_b)) preview_b = None" by simp
  have ab: "preview_a \<noteq> preview_b" by (simp add: preview_a_def preview_b_def utf16_def)
  have s3: "pdfPreviews store_lost_c = [(utf16 ''a'', preview_a)] @ (utf16 ''b'', preview_b) # [(utf16 ''c'', preview_c)]"
    "files store_lost_c preview_a = Some 0" "files store_lost_c preview_b = Some 0"
    using ab by (simp_all add: store_lost_c_def world0_def)
  from preview_store_served_until_swept [where pdfPath = preview_b and previewId = "utf16 ''b''"
      and mtimeMs = 0 and before = "[(utf16 ''a'', preview_a)]" and after = "[(utf16 ''c'', preview_c)]"
      and w = store_lost_c and e = "env_at 3600001"] s3 n ab
  have d: "pdf_preview_handler (utf16 ''b'') (snd (cleanupPreviews (env_at 3600001) store_lost_c))
     = responded preview_not_found
     \<and> files (snd (cleanupPreviews (env_at 3600001) store_lost_c)) preview_b = None" by simp
  have f: "isl (fst (cleanupPreviews (env_at 3600001) store_lost_c))"
    by (simp add: cleanupPreviews_def statSync_def unlinkSync_def existsSync_def store_lost_c_def
        world0_def env_at_def env_of_def preview_a_def preview_b_def preview_c_def utf16_def)
  from a b c d f show ?thesis by simp
qed

text \<open>
  Claim C4, as the specification states it, fails. The preview \<open>b\<close> is registered in a
  store whose earlier preview \<open>a\<close> has lost its file, and the sweep runs an hour and a
  millisecond after the file of \<open>b\<close> was written: the sweep throws at \<open>a\<close>, and
  afterwards \<open>b\<close> is still served and its file is still there. And a preview registered
  with the empty path is answered 404 at once.
\<close>

theorem preview_store_sweep_cut_short_counterexample:
  "isl (fst (cleanupPreviews (env_at 3600001) (previews_set (utf16 ''b'') preview_b store_lost_a)))
   \<and> pdf_preview_handler (utf16 ''b'')
        (snd (cleanupPreviews (env_at 3600001) (previews_set (utf16 ''b'') preview_b store_lost_a)))
       = responded (SendFile preview_b)
   \<and> files (snd (cleanupPreviews (env_at 3600001) (previews_set (utf16 ''b'') preview_b store_lost_a)))
        preview_b = Some 0
   \<and> now (env_at 3600001) - 0 > 3600000
   \<and> pdf_preview_handler (utf16 ''b'') (previews_set (utf16 ''b'') [] world0)
       = responded preview_not_found"
  by (simp add: cleanupPreviews_def statSync_def previews_set_def pdf_preview_handler_def
      store_lost_a_def world0_def env_at_def env_of_def preview_a_def preview_b_def utf16_def)

text \<open>
  Claim C9, as the code has it. A sweep that comes to an entry whose file is missing
  ends there with the error \<open>ENOENT\<close> of \<open>statSync\<close>: the error is thrown, not
  swallowed; the entries before it have been processed, and the entry itself and the
  entries after it are not. The entries a sweep has not come to keep their place in the
  map and their files. A sweep of a map whose entries all have their files, at paths all
  different, runs to its end.
\<close>

theorem sweep_stops_at_missing_file:
  "(pdfPreviews w = before @ (previewId, path) # after
      \<and> fst (sweep (now e) before w) = Inr ()
      \<and> files (snd (sweep (now e) before w)) path = None \<longrightarrow>
      cleanupPreviews e w = (Inl (ENOENT ''stat'' path), snd (sweep (now e) before w)))
   \<and> (k \<notin> fst ` set before \<longrightarrow>
      map_of (pdfPreviews (snd (sweep (now e) before w))) k = map_of (pdfPreviews w) k)
   \<and> (p \<notin> snd ` set before \<longrightarrow> files (snd (sweep (now e) before w)) p = files w p)
   \<and> ((\<forall>(k, p) \<in> set (pdfPreviews w). files w p \<noteq> None) \<and> distinct (map snd (pdfPreviews w)) \<longrightarrow>
      fst (cleanupPreviews e w) = Inr ())"
proof (intro conjI impI)
  assume "pdfPreviews w = before @ (previewId, path) # after
      \<and> fst (sweep (now e) before w) = Inr ()
      \<and> files (snd (sweep (now e) before w)) path = None"
  then show "cleanupPreviews e w = (Inl (ENOENT ''stat'' path), snd (sweep (now e) before w))"
    by (simp add: cleanupPreviews_def sweep_stops)
next
  assume "k \<notin> fst ` set before"
  then show "map_of (pdfPreviews (snd (sweep (now e) before w))) k = map_of (pdfPreviews w) k"
    by (rule sweep_previews_untouched)
next
  assume "p \<notin> snd ` set before"
  then show "files (snd (sweep (now e) before w)) p = files w p"
    by (rule sweep_files_untouched)
next
  assume "(\<forall>(k, p) \<in> set (pdfPreviews w). files w p \<noteq> None) \<and> distinct (map snd (pdfPreviews w))"
  then show "fst (cleanupPreviews e w) = Inr ()"
    by (simp add: cleanupPreviews_def sweep_completes)
qed

text \<open>
  Witness for C9: in the store of \<open>a\<close> and \<open>b\<close> the file of \<open>a\<close> is missing, and the
  sweep ends at \<open>a\<close> with the store as it was; the sweep of the store of \<open>b\<close> alone
  runs to its end.
\<close>

theorem sweep_stops_at_missing_file_witness:
  "cleanupPreviews (env_at 3600001) store_missing_a = (Inl (ENOENT ''stat'' preview_a), store_missing_a)
   \<and> map_of (pdfPreviews store_missing_a) (utf16 ''b'') = Some preview_b
   \<and> files store_missing_a preview_b = Some 0
   \<and> fst (cleanupPreviews (env_at 3600001) store_b) = Inr ()"
  using sweep_stops_at_missing_file [where w = store_missing_a and before = "[]"
      and previewId = "utf16 ''a''" and path = preview_a
      and after = "[(utf16 ''b'', preview_b)]" and e = "env_at 3600001"
      and k = "utf16 ''b''" and p = preview_b]
    sweep_stops_at_missing_file [where w = store_b and e = "env_at 3600001"]
  by (simp add: store_missing_a_def store_b_def world0_def preview_a_def preview_b_def utf16_def)

text \<open>
  Claim C9, as the specification states it, fails: with the file of \<open>a\<close> missing, the
  sweep made an hour and a millisecond after the file of \<open>b\<close> was written fails with
  the missing-file error, and \<open>b\<close>, which is due, is not processed: its entry and its
  file are still there.
\<close>

theorem sweep_missing_file_counterexample:
  "fst (cleanupPreviews (env_at 3600001) store_missing_a) = Inl (ENOENT ''stat'' preview_a)
   \<and> map_of (pdfPreviews (snd (cleanupPreviews (env_at 3600001) store_missing_a))) (utf16 ''b'')
       = Some preview_b
   \<and> files (snd (cleanupPreviews (env_at 3600001) store_missing_a)) preview_b = Some 0
   \<and> now (env_at 3600001) - 0 > 3600000"
  by (simp add: cleanupPreviews_def statSync_def store_missing_a_def world0_def env_at_def
      env_of_def preview_a_def preview_b_def utf16_def)

section \<open>Document assembler: properties\<close>

lemma truthy_getIndex_total: "v \<noteq> Undefined \<Longrightarrow> v \<noteq> Null \<Longrightarrow> \<exists>x. getIndex v i = Inr x"
  by (cases v) auto

lemma truthy_not_nullish: "truthy v \<Longrightarrow> v \<noteq> Undefined \<and> v \<noteq> Null"
  by (cases v) auto

lemma chapters_loop_total:
  "(\<And>i key w. key \<in> set keys \<Longrightarrow> \<not> isl (fst (body i key w))) \<Longrightarrow>
   \<not> isl (fst (chapters_loop body i keys w))"
proof (induction keys arbitrary: i w)
  case Nil
  then show ?case by simp
next
  case (Cons key keys)
  obtain r w1 where b: "body i key w = (r, w1)" by (cases "body i key w")
  from Cons.prems [of key i w] b obtain calls1 where r: "r = Inr calls1" by (cases r) auto
  have "\<not> isl (fst (chapters_loop body (Suc i) keys w1))"
    by (rule Cons.IH) (simp add: Cons.prems)
  then show ?case using b r
    by (auto split: prod.splits sum.splits)
qed

lemma dec_nat_0: "dec_nat 0 = utf16 ''0''"
  by (simp add: dec_nat.simps utf16_def)

text \<open>The image block of /api/generate-pdf never throws; a failure gives the placeholder.\<close>

lemma generate_pdf_image_failure:
  "fst (generate_pdf_image_try e imageUrl w) = Inl err \<Longrightarrow>
   fst (generate_pdf_image e imageUrl w) = image_placeholder"
  by (cases "generate_pdf_image_try e imageUrl w") (simp add: generate_pdf_image_def)

lemma generate_pdf_image_try_fetch:
  "fst (downloadImageToBuffer e imageUrl w) = Inl err \<Longrightarrow>
   fst (generate_pdf_image_try e imageUrl w) = Inl err"
  by (cases "downloadImageToBuffer e imageUrl w") (simp add: generate_pdf_image_try_def)

lemma generate_pdf_image_try_decode:
  "fst (downloadImageToBuffer e imageUrl w) = Inr buffer \<Longrightarrow>
   buffer = [] \<or> isl (sizeOf e buffer) \<or> \<not> pdf_image_ok e buffer \<Longrightarrow>
   isl (fst (generate_pdf_image_try e imageUrl w))"
  by (cases "downloadImageToBuffer e imageUrl w"; cases "sizeOf e buffer")
    (auto simp: generate_pdf_image_try_def bindE_def doc_image_def split: prod.splits)

lemma preview_image_failure:
  "fst (preview_image_try e imageUrl w) = Inl err \<Longrightarrow> fst (preview_image e imageUrl w) = []"
  by (cases "preview_image_try e imageUrl w") (simp add: preview_image_def)

lemma preview_image_try_fetch:
  "fst (downloadImageToBuffer e imageUrl w) = Inl err \<Longrightarrow>
   fst (preview_image_try e imageUrl w) = Inl err"
  by (cases "downloadImageToBuffer e imageUrl w") (simp add: preview_image_try_def)

lemma preview_image_try_decode:
  "fst (downloadImageToBuffer e imageUrl w) = Inr buffer \<Longrightarrow> buffer \<noteq> [] \<Longrightarrow>
   isl (sizeOf e buffer) \<or> \<not> pdf_image_ok e buffer \<Longrightarrow>
   isl (fst (preview_image_try e imageUrl w))"
  by (cases "downloadImageToBuffer e imageUrl w"; cases "sizeOf e buffer")
    (auto simp: preview_image_try_def bindE_def doc_image_def split: prod.splits)

lemma generate_pdf_chapter_shape:
  assumes "getIndex imageUrls i = Inr imageUrl" and "truthy imageUrl"
    and "prop_of storyData chapterKey = Str s"
  shows "fst (generate_pdf_chapter e storyData imageUrls n i chapterKey w) =
    Inr (heading_calls i (prop_of storyData (chapterKey @ utf16 ''Name'')) @
         body_calls (String_split [0x0A, 0x0A] s) @ [AddPage] @
         fst (generate_pdf_image e imageUrl w) @ page_break i n)"
  using assms
  by (cases "generate_pdf_image e imageUrl w") (simp add: generate_pdf_chapter_def Let_def)

lemma preview_chapter_shape:
  assumes "getIndex imageUrls i = Inr imageUrl" and "truthy imageUrl"
    and "prop_of storyData chapterKey = Str s"
  shows "fst (preview_chapter e storyData imageUrls n i chapterKey w) =
    Inr (heading_calls i (prop_of storyData (chapterKey @ utf16 ''Name'')) @
         body_calls (String_split [0x0A, 0x0A] s) @
         fst (preview_image e imageUrl w) @ page_break i n)"
  using assms
  by (cases "preview_image e imageUrl w") (simp add: preview_chapter_def Let_def)

lemma generate_pdf_chapter_total:
  assumes "imageUrls \<noteq> Undefined" and "imageUrls \<noteq> Null" and "prop_of storyData chapterKey = Str s"
  shows "\<not> isl (fst (generate_pdf_chapter e storyData imageUrls n i chapterKey w))"
proof -
  from truthy_getIndex_total [OF assms(1,2)] obtain u where "getIndex imageUrls i = Inr u" by blast
  with assms(3) show ?thesis
    by (auto simp: generate_pdf_chapter_def Let_def split: prod.splits)
qed

lemma preview_chapter_total:
  assumes "imageUrls \<noteq> Undefined" and "imageUrls \<noteq> Null" and "prop_of storyData chapterKey = Str s"
  shows "\<not> isl (fst (preview_chapter e storyData imageUrls n i chapterKey w))"
proof -
  from truthy_getIndex_total [OF assms(1,2)] obtain u where "getIndex imageUrls i = Inr u" by blast
  with assms(3) show ?thesis
    by (auto simp: preview_chapter_def Let_def split: prod.splits)
qed

lemma generate_pdf_handler_sends:
  assumes "truthy storyData" and "truthy imageUrls"
    and "\<forall>key \<in> set (chapterKeys storyData). \<exists>s. prop_of storyData key = Str s"
  shows "\<exists>chapters. sent (fst (generate_pdf_handler e storyData imageUrls storyName w)) =
    Some (SendPdf (title_calls storyName @ chapters))"
proof -
  let ?loop = "chapters_loop
      (generate_pdf_chapter e storyData imageUrls (length (chapterKeys storyData)))
      0 (chapterKeys storyData) w"
  from assms(2) have nn: "imageUrls \<noteq> Undefined" "imageUrls \<noteq> Null"
    using truthy_not_nullish by blast+
  have "\<not> isl (fst ?loop)"
  proof (rule chapters_loop_total)
    fix i key w'
    assume "key \<in> set (chapterKeys storyData)"
    with assms(3) obtain s where "prop_of storyData key = Str s" by blast
    from generate_pdf_chapter_total [OF nn this]
    show "\<not> isl (fst (generate_pdf_chapter e storyData imageUrls
        (length (chapterKeys storyData)) i key w'))" .
  qed
  then obtain chapters w1 where "?loop = (Inr chapters, w1)"
    by (cases ?loop; cases "fst ?loop") auto
  with assms(1,2) show ?thesis by (simp add: generate_pdf_handler_def responded_def)
qed

lemma preview_document_assembled:
  assumes "imageUrls \<noteq> Undefined" and "imageUrls \<noteq> Null"
    and "\<forall>key \<in> set (chapterKeys storyData). \<exists>s. prop_of storyData key = Str s"
  shows "\<exists>chapters. fst (preview_document e storyData imageUrls storyName w) =
    Inr (title_calls storyName @ chapters)"
proof -
  let ?loop = "chapters_loop
      (preview_chapter e storyData imageUrls (length (chapterKeys storyData)))
      0 (chapterKeys storyData) w"
  have "\<not> isl (fst ?loop)"
  proof (rule chapters_loop_total)
    fix i key w'
    assume "key \<in> set (chapterKeys storyData)"
    with assms(3) obtain s where "prop_of storyData key = Str s" by blast
    from preview_chapter_total [OF assms(1,2) this]
    show "\<not> isl (fst (preview_chapter e storyData imageUrls
        (length (chapterKeys storyData)) i key w'))" .
  qed
  then obtain chapters w1 where "?loop = (Inr chapters, w1)"
    by (cases ?loop; cases "fst ?loop") auto
  then show ?thesis by (simp add: preview_document_def)
qed

lemma download_fst_calls:
  "calls w1 = calls w2 \<Longrightarrow>
   fst (downloadImageToBuffer e u w1) = fst (downloadImageToBuffer e u w2)"
  by (simp add: downloadImageToBuffer_def request_def split: sum.splits)

lemma download_calls: "calls (snd (downloadImageToBuffer e u w)) = Suc (calls w)"
  by (simp add: downloadImageToBuffer_def request_def split: sum.splits)

lemma download_rejected:
  "net e (calls w) = Inl err \<Longrightarrow> fst (downloadImageToBuffer e u w) = Inl err"
  by (simp add: downloadImageToBuffer_def request_def)

lemma generate_pdf_image_fst_calls:
  assumes "calls w1 = calls w2"
  shows "fst (generate_pdf_image e u w1) = fst (generate_pdf_image e u w2)"
proof -
  have "fst (generate_pdf_image_try e u w1) = fst (generate_pdf_image_try e u w2)"
    using download_fst_calls [OF assms, of e u]
    by (cases "downloadImageToBuffer e u w1"; cases "downloadImageToBuffer e u w2")
      (auto simp: generate_pdf_image_try_def split: sum.splits)
  then show ?thesis
    by (cases "generate_pdf_image_try e u w1"; cases "generate_pdf_image_try e u w2")
      (auto simp: generate_pdf_image_def split: sum.splits)
qed

lemma generate_pdf_image_calls: "calls (snd (generate_pdf_image e u w)) = Suc (calls w)"
  using download_calls [of e u w]
  by (cases "downloadImageToBuffer e u w")
    (auto simp: generate_pdf_image_def generate_pdf_image_try_def split: sum.splits)

lemma preview_image_fst_calls:
  assumes "calls w1 = calls w2"
  shows "fst (preview_image e u w1) = fst (preview_image e u w2)"
proof -
  have "fst (preview_image_try e u w1) = fst (preview_image_try e u w2)"
    using download_fst_calls [OF assms, of e u]
    by (cases "downloadImageToBuffer e u w1"; cases "downloadImageToBuffer e u w2")
      (auto simp: preview_image_try_def split: sum.splits)
  then show ?thesis
    by (cases "preview_image_try e u w1"; cases "preview_image_try e u w2")
      (auto simp: preview_image_def split: sum.splits)
qed

lemma preview_image_calls: "calls (snd (preview_image e u w)) = Suc (calls w)"
  using download_calls [of e u w]
  by (cases "downloadImageToBuffer e u w")
    (auto simp: preview_image_def preview_image_try_def split: sum.splits)

lemma downloads_before_Suc:
  "downloads_before imageUrls (Suc k) =
     downloads_before imageUrls k + (if truthy (image_url imageUrls k) then 1 else 0)"
  by (simp add: downloads_before_def)

text \<open>
  The loop gives the sections in order, when each iteration gives its section and moves
  the count of requests from \<open>c i\<close> to \<open>c (Suc i)\<close>.
\<close>

lemma chapters_loop_sections:
  assumes step: "\<And>i wi. i < length keys \<Longrightarrow> calls wi = c i \<Longrightarrow>
      \<exists>wi'. body i (keys ! i) wi = (Inr (section i), wi') \<and> calls wi' = c (Suc i)"
  shows "i \<le> length keys \<Longrightarrow> calls wi = c i \<Longrightarrow>
    fst (chapters_loop body i (drop i keys) wi) = Inr (concat (map section [i..<length keys]))"
proof (induction "length keys - i" arbitrary: i wi)
  case 0
  then show ?case by simp
next
  case (Suc d)
  then have lt: "i < length keys" by simp
  from step [OF lt Suc.prems(2)] obtain wi' where b: "body i (keys ! i) wi = (Inr (section i), wi')"
    and c': "calls wi' = c (Suc i)" by blast
  have d: "drop i keys = keys ! i # drop (Suc i) keys" using lt by (simp add: Cons_nth_drop_Suc)
  from Suc.hyps(2) have "d = length keys - Suc i" by simp
  from Suc.hyps(1) [OF this _ c'] lt
  have ih: "fst (chapters_loop body (Suc i) (drop (Suc i) keys) wi') =
      Inr (concat (map section [Suc i..<length keys]))" by simp
  have "[i..<length keys] = i # [Suc i..<length keys]" using lt by (simp add: upt_conv_Cons)
  with ih b show ?case
    unfolding d
    by (cases "chapters_loop body (Suc i) (drop (Suc i) keys) wi'") simp
qed

lemma generate_pdf_chapter_section:
  assumes "imageUrls \<noteq> Undefined" and "imageUrls \<noteq> Null"
    and "\<exists>s. prop_of storyData (chapterKeys storyData ! i) = Str s"
    and "calls wi = calls w + downloads_before imageUrls i"
  shows "\<exists>wi'. generate_pdf_chapter e storyData imageUrls (length (chapterKeys storyData)) i
        (chapterKeys storyData ! i) wi
      = (Inr (generate_pdf_section e storyData imageUrls w i), wi')
    \<and> calls wi' = calls w + downloads_before imageUrls (Suc i)"
proof -
  from truthy_getIndex_total [OF assms(1,2)] obtain u where u: "getIndex imageUrls i = Inr u" by blast
  then have iu: "image_url imageUrls i = u" by (simp add: image_url_def)
  from assms(3) obtain s where s: "prop_of storyData (chapterKeys storyData ! i) = Str s" by blast
  then have ps: "chapter_paragraphs storyData (chapterKeys storyData ! i) = String_split [0x0A, 0x0A] s"
    by (simp add: chapter_paragraphs_def)
  show ?thesis
  proof (cases "truthy u")
    case True
    obtain pic w1 where g: "generate_pdf_image e u wi = (pic, w1)"
      by (cases "generate_pdf_image e u wi")
    have "calls (w\<lparr>calls := calls w + downloads_before imageUrls i\<rparr>) = calls wi"
      using assms(4) by simp
    from generate_pdf_image_fst_calls [OF this, of e u] g
    have pic: "fst (generate_pdf_image e u (w\<lparr>calls := calls w + downloads_before imageUrls i\<rparr>)) = pic"
      by simp
    from g have c1: "calls w1 = Suc (calls wi)" using generate_pdf_image_calls [of e u wi] by simp
    have "generate_pdf_chapter e storyData imageUrls (length (chapterKeys storyData)) i
        (chapterKeys storyData ! i) wi = (Inr (generate_pdf_section e storyData imageUrls w i), w1)"
      using u s True g pic iu ps
      by (simp add: generate_pdf_chapter_def generate_pdf_section_def Let_def)
    moreover have "calls w1 = calls w + downloads_before imageUrls (Suc i)"
      using c1 assms(4) True iu by (simp add: downloads_before_Suc)
    ultimately show ?thesis by blast
  next
    case False
    have "generate_pdf_chapter e storyData imageUrls (length (chapterKeys storyData)) i
        (chapterKeys storyData ! i) wi = (Inr (generate_pdf_section e storyData imageUrls w i), wi)"
      using u s False iu ps
      by (simp add: generate_pdf_chapter_def generate_pdf_section_def Let_def)
    moreover have "calls wi = calls w + downloads_before imageUrls (Suc i)"
      using assms(4) False iu by (simp add: downloads_before_Suc)
    ultimately show ?thesis by blast
  qed
qed

lemma preview_chapter_section:
  assumes "imageUrls \<noteq> Undefined" and "imageUrls \<noteq> Null"
    and "\<exists>s. prop_of storyData (chapterKeys storyData ! i) = Str s"
    and "calls wi = calls w + downloads_before imageUrls i"
  shows "\<exists>wi'. preview_chapter e storyData imageUrls (length (chapterKeys storyData)) i
        (chapterKeys storyData ! i) wi
      = (Inr (preview_section e storyData imageUrls w i), wi')
    \<and> calls wi' = calls w + downloads_before imageUrls (Suc i)"
proof -
  from truthy_getIndex_total [OF assms(1,2)] obtain u where u: "getIndex imageUrls i = Inr u" by blast
  then have iu: "image_url imageUrls i = u" by (simp add: image_url_def)
  from assms(3) obtain s where s: "prop_of storyData (chapterKeys storyData ! i) = Str s" by blast
  then have ps: "chapter_paragraphs storyData (chapterKeys storyData ! i) = String_split [0x0A, 0x0A] s"
    by (simp add: chapter_paragraphs_def)
  show ?thesis
  proof (cases "truthy u")
    case True
    obtain pic w1 where g: "preview_image e u wi = (pic, w1)"
      by (cases "preview_image e u wi")
    have "calls (w\<lparr>calls := calls w + downloads_before imageUrls i\<rparr>) = calls wi"
      using assms(4) by simp
    from preview_image_fst_calls [OF this, of e u] g
    have pic: "fst (preview_image e u (w\<lparr>calls := calls w + downloads_before imageUrls i\<rparr>)) = pic"
      by simp
    from g have c1: "calls w1 = Suc (calls wi)" using preview_image_calls [of e u wi] by simp
    have "preview_chapter e storyData imageUrls (length (chapterKeys storyData)) i
        (chapterKeys storyData ! i) wi = (Inr (preview_section e storyData imageUrls w i), w1)"
      using u s True g pic iu ps
      by (simp add: preview_chapter_def preview_section_def Let_def)
    moreover have "calls w1 = calls w + downloads_before imageUrls (Suc i)"
      using c1 assms(4) True iu by (simp add: downloads_before_Suc)
    ultimately show ?thesis by blast
  next
    case False
    have "preview_chapter e storyData imageUrls (length (chapterKeys storyData)) i
        (chapterKeys storyData ! i) wi = (Inr (preview_section e storyData imageUrls w i), wi)"
      using u s False iu ps
      by (simp add: preview_chapter_def preview_section_def Let_def)
    moreover have "calls wi = calls w + downloads_before imageUrls (Suc i)"
      using assms(4) False iu by (simp add: downloads_before_Suc)
    ultimately show ?thesis by blast
  qed
qed

lemma generate_pdf_document:
  assumes "truthy storyData" and "truthy imageUrls"
    and "\<forall>key \<in> set (chapterKeys storyData). \<exists>s. prop_of storyData key = Str s"
  shows "sent (fst (generate_pdf_handler e storyData imageUrls storyName w)) =
    Some (SendPdf (title_calls storyName @
      concat (map (generate_pdf_section e storyData imageUrls w) [0..<length (chapterKeys storyData)])))"
proof -
  let ?keys = "chapterKeys storyData"
  let ?body = "generate_pdf_chapter e storyData imageUrls (length ?keys)"
  from assms(2) have nn: "imageUrls \<noteq> Undefined" "imageUrls \<noteq> Null"
    using truthy_not_nullish by blast+
  have "fst (chapters_loop ?body 0 (drop 0 ?keys) w) =
      Inr (concat (map (generate_pdf_section e storyData imageUrls w) [0..<length ?keys]))"
  proof (rule chapters_loop_sections [where c = "\<lambda>i. calls w + downloads_before imageUrls i"])
    fix i and wi :: world assume i: "i < length ?keys" and c: "calls wi = calls w + downloads_before imageUrls i"
    from i assms(3) have "\<exists>s. prop_of storyData (?keys ! i) = Str s" by simp
    from generate_pdf_chapter_section [OF nn this c]
    show "\<exists>wi'. ?body i (?keys ! i) wi = (Inr (generate_pdf_section e storyData imageUrls w i), wi')
        \<and> calls wi' = calls w + downloads_before imageUrls (Suc i)" .
  qed (simp_all add: downloads_before_def)
  then show ?thesis
    using assms(1,2)
    by (cases "chapters_loop ?body 0 ?keys w")
      (simp add: generate_pdf_handler_def responded_def)
qed

lemma preview_document_sections:
  assumes "imageUrls \<noteq> Undefined" and "imageUrls \<noteq> Null"
    and "\<forall>key \<in> set (chapterKeys storyData). \<exists>s. prop_of storyData key = Str s"
  shows "fst (preview_document e storyData imageUrls storyName w) =
    Inr (title_calls storyName @
      concat (map (preview_section e storyData imageUrls w) [0..<length (chapterKeys storyData)]))"
proof -
  let ?keys = "chapterKeys storyData"
  let ?body = "preview_chapter e storyData imageUrls (length ?keys)"
  have "fst (chapters_loop ?body 0 (drop 0 ?keys) w) =
      Inr (concat (map (preview_section e storyData imageUrls w) [0..<length ?keys]))"
  proof (rule chapters_loop_sections [where c = "\<lambda>i. calls w + downloads_before imageUrls i"])
    fix i and wi :: world assume i: "i < length ?keys" and c: "calls wi = calls w + downloads_before imageUrls i"
    from i assms(3) have "\<exists>s. prop_of storyData (?keys ! i) = Str s" by simp
    from preview_chapter_section [OF assms(1,2) this c]
    show "\<exists>wi'. ?body i (?keys ! i) wi = (Inr (preview_section e storyData imageUrls w i), wi')
        \<and> calls wi' = calls w + downloads_before imageUrls (Suc i)" .
  qed (simp_all add: downloads_before_def)
  then show ?thesis
    by (cases "chapters_loop ?body 0 ?keys w") (simp add: preview_document_def)
qed

text \<open>The section of a chapter whose download is rejected.\<close>

lemma section_download_rejected:
  assumes "truthy (image_url imageUrls k)"
    and "net e (calls w + downloads_before imageUrls k) = Inl err"
  shows "generate_pdf_section e storyData imageUrls w k =
      heading_calls k (prop_of storyData (chapterKeys storyData ! k @ utf16 ''Name'')) @
      body_calls (chapter_paragraphs storyData (chapterKeys storyData ! k)) @ [AddPage] @
      image_placeholder @ page_break k (length (chapterKeys storyData))"
    and "preview_section e storyData imageUrls w k =
      heading_calls k (prop_of storyData (chapterKeys storyData ! k @ utf16 ''Name'')) @
      body_calls (chapter_paragraphs storyData (chapterKeys storyData ! k)) @
      page_break k (length (chapterKeys storyData))"
proof -
  let ?w = "w\<lparr>calls := calls w + downloads_before imageUrls k\<rparr>"
  have "net e (calls ?w) = Inl err" using assms(2) by simp
  then have d: "fst (downloadImageToBuffer e (image_url imageUrls k) ?w) = Inl err"
    by (rule download_rejected)
  from generate_pdf_image_try_fetch [OF d]
  have g: "fst (generate_pdf_image e (image_url imageUrls k) ?w) = image_placeholder"
    by (rule generate_pdf_image_failure)
  from preview_image_try_fetch [OF d]
  have p: "fst (preview_image e (image_url imageUrls k) ?w) = []"
    by (rule preview_image_failure)
  show "generate_pdf_section e storyData imageUrls w k =
      heading_calls k (prop_of storyData (chapterKeys storyData ! k @ utf16 ''Name'')) @
      body_calls (chapter_paragraphs storyData (chapterKeys storyData ! k)) @ [AddPage] @
      image_placeholder @ page_break k (length (chapterKeys storyData))"
    using assms(1) g by (simp add: generate_pdf_section_def Let_def)
  show "preview_section e storyData imageUrls w k =
      heading_calls k (prop_of storyData (chapterKeys storyData ! k @ utf16 ''Name'')) @
      body_calls (chapter_paragraphs storyData (chapterKeys storyData ! k)) @
      page_break k (length (chapterKeys storyData))"
    using assms(1) p by (simp add: preview_section_def Let_def)
qed

lemma concat_map_upt_split:
  assumes "k < n"
  shows "concat (map f [0..<n]) = concat (map f [0..<k]) @ f k @ concat (map f [Suc k..<n])"
proof -
  from assms have "[0..<n] = [0..<k] @ k # [Suc k..<n]"
    by (metis le_add1 less_imp_le_nat plus_nat.add_0 upt_add_eq_append upt_conv_Cons
        le_iff_add)
  then show ?thesis by simp
qed

lemma pdf_handler_absent_imageUrls:
  assumes "truthy storyData" and "chapterKeys storyData \<noteq> []"
    and "imageUrls = Undefined \<or> imageUrls = Null"
  shows "pdf_handler e storyData imageUrls storyName w =
    (\<lparr>sent = None, uncaught = Some (cannot_read imageUrls (utf16 ''0''))\<rparr>, w)"
proof -
  from assms(2) obtain key keys where k: "chapterKeys storyData = key # keys"
    by (cases "chapterKeys storyData") auto
  have "pdf_chapter e storyData imageUrls n 0 key w = (Inl (cannot_read imageUrls (utf16 ''0'')), w)" for n
    using assms(3) by (auto simp: pdf_chapter_def Let_def dec_nat_0)
  with assms(1) k show ?thesis by (simp add: pdf_handler_def)
qed

lemma pdf_handler_400_iff:
  "(\<exists>b. sent (fst (pdf_handler e storyData imageUrls storyName w)) = Some (Json 400 b))
     \<longleftrightarrow> \<not> truthy storyData"
  by (auto simp: pdf_handler_def responded_def split: prod.splits sum.splits)

text \<open>
  Claim C10. \<open>/api/pdf\<close> answers 400 exactly when \<open>storyData\<close> is missing (falsy).
  A request whose \<open>storyData\<close> has a chapter key and whose \<open>imageUrls\<close> is absent
  (\<open>undefined\<close>, or \<open>null\<close>) is not answered 400: in the first iteration of the loop
  \<open>imageUrls[0]\<close> throws a \<open>TypeError\<close>, which escapes the handler, and no answer
  is sent at all.
\<close>

theorem pdf_handler_fails_without_imageUrls:
  "(truthy storyData \<and> chapterKeys storyData \<noteq> [] \<and> (imageUrls = Undefined \<or> imageUrls = Null) \<longrightarrow>
      pdf_handler e storyData imageUrls storyName w =
        (\<lparr>sent = None, uncaught = Some (cannot_read imageUrls (utf16 ''0''))\<rparr>, w))
   \<and> ((\<exists>b. sent (fst (pdf_handler e storyData imageUrls storyName w)) = Some (Json 400 b))
        \<longleftrightarrow> \<not> truthy storyData)"
  by (simp add: pdf_handler_absent_imageUrls pdf_handler_400_iff)

text \<open>
  Witness for C10: the story of one chapter, sent without \<open>imageUrls\<close>.
\<close>

theorem pdf_handler_fails_without_imageUrls_witness:
  "pdf_handler (env_of (\<lambda>k. Inr image_response)) story_one Undefined (Str (utf16 ''Tale'')) world0 =
     (\<lparr>sent = None,
       uncaught = Some (TypeError (utf16 ''Cannot read properties of undefined (reading '' @
                          [0x27] @ utf16 ''0'' @ [0x27] @ utf16 '')''))\<rparr>, world0)
   \<and> chapterKeys story_one = [utf16 ''chapter1'']"
proof -
  have k: "chapterKeys story_one = [utf16 ''chapter1'']"
    by (simp add: chapterKeys_def story_one_def String_startsWith_def String_endsWith_def utf16_def)
  have t: "truthy story_one" by (simp add: story_one_def)
  from pdf_handler_fails_without_imageUrls [where storyData = story_one and imageUrls = Undefined
      and e = "env_of (\<lambda>k. Inr image_response)" and storyName = "Str (utf16 ''Tale'')" and w = world0]
    k t
  show ?thesis by (simp add: cannot_read_def utf16_def)
qed

text \<open>
  Claim C8, as the code has it. In \<open>/api/generate-pdf\<close> the block that adds the image
  of a chapter never throws: when the image cannot be fetched, or the buffer is empty,
  or its size cannot be read, or PDFKit rejects it, the block adds the placeholder
  "Error loading image" instead. A chapter whose content is a string is laid out as its
  heading, its paragraphs, a page break, the image or the placeholder, and the page
  break between chapters. Whenever the contents of the chapters are strings, the
  document the handler sends is the title followed by the sections of all the chapters
  in order, whatever happens to the images; and when the download of the image of the
  \<open>k\<close>-th chapter is rejected, the document is the title, the sections of the \<open>k\<close>
  chapters before, then the heading and the paragraphs of the \<open>k\<close>-th chapter, the page
  break, the placeholder, the page break between chapters, and the sections of the
  chapters after. In \<open>/api/generate-pdf-preview\<close> the block never throws either, but a
  failure adds nothing: whenever \<open>imageUrls\<close> is present and the contents are strings,
  the document is the title followed by the sections of all the chapters, and the
  chapter whose download is rejected is there as its heading, its paragraphs and the
  page break between chapters, with no placeholder.
\<close>

theorem image_failure_in_assembly:
  "(fst (downloadImageToBuffer e imageUrl w) = Inl err \<longrightarrow>
      fst (generate_pdf_image e imageUrl w) = image_placeholder
      \<and> fst (preview_image e imageUrl w) = [])
   \<and> (fst (downloadImageToBuffer e imageUrl w) = Inr buffer
       \<and> (buffer = [] \<or> isl (sizeOf e buffer) \<or> \<not> pdf_image_ok e buffer) \<longrightarrow>
      fst (generate_pdf_image e imageUrl w) = image_placeholder)
   \<and> (fst (downloadImageToBuffer e imageUrl w) = Inr buffer
       \<and> (buffer = [] \<or> isl (sizeOf e buffer) \<or> \<not> pdf_image_ok e buffer) \<longrightarrow>
      fst (preview_image e imageUrl w) = [])
   \<and> (getIndex imageUrls i = Inr imageUrl \<and> truthy imageUrl \<and> prop_of storyData chapterKey = Str s \<longrightarrow>
      fst (generate_pdf_chapter e storyData imageUrls n i chapterKey w) =
        Inr (heading_calls i (prop_of storyData (chapterKey @ utf16 ''Name'')) @
             body_calls (String_split [0x0A, 0x0A] s) @ [AddPage] @
             fst (generate_pdf_image e imageUrl w) @ page_break i n)
      \<and> fst (preview_chapter e storyData imageUrls n i chapterKey w) =
        Inr (heading_calls i (prop_of storyData (chapterKey @ utf16 ''Name'')) @
             body_calls (String_split [0x0A, 0x0A] s) @
             fst (preview_image e imageUrl w) @ page_break i n))
   \<and> (truthy storyData \<and> truthy imageUrls
       \<and> (\<forall>key \<in> set (chapterKeys storyData). \<exists>s. prop_of storyData key = Str s) \<longrightarrow>
      sent (fst (generate_pdf_handler e storyData imageUrls storyName w)) =
        Some (SendPdf (title_calls storyName @
          concat (map (generate_pdf_section e storyData imageUrls w)
                    [0..<length (chapterKeys storyData)]))))
   \<and> (imageUrls \<noteq> Undefined \<and> imageUrls \<noteq> Null
       \<and> (\<forall>key \<in> set (chapterKeys storyData). \<exists>s. prop_of storyData key = Str s) \<longrightarrow>
      fst (preview_document e storyData imageUrls storyName w) =
        Inr (title_calls storyName @
          concat (map (preview_section e storyData imageUrls w)
                    [0..<length (chapterKeys storyData)])))
   \<and> (truthy storyData \<and> truthy imageUrls
       \<and> (\<forall>key \<in> set (chapterKeys storyData). \<exists>s. prop_of storyData key = Str s)
       \<and> k < length (chapterKeys storyData) \<and> truthy (image_url imageUrls k)
       \<and> net e (calls w + downloads_before imageUrls k) = Inl err \<longrightarrow>
      sent (fst (generate_pdf_handler e storyData imageUrls storyName w)) =
        Some (SendPdf (title_calls storyName @
          concat (map (generate_pdf_section e storyData imageUrls w) [0..<k]) @
          heading_calls k (prop_of storyData (chapterKeys storyData ! k @ utf16 ''Name'')) @
          body_calls (chapter_paragraphs storyData (chapterKeys storyData ! k)) @ [AddPage] @
          image_placeholder @ page_break k (length (chapterKeys storyData)) @
          concat (map (generate_pdf_section e storyData imageUrls w)
                    [Suc k..<length (chapterKeys storyData)]))))
   \<and> (imageUrls \<noteq> Undefined \<and> imageUrls \<noteq> Null
       \<and> (\<forall>key \<in> set (chapterKeys storyData). \<exists>s. prop_of storyData key = Str s)
       \<and> k < length (chapterKeys storyData) \<and> truthy (image_url imageUrls k)
       \<and> net e (calls w + downloads_before imageUrls k) = Inl err \<longrightarrow>
      fst (preview_document e storyData imageUrls storyName w) =
        Inr (title_calls storyName @
          concat (map (preview_section e storyData imageUrls w) [0..<k]) @
          heading_calls k (prop_of storyData (chapterKeys storyData ! k @ utf16 ''Name'')) @
          body_calls (chapter_paragraphs storyData (chapterKeys storyData ! k)) @
          page_break k (length (chapterKeys storyData)) @
          concat (map (preview_section e storyData imageUrls w)
                    [Suc k..<length (chapterKeys storyData)])))
   \<and> image_placeholder =
       [FontSize 10, FillColor ''#ff0000'', Text (utf16 ''Error loading image'') ''center'', MoveDown 1]"
proof (intro conjI impI)
  assume a: "fst (downloadImageToBuffer e imageUrl w) = Inl err"
  from generate_pdf_image_try_fetch [OF a]
  show "fst (generate_pdf_image e imageUrl w) = image_placeholder"
    by (rule generate_pdf_image_failure)
  from preview_image_try_fetch [OF a]
  show "fst (preview_image e imageUrl w) = []"
    by (rule preview_image_failure)
next
  assume a: "fst (downloadImageToBuffer e imageUrl w) = Inr buffer
       \<and> (buffer = [] \<or> isl (sizeOf e buffer) \<or> \<not> pdf_image_ok e buffer)"
  then have "isl (fst (generate_pdf_image_try e imageUrl w))"
    using generate_pdf_image_try_decode [of e imageUrl w buffer] by blast
  then obtain err' where "fst (generate_pdf_image_try e imageUrl w) = Inl err'"
    by (cases "fst (generate_pdf_image_try e imageUrl w)") auto
  then show "fst (generate_pdf_image e imageUrl w) = image_placeholder"
    by (rule generate_pdf_image_failure)
next
  assume a: "fst (downloadImageToBuffer e imageUrl w) = Inr buffer
       \<and> (buffer = [] \<or> isl (sizeOf e buffer) \<or> \<not> pdf_image_ok e buffer)"
  show "fst (preview_image e imageUrl w) = []"
  proof (cases "buffer = []")
    case True
    with a show ?thesis
      by (cases "downloadImageToBuffer e imageUrl w")
        (simp add: preview_image_def preview_image_try_def)
  next
    case False
    with a have "isl (fst (preview_image_try e imageUrl w))"
      using preview_image_try_decode [of e imageUrl w buffer] by blast
    then obtain err' where "fst (preview_image_try e imageUrl w) = Inl err'"
      by (cases "fst (preview_image_try e imageUrl w)") auto
    then show ?thesis by (rule preview_image_failure)
  qed
next
  assume a: "getIndex imageUrls i = Inr imageUrl \<and> truthy imageUrl \<and> prop_of storyData chapterKey = Str s"
  then show "fst (generate_pdf_chapter e storyData imageUrls n i chapterKey w) =
        Inr (heading_calls i (prop_of storyData (chapterKey @ utf16 ''Name'')) @
             body_calls (String_split [0x0A, 0x0A] s) @ [AddPage] @
             fst (generate_pdf_image e imageUrl w) @ page_break i n)"
    by (simp add: generate_pdf_chapter_shape)
  from a show "fst (preview_chapter e storyData imageUrls n i chapterKey w) =
        Inr (heading_calls i (prop_of storyData (chapterKey @ utf16 ''Name'')) @
             body_calls (String_split [0x0A, 0x0A] s) @
             fst (preview_image e imageUrl w) @ page_break i n)"
    by (simp add: preview_chapter_shape)
next
  assume "truthy storyData \<and> truthy imageUrls
       \<and> (\<forall>key \<in> set (chapterKeys storyData). \<exists>s. prop_of storyData key = Str s)"
  then show "sent (fst (generate_pdf_handler e storyData imageUrls storyName w)) =
        Some (SendPdf (title_calls storyName @
          concat (map (generate_pdf_section e storyData imageUrls w)
                    [0..<length (chapterKeys storyData)])))"
    by (simp add: generate_pdf_document)
next
  assume "imageUrls \<noteq> Undefined \<and> imageUrls \<noteq> Null
       \<and> (\<forall>key \<in> set (chapterKeys storyData). \<exists>s. prop_of storyData key = Str s)"
  then show "fst (preview_document e storyData imageUrls storyName w) =
        Inr (title_calls storyName @
          concat (map (preview_section e storyData imageUrls w)
                    [0..<length (chapterKeys storyData)]))"
    by (simp add: preview_document_sections)
next
  assume a: "truthy storyData \<and> truthy imageUrls
       \<and> (\<forall>key \<in> set (chapterKeys storyData). \<exists>s. prop_of storyData key = Str s)
       \<and> k < length (chapterKeys storyData) \<and> truthy (image_url imageUrls k)
       \<and> net e (calls w + downloads_before imageUrls k) = Inl err"
  then have d: "sent (fst (generate_pdf_handler e storyData imageUrls storyName w)) =
        Some (SendPdf (title_calls storyName @
          concat (map (generate_pdf_section e storyData imageUrls w)
                    [0..<length (chapterKeys storyData)])))"
    by (simp add: generate_pdf_document)
  from a have k: "k < length (chapterKeys storyData)" by simp
  from a have r: "generate_pdf_section e storyData imageUrls w k =
      heading_calls k (prop_of storyData (chapterKeys storyData ! k @ utf16 ''Name'')) @
      body_calls (chapter_paragraphs storyData (chapterKeys storyData ! k)) @ [AddPage] @
      image_placeholder @ page_break k (length (chapterKeys storyData))"
    by (simp add: section_download_rejected(1))
  show "sent (fst (generate_pdf_handler e storyData imageUrls storyName w)) =
        Some (SendPdf (title_calls storyName @
          concat (map (generate_pdf_section e storyData imageUrls w) [0..<k]) @
          heading_calls k (prop_of storyData (chapterKeys storyData ! k @ utf16 ''Name'')) @
          body_calls (chapter_paragraphs storyData (chapterKeys storyData ! k)) @ [AddPage] @
          image_placeholder @ page_break k (length (chapterKeys storyData)) @
          concat (map (generate_pdf_section e storyData imageUrls w)
                    [Suc k..<length (chapterKeys storyData)])))"
    unfolding d concat_map_upt_split [OF k, of "generate_pdf_section e storyData imageUrls w"] r
    by simp
next
  assume a: "imageUrls \<noteq> Undefined \<and> imageUrls \<noteq> Null
       \<and> (\<forall>key \<in> set (chapterKeys storyData). \<exists>s. prop_of storyData key = Str s)
       \<and> k < length (chapterKeys storyData) \<and> truthy (image_url imageUrls k)
       \<and> net e (calls w + downloads_before imageUrls k) = Inl err"
  then have d: "fst (preview_document e storyData imageUrls storyName w) =
        Inr (title_calls storyName @
          concat (map (preview_section e storyData imageUrls w)
                    [0..<length (chapterKeys storyData)]))"
    by (simp add: preview_document_sections)
  from a have k: "k < length (chapterKeys storyData)" by simp
  from a have r: "preview_section e storyData imageUrls w k =
      heading_calls k (prop_of storyData (chapterKeys storyData ! k @ utf16 ''Name'')) @
      body_calls (chapter_paragraphs storyData (chapterKeys storyData ! k)) @
      page_break k (length (chapterKeys storyData))"
    by (simp add: section_download_rejected(2))
  show "fst (preview_document e storyData imageUrls storyName w) =
        Inr (title_calls storyName @
          concat (map (preview_section e storyData imageUrls w) [0..<k]) @
          heading_calls k (prop_of storyData (chapterKeys storyData ! k @ utf16 ''Name'')) @
          body_calls (chapter_paragraphs storyData (chapterKeys storyData ! k)) @
          page_break k (length (chapterKeys storyData)) @
          concat (map (preview_section e storyData imageUrls w)
                    [Suc k..<length (chapterKeys storyData)]))"
    unfolding d concat_map_upt_split [OF k, of "preview_section e storyData imageUrls w"] r
    by simp
next
  show "image_placeholder =
       [FontSize 10, FillColor ''#ff0000'', Text (utf16 ''Error loading image'') ''center'', MoveDown 1]"
    by (simp add: image_placeholder_def)
qed

text \<open>
  Witness for C8. On the story of one chapter: with the download of the image answered
  404, and with the image downloaded and its size unreadable, \<open>/api/generate-pdf\<close> puts
  the placeholder where the image goes and \<open>/api/generate-pdf-preview\<close> puts nothing.
  On the story of two chapters, with the first download answered 404 and the second
  answered with the image: the document \<open>/api/generate-pdf\<close> sends has the placeholder
  in the first chapter and the image in the second, and the preview document has nothing
  after the paragraphs of the first chapter and the image in the second.
\<close>

theorem image_failure_in_assembly_witness:
  "fst (generate_pdf_image (env_of (\<lambda>k. Inl (axios_error 404))) (Str (utf16 ''http://img/1'')) world0)
     = image_placeholder
   \<and> fst (preview_image (env_of (\<lambda>k. Inl (axios_error 404))) (Str (utf16 ''http://img/1'')) world0) = []
   \<and> fst (generate_pdf_image ((env_of (\<lambda>k. Inr image_response))\<lparr>sizeOf := \<lambda>b. Inl (TypeError (utf16 ''unsupported file type''))\<rparr>)
          (Str (utf16 ''http://img/1'')) world0) = image_placeholder
   \<and> fst (preview_image ((env_of (\<lambda>k. Inr image_response))\<lparr>sizeOf := \<lambda>b. Inl (TypeError (utf16 ''unsupported file type''))\<rparr>)
          (Str (utf16 ''http://img/1'')) world0) = []
   \<and> fst (generate_pdf_chapter (env_of (\<lambda>k. Inl (axios_error 404))) story_one image_one 1 0
            (utf16 ''chapter1'') world0)
     = Inr (heading_calls 0 (Str (utf16 ''Start'')) @ body_calls [utf16 ''Once.'', utf16 ''End.''] @
            [AddPage] @ image_placeholder)
   \<and> fst (preview_chapter (env_of (\<lambda>k. Inl (axios_error 404))) story_one image_one 1 0
            (utf16 ''chapter1'') world0)
     = Inr (heading_calls 0 (Str (utf16 ''Start'')) @ body_calls [utf16 ''Once.'', utf16 ''End.''])
   \<and> sent (fst (generate_pdf_handler first_image_lost story_two image_two (Str (utf16 ''Tale'')) world0))
     = Some (SendPdf (title_calls (Str (utf16 ''Tale'')) @
         heading_calls 0 (Str (utf16 ''Start'')) @ body_calls [utf16 ''Once.''] @ [AddPage] @
         image_placeholder @ [AddPage] @
         heading_calls 1 (Str (utf16 ''Close'')) @ body_calls [utf16 ''Then.''] @ [AddPage] @
         [Image [0xFF, 0xD8] (FitRatio 400 1 1), MoveDown 1]))
   \<and> fst (preview_document first_image_lost story_two image_two (Str (utf16 ''Tale'')) world0)
     = Inr (title_calls (Str (utf16 ''Tale'')) @
         heading_calls 0 (Str (utf16 ''Start'')) @ body_calls [utf16 ''Once.''] @ [AddPage] @
         heading_calls 1 (Str (utf16 ''Close'')) @ body_calls [utf16 ''Then.''] @
         [Image [0xFF, 0xD8] (FitRatio 400 1 1)])"
proof -
  let ?e = "env_of (\<lambda>k. Inl (axios_error 404))"
  let ?e2 = "(env_of (\<lambda>k. Inr image_response))\<lparr>sizeOf := \<lambda>b. Inl (TypeError (utf16 ''unsupported file type''))\<rparr>"
  let ?u = "Str (utf16 ''http://img/1'')"
  have k: "chapterKeys story_one = [utf16 ''chapter1'']"
    by (simp add: chapterKeys_def story_one_def String_startsWith_def String_endsWith_def utf16_def)
  have c: "prop_of story_one (utf16 ''chapter1'') = Str (utf16 ''Once.'' @ [0x0A, 0x0A] @ utf16 ''End.'')"
    by (simp add: prop_of_def story_one_def utf16_def)
  have nm: "prop_of story_one (utf16 ''chapter1'' @ utf16 ''Name'') = Str (utf16 ''Start'')"
    by (simp add: prop_of_def story_one_def utf16_def)
  have sp: "String_split [0x0A, 0x0A] (utf16 ''Once.'' @ [0x0A, 0x0A] @ utf16 ''End.'')
      = [utf16 ''Once.'', utf16 ''End.'']"
    by (simp add: String_split_def utf16_def)
  have d1: "fst (downloadImageToBuffer ?e ?u world0) = Inl (axios_error 404)"
    by (simp add: downloadImageToBuffer_def request_def env_of_def world0_def)
  have d2: "fst (downloadImageToBuffer ?e2 ?u world0) = Inr [0xFF, 0xD8]"
    by (simp add: downloadImageToBuffer_def request_def env_of_def world0_def image_response_def
        bindE_def utf16_def)
  have s2: "isl (sizeOf ?e2 [0xFF, 0xD8])" by simp
  have gi: "getIndex image_one 0 = Inr ?u" "truthy ?u"
    by (simp_all add: image_one_def utf16_def)
  note t1 = image_failure_in_assembly [where e = ?e and imageUrl = ?u and w = world0
      and err = "axios_error 404" and imageUrls = image_one and i = 0 and storyData = story_one
      and chapterKey = "utf16 ''chapter1''" and n = 1
      and s = "utf16 ''Once.'' @ [0x0A, 0x0A] @ utf16 ''End.''"]
  note t2 = image_failure_in_assembly [where e = ?e2 and imageUrl = ?u and w = world0
      and buffer = "[0xFF, 0xD8]"]
  note t3 = image_failure_in_assembly [where e = first_image_lost and w = world0
      and err = "axios_error 404" and imageUrls = image_two and storyData = story_two
      and k = 0 and storyName = "Str (utf16 ''Tale'')" and imageUrl = ?u and buffer = "[]"
      and i = 0 and chapterKey = "[]" and s = "[]" and n = 0]
  from t1 d1 have a: "fst (generate_pdf_image ?e ?u world0) = image_placeholder"
    and b: "fst (preview_image ?e ?u world0) = []" by blast+
  from t2 d2 s2 have c2: "fst (generate_pdf_image ?e2 ?u world0) = image_placeholder"
    and d: "fst (preview_image ?e2 ?u world0) = []" by blast+
  from t1 gi c have "fst (generate_pdf_chapter ?e story_one image_one 1 0 (utf16 ''chapter1'') world0) =
        Inr (heading_calls 0 (prop_of story_one (utf16 ''chapter1'' @ utf16 ''Name'')) @
             body_calls (String_split [0x0A, 0x0A] (utf16 ''Once.'' @ [0x0A, 0x0A] @ utf16 ''End.'')) @ [AddPage] @
             fst (generate_pdf_image ?e ?u world0) @ page_break 0 1)"
    and "fst (preview_chapter ?e story_one image_one 1 0 (utf16 ''chapter1'') world0) =
        Inr (heading_calls 0 (prop_of story_one (utf16 ''chapter1'' @ utf16 ''Name'')) @
             body_calls (String_split [0x0A, 0x0A] (utf16 ''Once.'' @ [0x0A, 0x0A] @ utf16 ''End.'')) @
             fst (preview_image ?e ?u world0) @ page_break 0 1)"
    by blast+
  then have f: "fst (generate_pdf_chapter ?e story_one image_one 1 0 (utf16 ''chapter1'') world0)
     = Inr (heading_calls 0 (Str (utf16 ''Start'')) @ body_calls [utf16 ''Once.'', utf16 ''End.''] @
            [AddPage] @ image_placeholder)"
    and g: "fst (preview_chapter ?e story_one image_one 1 0 (utf16 ''chapter1'') world0)
     = Inr (heading_calls 0 (Str (utf16 ''Start'')) @ body_calls [utf16 ''Once.'', utf16 ''End.''])"
    by (simp_all only: nm sp a b page_break_def) simp_all
  have k2: "chapterKeys story_two = [utf16 ''chapter1'', utf16 ''chapter2'']"
    by (simp add: chapterKeys_def story_two_def String_startsWith_def String_endsWith_def utf16_def)
  have p2: "prop_of story_two (utf16 ''chapter1'') = Str (utf16 ''Once.'')"
    "prop_of story_two (utf16 ''chapter2'') = Str (utf16 ''Then.'')"
    "prop_of story_two (utf16 ''chapter1'' @ utf16 ''Name'') = Str (utf16 ''Start'')"
    "prop_of story_two (utf16 ''chapter2'' @ utf16 ''Name'') = Str (utf16 ''Close'')"
    by (simp_all add: prop_of_def story_two_def utf16_def)
  have cp: "chapter_paragraphs story_two (utf16 ''chapter1'') = [utf16 ''Once.'']"
    "chapter_paragraphs story_two (utf16 ''chapter2'') = [utf16 ''Then.'']"
    by (simp_all add: chapter_paragraphs_def p2) (simp_all add: String_split_def utf16_def)
  have iu: "image_url image_two 0 = Str (utf16 ''http://img/1'')"
    "image_url image_two (Suc 0) = Str (utf16 ''http://img/2'')"
    by (simp_all add: image_url_def image_two_def)
  have tr: "truthy story_two" "truthy image_two" "image_two \<noteq> Undefined" "image_two \<noteq> Null"
    "truthy (Str (utf16 ''http://img/1''))" "truthy (Str (utf16 ''http://img/2''))"
    by (simp_all add: story_two_def image_two_def utf16_def)
  have all: "\<forall>key \<in> set (chapterKeys story_two). \<exists>s. prop_of story_two key = Str s"
    using k2 p2 by simp
  have db: "downloads_before image_two 0 = 0" "downloads_before image_two (Suc 0) = Suc 0"
    using iu tr by (simp_all add: downloads_before_def)
  have n0: "net first_image_lost (calls world0 + downloads_before image_two 0) = Inl (axios_error 404)"
    by (simp add: db first_image_lost_def env_of_def world0_def)
  have ig: "fst (generate_pdf_image first_image_lost (Str (utf16 ''http://img/2'')) w1) =
      [Image [0xFF, 0xD8] (FitRatio 400 1 1), MoveDown 1]" if "calls w1 = Suc 0" for w1
    using that
    by (simp add: generate_pdf_image_def generate_pdf_image_try_def downloadImageToBuffer_def
        request_def first_image_lost_def env_of_def image_response_def bindE_def doc_image_def
        utf16_def)
  have ip: "fst (preview_image first_image_lost (Str (utf16 ''http://img/2'')) w1) =
      [Image [0xFF, 0xD8] (FitRatio 400 1 1)]" if "calls w1 = Suc 0" for w1
    using that
    by (simp add: preview_image_def preview_image_try_def downloadImageToBuffer_def
        request_def first_image_lost_def env_of_def image_response_def bindE_def doc_image_def
        utf16_def)
  have s1g: "generate_pdf_section first_image_lost story_two image_two world0 (Suc 0) =
      heading_calls 1 (Str (utf16 ''Close'')) @ body_calls [utf16 ''Then.''] @ [AddPage] @
      [Image [0xFF, 0xD8] (FitRatio 400 1 1), MoveDown 1]"
    using tr
    by (simp add: generate_pdf_section_def k2 p2 cp iu db page_break_def ig world0_def)
  have s1p: "preview_section first_image_lost story_two image_two world0 (Suc 0) =
      heading_calls 1 (Str (utf16 ''Close'')) @ body_calls [utf16 ''Then.''] @
      [Image [0xFF, 0xD8] (FitRatio 400 1 1)]"
    using tr
    by (simp add: preview_section_def k2 p2 cp iu db page_break_def ip world0_def)
  have hg: "truthy story_two \<and> truthy image_two
       \<and> (\<forall>key \<in> set (chapterKeys story_two). \<exists>s. prop_of story_two key = Str s)
       \<and> 0 < length (chapterKeys story_two) \<and> truthy (image_url image_two 0)
       \<and> net first_image_lost (calls world0 + downloads_before image_two 0) = Inl (axios_error 404)"
    using tr all iu n0 by (simp add: k2)
  have hp: "image_two \<noteq> Undefined \<and> image_two \<noteq> Null
       \<and> (\<forall>key \<in> set (chapterKeys story_two). \<exists>s. prop_of story_two key = Str s)
       \<and> 0 < length (chapterKeys story_two) \<and> truthy (image_url image_two 0)
       \<and> net first_image_lost (calls world0 + downloads_before image_two 0) = Inl (axios_error 404)"
    using tr all iu n0 by (simp add: k2)
  note t3 [THEN conjunct2, THEN conjunct2, THEN conjunct2, THEN conjunct2, THEN conjunct2,
      THEN conjunct2, THEN conjunct1, THEN mp, OF hg]
    t3 [THEN conjunct2, THEN conjunct2, THEN conjunct2, THEN conjunct2, THEN conjunct2,
      THEN conjunct2, THEN conjunct2, THEN conjunct1, THEN mp, OF hp]
  then have h: "sent (fst (generate_pdf_handler first_image_lost story_two image_two (Str (utf16 ''Tale'')) world0))
     = Some (SendPdf (title_calls (Str (utf16 ''Tale'')) @
         heading_calls 0 (Str (utf16 ''Start'')) @ body_calls [utf16 ''Once.''] @ [AddPage] @
         image_placeholder @ [AddPage] @
         heading_calls 1 (Str (utf16 ''Close'')) @ body_calls [utf16 ''Then.''] @ [AddPage] @
         [Image [0xFF, 0xD8] (FitRatio 400 1 1), MoveDown 1]))"
    and j: "fst (preview_document first_image_lost story_two image_two (Str (utf16 ''Tale'')) world0)
     = Inr (title_calls (Str (utf16 ''Tale'')) @
         heading_calls 0 (Str (utf16 ''Start'')) @ body_calls [utf16 ''Once.''] @ [AddPage] @
         heading_calls 1 (Str (utf16 ''Close'')) @ body_calls [utf16 ''Then.''] @
         [Image [0xFF, 0xD8] (FitRatio 400 1 1)])"
    by (simp_all add: k2 p2 cp s1g s1p page_break_def)
  from a b c2 d f g h j show ?thesis by blast
qed

text \<open>
  Claim C8, as the specification states it, fails on two of the three assembly passes.
  With the download of the chapter's image answered 404, the preview document is the
  title, the heading and the paragraphs: nothing stands where the image would be, and
  the placeholder text is nowhere in it. And \<open>/api/pdf\<close>, which has no \<open>try\<close>, is
  ended by the error of the download: no document and no answer is sent.
\<close>

theorem image_failure_counterexample:
  "fst (preview_document (env_of (\<lambda>k. Inl (axios_error 404))) story_one image_one
          (Str (utf16 ''Tale'')) world0)
     = Inr (title_calls (Str (utf16 ''Tale'')) @ heading_calls 0 (Str (utf16 ''Start'')) @
            body_calls [utf16 ''Once.'', utf16 ''End.''])
   \<and> Text (utf16 ''Error loading image'') ''center'' \<notin>
       set (title_calls (Str (utf16 ''Tale'')) @ heading_calls 0 (Str (utf16 ''Start'')) @
            body_calls [utf16 ''Once.'', utf16 ''End.''])
   \<and> fst (pdf_handler (env_of (\<lambda>k. Inl (axios_error 404))) story_one image_one
          (Str (utf16 ''Tale'')) world0)
     = \<lparr>sent = None, uncaught = Some (axios_error 404)\<rparr>"
proof -
  let ?e = "env_of (\<lambda>k. Inl (axios_error 404))"
  have k: "chapterKeys story_one = [utf16 ''chapter1'']"
    by (simp add: chapterKeys_def story_one_def String_startsWith_def String_endsWith_def utf16_def)
  have c: "prop_of story_one (utf16 ''chapter1'') = Str (utf16 ''Once.'' @ [0x0A, 0x0A] @ utf16 ''End.'')"
    by (simp add: prop_of_def story_one_def utf16_def)
  have nm: "prop_of story_one (utf16 ''chapter1'' @ utf16 ''Name'') = Str (utf16 ''Start'')"
    by (simp add: prop_of_def story_one_def utf16_def)
  have sp: "String_split [0x0A, 0x0A] (utf16 ''Once.'' @ [0x0A, 0x0A] @ utf16 ''End.'')
      = [utf16 ''Once.'', utf16 ''End.'']"
    by (simp add: String_split_def utf16_def)
  have d: "downloadImageToBuffer ?e (Str (utf16 ''http://img/1'')) world0 =
      (Inl (axios_error 404),
       console_error [utf16 ''Error downloading image:'', message_or_error (axios_error 404)]
         (snd (request ?e GET (utf16 ''http://img/1'') world0)))"
    by (simp add: downloadImageToBuffer_def request_def env_of_def world0_def)
  have gi: "getIndex image_one 0 = Inr (Str (utf16 ''http://img/1''))"
    by (simp add: image_one_def)
  have tr: "truthy (Str (utf16 ''http://img/1''))" "truthy story_one"
    by (simp_all add: utf16_def story_one_def)
  have "fst (preview_chapter ?e story_one image_one (Suc 0) 0 (utf16 ''chapter1'') world0)
      = Inr (heading_calls 0 (Str (utf16 ''Start'')) @ body_calls [utf16 ''Once.'', utf16 ''End.''])"
    using gi tr c nm sp d
    by (simp add: preview_chapter_def preview_image_def preview_image_try_def Let_def page_break_def)
  then have a: "fst (preview_document ?e story_one image_one (Str (utf16 ''Tale'')) world0)
     = Inr (title_calls (Str (utf16 ''Tale'')) @ heading_calls 0 (Str (utf16 ''Start'')) @
            body_calls [utf16 ''Once.'', utf16 ''End.''])"
    by (cases "preview_chapter ?e story_one image_one (Suc 0) 0 (utf16 ''chapter1'') world0")
      (simp add: preview_document_def k)
  have b: "Text (utf16 ''Error loading image'') ''center'' \<notin>
       set (title_calls (Str (utf16 ''Tale'')) @ heading_calls 0 (Str (utf16 ''Start'')) @
            body_calls [utf16 ''Once.'', utf16 ''End.''])"
    by (simp add: title_calls_def heading_calls_def body_calls_def doc_text_def utf16_def)
  have "fst (pdf_chapter ?e story_one image_one (Suc 0) 0 (utf16 ''chapter1'') world0) = Inl (axios_error 404)"
    using gi tr d by (simp add: pdf_chapter_def Let_def)
  then have p: "fst (pdf_handler ?e story_one image_one (Str (utf16 ''Tale'')) world0)
     = \<lparr>sent = None, uncaught = Some (axios_error 404)\<rparr>"
    using tr
    by (cases "pdf_chapter ?e story_one image_one (Suc 0) 0 (utf16 ''chapter1'') world0")
      (simp add: pdf_handler_def k)
  from a b p show ?thesis by simp
qed

text \<open>
  The preview handler registers what the preview endpoint serves: after a preview has been
  assembled and written, its identifier is answered with the file at its path, and the
  file exists with the current time as its time of last modification.
\<close>

lemma generate_pdf_preview_registers:
  assumes "truthy storyData" and "truthy storyName"
    and "fst (preview_document e storyData imageUrls storyName w) = Inr document"
  shows "pdf_preview_handler previewId
      (snd (generate_pdf_preview_handler e previewId storyData imageUrls storyName w))
    = responded (SendFile (previewPdfPath e previewId))
    \<and> files (snd (generate_pdf_preview_handler e previewId storyData imageUrls storyName w))
        (previewPdfPath e previewId) = Some (now e)"
proof -
  obtain w1 where d: "preview_document e storyData imageUrls storyName w = (Inr document, w1)"
    using assms(3) by (cases "preview_document e storyData imageUrls storyName w") auto
  have ne: "previewPdfPath e previewId \<noteq> []"
    by (simp add: previewPdfPath_def path_join_def utf16_def)
  show ?thesis
    using assms(1,2) d ne
    by (simp add: generate_pdf_preview_handler_def pdf_preview_handler_def previews_set_def
        writeFileSync_def update_conv')
qed

end
